(* ===== verification/L1X_Prelude.thy ===== *)
theory L1X_Prelude
  imports Main "HOL-Library.Word"
begin

text \<open>
  Shared vocabulary of the development: the primitive types of \<^verbatim>\<open>primitives/src/lib.rs\<close>, the
  checked and saturating integer operations of Rust's standard library at their machine width,
  big-endian byte strings, operations that carry a mutable state and may fail, and the small
  relational logic with which the components prove frame and invariant properties of such
  operations.
\<close>

section \<open>Primitive types\<close>

type_synonym byte = "8 word"
type_synonym bytes = "8 word list"
type_synonym address = "160 word"
type_synonym balance = "128 word"
type_synonym gas = "64 word"
type_synonym nonce = "128 word"
type_synonym block_number = "128 word"
type_synonym timestamp = "128 word"
type_synonym block_timestamp = "64 word"
type_synonym epoch = "64 word"
type_synonym block_hash = "256 word"
type_synonym transaction_hash = "256 word"

named_theorems checked_simps \<open>characterisations of the checked arithmetic operations over nat\<close>
named_theorems op_simps \<open>unfolding of the state-and-error combinators\<close>
named_theorems obs_simps \<open>what a composed operation shows through an abstraction\<close>

section \<open>Checked arithmetic\<close>

definition checked_add :: "'a::len word \<Rightarrow> 'a word \<Rightarrow> 'a word option" where
  "checked_add a b = (if unat a + unat b < 2 ^ LENGTH('a) then Some (a + b) else None)"

definition checked_sub :: "'a::len word \<Rightarrow> 'a word \<Rightarrow> 'a word option" where
  "checked_sub a b = (if unat b \<le> unat a then Some (a - b) else None)"

definition checked_mul :: "'a::len word \<Rightarrow> 'a word \<Rightarrow> 'a word option" where
  "checked_mul a b = (if unat a * unat b < 2 ^ LENGTH('a) then Some (a * b) else None)"

definition checked_div :: "'a::len word \<Rightarrow> 'a word \<Rightarrow> 'a word option" where
  "checked_div a b = (if b = 0 then None else Some (a div b))"

definition saturating_sub :: "'a::len word \<Rightarrow> 'a word \<Rightarrow> 'a word" where
  "saturating_sub a b = (if unat b \<le> unat a then a - b else 0)"

lemma unat_bounded: "unat (a :: 'a::len word) < 2 ^ LENGTH('a)"
  by (rule unsigned_less)

lemma checked_add_Some [checked_simps]:
  "checked_add a b = Some c \<longleftrightarrow> unat c = unat a + unat b"
proof
  assume "checked_add a b = Some c"
  then show "unat c = unat a + unat b"
    by (auto simp: checked_add_def unat_word_ariths split: if_splits)
next
  assume eq: "unat c = unat a + unat b"
  then have lt: "unat a + unat b < 2 ^ LENGTH('a)"
    by (metis unat_bounded)
  with eq have "c = a + b"
    by (intro word_unat_eq_iff [THEN iffD2]) (simp add: unat_word_ariths)
  with lt show "checked_add a b = Some c"
    by (simp add: checked_add_def)
qed

lemma checked_add_None [checked_simps]:
  "checked_add (a :: 'a::len word) b = None \<longleftrightarrow> 2 ^ LENGTH('a) \<le> unat a + unat b"
  by (auto simp: checked_add_def)

lemma checked_sub_Some [checked_simps]:
  "checked_sub a b = Some c \<longleftrightarrow> unat a = unat c + unat b"
proof
  assume "checked_sub a b = Some c"
  then show "unat a = unat c + unat b"
    by (auto simp: checked_sub_def word_le_nat_alt unat_sub split: if_splits)
next
  assume eq: "unat a = unat c + unat b"
  then have le: "unat b \<le> unat a" by simp
  with eq have "c = a - b"
    by (intro word_unat_eq_iff [THEN iffD2]) (simp add: word_le_nat_alt unat_sub)
  with le show "checked_sub a b = Some c"
    by (simp add: checked_sub_def)
qed

lemma checked_sub_None [checked_simps]:
  "checked_sub a b = None \<longleftrightarrow> unat a < unat b"
  by (auto simp: checked_sub_def)

lemma checked_mul_Some [checked_simps]:
  "checked_mul a b = Some c \<longleftrightarrow> unat c = unat a * unat b"
proof
  assume "checked_mul a b = Some c"
  then show "unat c = unat a * unat b"
    by (auto simp: checked_mul_def unat_word_ariths split: if_splits)
next
  assume eq: "unat c = unat a * unat b"
  then have lt: "unat a * unat b < 2 ^ LENGTH('a)"
    by (metis unat_bounded)
  with eq have "c = a * b"
    by (intro word_unat_eq_iff [THEN iffD2]) (simp add: unat_word_ariths)
  with lt show "checked_mul a b = Some c"
    by (simp add: checked_mul_def)
qed

lemma checked_mul_None [checked_simps]:
  "checked_mul (a :: 'a::len word) b = None \<longleftrightarrow> 2 ^ LENGTH('a) \<le> unat a * unat b"
  by (auto simp: checked_mul_def)

lemma unat_saturating_sub [checked_simps]:
  "unat (saturating_sub a b) = unat a - unat b"
  by (auto simp: saturating_sub_def word_le_nat_alt unat_sub)

section \<open>Big-endian byte strings\<close>

definition be_bytes :: "nat \<Rightarrow> 'a::len word \<Rightarrow> bytes" where
  "be_bytes n w = map (\<lambda>i. ucast (drop_bit (8 * i) w)) (rev [0..<n])"

lemma length_be_bytes [simp]: "length (be_bytes n w) = n"
  by (simp add: be_bytes_def)

lemma be_bytes_nth_bit:
  fixes w :: "'a::len word"
  assumes "i < n" and "j < 8" and "8 * i + j < LENGTH('a)"
  shows "bit (be_bytes n w ! (n - Suc i)) j = bit w (8 * i + j)"
  using assms by (simp add: be_bytes_def rev_nth bit_simps ac_simps)

lemma be_bytes_inj:
  fixes w w' :: "'a::len word"
  assumes eq: "be_bytes n w = be_bytes n w'" and len: "LENGTH('a) \<le> 8 * n"
  shows "w = w'"
proof (rule bit_word_eqI)
  fix k assume k: "k < LENGTH('a)"
  have dm: "8 * (k div 8) + k mod 8 = k" by simp
  have "k div 8 < n" using k len by (simp add: less_mult_imp_div_less)
  then have "bit w (8 * (k div 8) + k mod 8) = bit w' (8 * (k div 8) + k mod 8)"
    using be_bytes_nth_bit [of "k div 8" n "k mod 8" w] be_bytes_nth_bit [of "k div 8" n "k mod 8" w']
      eq k dm by simp
  with dm show "bit w k = bit w' k" by simp
qed

text \<open>\<^verbatim>\<open>from_le_bytes\<close> and the length of a slice as a \<^verbatim>\<open>usize\<close> of 64 bits.\<close>

fun le_word :: "bytes \<Rightarrow> 'a::len word" where
  "le_word [] = 0"
| "le_word (b # bs) = ucast b + 256 * le_word bs"

definition le_bytes :: "nat \<Rightarrow> 'a::len word \<Rightarrow> bytes" where
  "le_bytes n w = rev (be_bytes n w)"

definition usize_len :: "'a list \<Rightarrow> 64 word" where
  "usize_len xs = of_nat (length xs)"

lemma length_le_bytes [simp]: "length (le_bytes n w) = n"
  by (simp add: le_bytes_def)

lemma le_bytes_Suc: "le_bytes (Suc n) w = ucast w # le_bytes n (drop_bit 8 w)"
proof -
  have "[0..<Suc n] = 0 # map Suc [0..<n]" by (simp add: map_Suc_upt upt_conv_Cons)
  then show ?thesis
    by (simp add: le_bytes_def be_bytes_def rev_map o_def ac_simps)
qed

lemma le_word_le_bytes_take: "le_word (le_bytes n w) = (take_bit (8 * n) w :: 'a::len word)"
proof (induction n arbitrary: w)
  case (Suc n)
  have "le_word (le_bytes (Suc n) w) = ucast (ucast w :: 8 word) + 256 * take_bit (8 * n) (drop_bit 8 w)"
    by (simp add: le_bytes_Suc Suc.IH)
  also have "(ucast (ucast w :: 8 word) :: 'a word) = take_bit 8 w"
    by (rule bit_word_eqI) (simp add: bit_simps)
  also have "256 * take_bit (8 * n) (drop_bit 8 w) = push_bit 8 (take_bit (8 * n) (drop_bit 8 w))"
    by (simp add: push_bit_eq_mult)
  also have "take_bit 8 w + push_bit 8 (take_bit (8 * n) (drop_bit 8 w)) = take_bit (8 * Suc n) w"
    by (subst disjunctive_add)
      (auto simp: bit_eq_iff bit_simps le_less_Suc_eq not_less)
  finally show ?case .
qed (simp add: le_bytes_def be_bytes_def)

lemma le_word_le_bytes:
  "LENGTH('a) \<le> 8 * n \<Longrightarrow> le_word (le_bytes n w) = (w :: 'a::len word)"
  by (simp add: le_word_le_bytes_take take_bit_word_eq_self)

lemma le_word_be_bytes:
  "LENGTH('a) \<le> 8 * n \<Longrightarrow> le_word (rev (be_bytes n w)) = (w :: 'a::len word)"
  using le_word_le_bytes [of n w] by (simp add: le_bytes_def)

section \<open>Operations with a mutable state and an error result\<close>

text \<open>
  A Rust method \<^verbatim>\<open>fn f(&mut self, ..) -> Result<T, Error>\<close> is a function from the state to the
  result and the state it leaves behind: an \<^verbatim>\<open>Err\<close> does not undo the writes made before it.
\<close>

type_synonym ('s, 'e, 'a) op = "'s \<Rightarrow> ('e + 'a) \<times> 's"

definition ok :: "'a \<Rightarrow> ('s, 'e, 'a) op" where
  [op_simps]: "ok x = (\<lambda>s. (Inr x, s))"

definition fail :: "'e \<Rightarrow> ('s, 'e, 'a) op" where
  [op_simps]: "fail e = (\<lambda>s. (Inl e, s))"

text \<open>\<open>and_then m f\<close> is \<^verbatim>\<open>let x = m?; f(x)\<close>: an error of \<open>m\<close> is returned at once.\<close>

definition and_then :: "('s, 'e, 'a) op \<Rightarrow> ('a \<Rightarrow> ('s, 'e, 'b) op) \<Rightarrow> ('s, 'e, 'b) op" where
  "and_then m f = (\<lambda>s. case m s of (Inl e, s') \<Rightarrow> (Inl e, s') | (Inr x, s') \<Rightarrow> f x s')"

text \<open>\<open>attempt m f\<close> is \<^verbatim>\<open>match m { .. }\<close>: the continuation sees the result, error or not.\<close>

definition attempt :: "('s, 'e, 'a) op \<Rightarrow> ('e + 'a \<Rightarrow> ('s, 'd, 'b) op) \<Rightarrow> ('s, 'd, 'b) op" where
  "attempt m f = (\<lambda>s. case m s of (r, s') \<Rightarrow> f r s')"

text \<open>\<open>ok_or o e\<close> is \<^verbatim>\<open>o.ok_or(e)?\<close>; \<open>modify f\<close> is an assignment to the state.\<close>

definition ok_or :: "'a option \<Rightarrow> 'e \<Rightarrow> ('s, 'e, 'a) op" where
  [op_simps]: "ok_or r e = (case r of None \<Rightarrow> fail e | Some x \<Rightarrow> ok x)"

definition modify :: "('s \<Rightarrow> 's) \<Rightarrow> ('s, 'e, unit) op" where
  [op_simps]: "modify f = (\<lambda>s. (Inr (), f s))"

definition gets :: "('s \<Rightarrow> 'a) \<Rightarrow> ('s, 'e, 'a) op" where
  [op_simps]: "gets f = (\<lambda>s. (Inr (f s), s))"

definition require :: "bool \<Rightarrow> 'e \<Rightarrow> ('s, 'e, unit) op" where
  [op_simps]: "require b e = (if b then ok () else fail e)"

text \<open>\<open>for_each f xs\<close> is \<^verbatim>\<open>for x in xs { f(x)?; }\<close>.\<close>

fun for_each :: "('x \<Rightarrow> ('s, 'e, unit) op) \<Rightarrow> 'x list \<Rightarrow> ('s, 'e, unit) op" where
  "for_each f [] = ok ()"
| "for_each f (x # xs) = and_then (f x) (\<lambda>_. for_each f xs)"

lemma and_then_Inr:
  "and_then m f s = (Inr y, s') \<longleftrightarrow> (\<exists>x t. m s = (Inr x, t) \<and> f x t = (Inr y, s'))"
  by (auto simp: and_then_def split: prod.splits sum.splits)

lemma and_then_Inl:
  "and_then m f s = (Inl e, s') \<longleftrightarrow>
     m s = (Inl e, s') \<or> (\<exists>x t. m s = (Inr x, t) \<and> f x t = (Inl e, s'))"
  by (auto simp: and_then_def split: prod.splits sum.splits)

lemma and_then_cong_Inr [simp]: "m s = (Inr x, t) \<Longrightarrow> and_then m f s = f x t"
  by (simp add: and_then_def)

lemma and_then_cong_Inl [simp]: "m s = (Inl e, t) \<Longrightarrow> and_then m f s = (Inl e, t)"
  by (simp add: and_then_def)

lemma and_then_assoc [obs_simps]: "and_then (and_then m f) g = and_then m (\<lambda>x. and_then (f x) g)"
  by (rule ext) (simp add: and_then_def split: prod.splits sum.splits)

lemma and_then_attempt [obs_simps]:
  "and_then (attempt m f) g = attempt m (\<lambda>r. and_then (f r) g)"
  by (rule ext) (simp add: and_then_def attempt_def split: prod.splits sum.splits)

lemma and_then_ok [obs_simps]: "and_then (ok x) f = f x"
  and and_then_fail [obs_simps]: "and_then (fail e) f = fail e"
  by (rule ext, simp add: op_simps)+

lemma and_then_if [obs_simps]:
  "and_then (if b then m else n) f = (if b then and_then m f else and_then n f)"
  by simp

lemma and_then_gets: "and_then (gets f) g s = g (f s) s"
  and and_then_modify: "and_then (modify h) k s = k () (h s)"
  and ok_run: "ok x s = (Inr x, s)"
  and fail_run: "fail e s = (Inl e, s)"
  by (simp_all add: gets_def modify_def ok_def fail_def)

lemmas op_elims = and_then_Inr and_then_Inl
lemmas op_runs = and_then_gets and_then_modify ok_run fail_run

text \<open>
  A loop whose steps succeed under an invariant of the remaining work succeeds.
\<close>

lemma for_each_succeeds:
  assumes "I xs s"
    and "\<And>x ys t. I (x # ys) t \<Longrightarrow> \<exists>t'. f x t = (Inr (), t') \<and> I ys t'"
  shows "\<exists>t. for_each f xs s = (Inr (), t) \<and> I [] t"
  using assms(1)
proof (induction xs arbitrary: s)
  case (Cons x xs)
  then obtain t where "f x s = (Inr (), t)" "I xs t" using assms(2) by blast
  with Cons.IH show ?case by fastforce
qed (simp add: ok_def)

text \<open>
  A successful loop over distinct keys, each step of which rewrites the entry of its own key in a
  table, rewrites every listed entry once: the order of the keys does not matter.
\<close>

lemma for_each_table:
  fixes tab :: "'s \<Rightarrow> 'k \<Rightarrow> 'v"
  assumes "for_each f xs s = (Inr (), t)" and "distinct xs"
    and "\<And>x u v. x \<in> set xs \<Longrightarrow> f x u = (Inr (), v) \<Longrightarrow>
           tab v = (tab u)(x := g x (tab u x))"
  shows "tab t k = (if k \<in> set xs then g k (tab s k) else tab s k)"
  using assms
proof (induction xs arbitrary: s)
  case (Cons x xs)
  then obtain u where u: "f x s = (Inr (), u)" "for_each f xs u = (Inr (), t)"
    by (auto simp: and_then_Inr)
  have "tab u = (tab s)(x := g x (tab s x))" using u(1) by (intro Cons.prems(3)) simp_all
  moreover have "tab t k = (if k \<in> set xs then g k (tab u k) else tab u k)"
    using Cons.IH [OF u(2)] Cons.prems(2,3) by simp
  ultimately show ?case using Cons.prems(2) by auto
qed (simp add: ok_def)

section \<open>Loops in any order\<close>

text \<open>
  Loops whose steps can be exchanged. \<open>simulates E f\<close>: a successful step from a state succeeds from every
  equivalent state, with an equivalent result. \<open>exchanges I E f g\<close>: two steps from a state of the invariant
  \<open>I\<close> can be taken the other way round.
\<close>

definition simulates :: "('s \<Rightarrow> 's \<Rightarrow> bool) \<Rightarrow> ('s, 'e, unit) op \<Rightarrow> bool" where
  "simulates E f \<longleftrightarrow> (\<forall>s t u. E s t \<longrightarrow> f s = (Inr (), u) \<longrightarrow> (\<exists>v. f t = (Inr (), v) \<and> E u v))"

definition exchanges ::
  "('s \<Rightarrow> bool) \<Rightarrow> ('s \<Rightarrow> 's \<Rightarrow> bool) \<Rightarrow> ('s, 'e, unit) op \<Rightarrow> ('s, 'e, unit) op \<Rightarrow> bool" where
  "exchanges I E f g \<longleftrightarrow>
     (\<forall>s u v. I s \<longrightarrow> f s = (Inr (), u) \<longrightarrow> g u = (Inr (), v) \<longrightarrow>
        (\<exists>u' v'. g s = (Inr (), u') \<and> f u' = (Inr (), v') \<and> E v v'))"

lemma simulatesD:
  "simulates E f \<Longrightarrow> E s t \<Longrightarrow> f s = (Inr (), u) \<Longrightarrow> \<exists>v. f t = (Inr (), v) \<and> E u v"
  by (auto simp: simulates_def)

lemma simulates_ok: "simulates E (ok ())"
  by (simp add: simulates_def ok_def)

lemma simulates_for_each: "(\<And>x. x \<in> set xs \<Longrightarrow> simulates E (f x)) \<Longrightarrow> simulates E (for_each f xs)"
proof (induction xs)
  case Nil
  show ?case using simulates_ok by simp
next
  case (Cons x xs)
  have x: "simulates E (f x)" and xs: "simulates E (for_each f xs)" using Cons by simp_all
  show ?case unfolding simulates_def
  proof (intro allI impI)
    fix s t u assume st: "E s t" and run: "for_each f (x # xs) s = (Inr (), u)"
    then obtain m where m: "f x s = (Inr (), m)" "for_each f xs m = (Inr (), u)"
      by (auto simp: and_then_Inr)
    then obtain m' where m': "f x t = (Inr (), m')" "E m m'" using simulatesD [OF x st] by blast
    with simulatesD [OF xs m'(2) m(2)] show "\<exists>v. for_each f (x # xs) t = (Inr (), v) \<and> E u v"
      by (auto simp: and_then_def)
  qed
qed

lemma for_each_to_front:
  assumes E: "transp E" "reflp E" and sim: "\<And>y. simulates E (f y)"
    and ex: "\<And>y. y \<noteq> x \<Longrightarrow> exchanges I E (f y) (f x)"
    and inv: "\<And>y s u. I s \<Longrightarrow> f y s = (Inr (), u) \<Longrightarrow> I u"
    and "x \<in> set xs" and "distinct xs" and "I s" and "for_each f xs s = (Inr (), t)"
  shows "\<exists>t'. for_each f (x # remove1 x xs) s = (Inr (), t') \<and> E t t'"
  using assms(6-)
proof (induction xs arbitrary: s)
  case (Cons y ys)
  show ?case
  proof (cases "y = x")
    case True
    with Cons.prems show ?thesis using reflpD [OF E(2)] by auto
  next
    case False
    obtain u where u: "f y s = (Inr (), u)" "for_each f ys u = (Inr (), t)"
      using Cons.prems(4) by (auto simp: and_then_Inr)
    with Cons.IH [of u] inv [OF Cons.prems(3)] Cons.prems False obtain t1 where t1:
      "for_each f (x # remove1 x ys) u = (Inr (), t1)" "E t t1" by auto
    then obtain v where v: "f x u = (Inr (), v)" "for_each f (remove1 x ys) v = (Inr (), t1)"
      by (auto simp: and_then_Inr)
    then obtain u' v' where w: "f x s = (Inr (), u')" "f y u' = (Inr (), v')" "E v v'"
      using ex [OF False] u(1) Cons.prems(3) unfolding exchanges_def by blast
    obtain t2 where t2: "for_each f (remove1 x ys) v' = (Inr (), t2)" "E t1 t2"
      using simulatesD [OF simulates_for_each [of _ E f, OF sim] w(3) v(2)] by blast
    have "for_each f (x # remove1 x (y # ys)) s = (Inr (), t2)"
      using w t2(1) False by (simp add: and_then_def)
    moreover have "E t t2" using t1(2) t2(2) E(1) by (meson transpD)
    ultimately show ?thesis by blast
  qed
qed simp

text \<open>A loop over keys whose steps can be exchanged may visit them in any order.\<close>

lemma for_each_any_order:
  assumes E: "transp E" "reflp E" and sim: "\<And>y. simulates E (f y)"
    and ex: "\<And>x y. y \<noteq> x \<Longrightarrow> exchanges I E (f y) (f x)"
    and inv: "\<And>y s u. I s \<Longrightarrow> f y s = (Inr (), u) \<Longrightarrow> I u"
    and "set ys = set xs" and "distinct xs" and "distinct ys" and "E s s'" and "I s" and "for_each f xs s = (Inr (), t)"
  shows "\<exists>t'. for_each f ys s' = (Inr (), t') \<and> E t t'"
  using assms(6-)
proof (induction ys arbitrary: xs s s' t)
  case Nil
  then show ?case by (auto simp: ok_def)
next
  case (Cons y ys)
  then have y: "y \<in> set xs" by auto
  obtain t1 where t1: "for_each f (y # remove1 y xs) s = (Inr (), t1)" "E t t1"
    using for_each_to_front [where I = I, OF E sim ex _ y Cons.prems(2,5,6)] inv by blast
  then obtain u where u: "f y s = (Inr (), u)" "for_each f (remove1 y xs) u = (Inr (), t1)"
    by (auto simp: and_then_Inr)
  obtain u' where u': "f y s' = (Inr (), u')" "E u u'"
    using simulatesD [OF sim Cons.prems(4) u(1)] by blast
  have "set ys = set (remove1 y xs)" "distinct (remove1 y xs)" "distinct ys"
    using Cons.prems by auto
  from Cons.IH [OF this u'(2) inv [OF Cons.prems(5) u(1)] u(2)] obtain t2 where t2: "for_each f ys u' = (Inr (), t2)" "E t1 t2" by blast
  then have "for_each f (y # ys) s' = (Inr (), t2)" using u'(1) by (simp add: and_then_def)
  moreover have "E t t2" using t1(2) t2(2) E(1) by (meson transpD)
  ultimately show ?case by blast
qed

lemma for_each_invariant:
  assumes "\<And>x s t. I s \<Longrightarrow> f x s = (Inr (), t) \<Longrightarrow> I t"
  shows "I s \<Longrightarrow> for_each f xs s = (Inr (), t) \<Longrightarrow> I t"
  by (induction xs arbitrary: s) (auto simp: and_then_Inr ok_def dest: assms)

section \<open>A relational logic for operations\<close>

text \<open>
  \<open>keeps R m\<close>: whatever \<open>m\<close> returns, its final state is related to its initial one by \<open>R\<close>. The
  locale states what a relation must satisfy for the rules; the components interpret it with
  their frame relations (what an operation leaves alone) and extension orders (what only grows).
\<close>

definition keeps :: "('s \<Rightarrow> 's \<Rightarrow> bool) \<Rightarrow> ('s, 'e, 'a) op \<Rightarrow> bool" where
  "keeps R m \<longleftrightarrow> (\<forall>s. R s (snd (m s)))"

lemma keepsD: "keeps R m \<Longrightarrow> m s = (r, s') \<Longrightarrow> R s s'"
  by (auto simp: keeps_def dest!: spec [of _ s])

lemma keeps_snd: "keeps R m \<Longrightarrow> R s (snd (m s))"
  by (simp add: keeps_def)

lemma keepsI: "(\<And>s r s'. m s = (r, s') \<Longrightarrow> R s s') \<Longrightarrow> keeps R m"
  unfolding keeps_def by (metis prod.collapse)

locale frame =
  fixes R :: "'s \<Rightarrow> 's \<Rightarrow> bool"
  assumes frame_refl: "R s s"
    and frame_trans: "R s t \<Longrightarrow> R t u \<Longrightarrow> R s u"
begin

lemma keeps_ok: "keeps R (ok x)"
  by (simp add: keeps_def ok_def frame_refl)

lemma keeps_fail: "keeps R (fail e)"
  by (simp add: keeps_def fail_def frame_refl)

lemma keeps_ok_or: "keeps R (ok_or r e)"
  by (cases r) (simp_all add: ok_or_def keeps_ok keeps_fail)

lemma keeps_gets: "keeps R (gets f)"
  by (simp add: keeps_def gets_def frame_refl)

lemma keeps_require: "keeps R (require b e)"
  by (simp add: require_def keeps_ok keeps_fail)

lemma keeps_modify: "(\<And>s. R s (f s)) \<Longrightarrow> keeps R (modify f)"
  by (simp add: keeps_def modify_def)

lemma keeps_and_then:
  assumes "keeps R m" and "\<And>x. keeps R (f x)"
  shows "keeps R (and_then m f)"
proof (rule keepsI)
  fix s r s' assume "and_then m f s = (r, s')"
  then show "R s s'"
    using assms by (cases r) (auto simp: op_elims dest: keepsD intro: frame_trans)
qed

lemma keeps_attempt:
  assumes "keeps R m" and "\<And>x. keeps R (f x)"
  shows "keeps R (attempt m f)"
proof (rule keepsI)
  fix s r s' assume "attempt m f s = (r, s')"
  then show "R s s'"
    using assms by (auto simp: attempt_def split: prod.splits dest: keepsD intro: frame_trans)
qed

lemma keeps_for_each: "(\<And>x. keeps R (f x)) \<Longrightarrow> keeps R (for_each f xs)"
  by (induction xs) (auto intro: keeps_ok keeps_and_then)

lemma keeps_if: "keeps R m \<Longrightarrow> keeps R n \<Longrightarrow> keeps R (if b then m else n)"
  by simp

lemma keeps_option:
  "keeps R m \<Longrightarrow> (\<And>x. keeps R (f x)) \<Longrightarrow> keeps R (case r of None \<Rightarrow> m | Some x \<Rightarrow> f x)"
  by (cases r) simp_all

lemma keeps_sum:
  "(\<And>e. keeps R (g e)) \<Longrightarrow> (\<And>x. keeps R (f x)) \<Longrightarrow>
     keeps R (case r of Inl e \<Rightarrow> g e | Inr x \<Rightarrow> f x)"
  by (cases r) simp_all

lemmas keeps_rules =
  keeps_ok keeps_fail keeps_ok_or keeps_gets keeps_require keeps_and_then keeps_attempt
  keeps_for_each keeps_if keeps_option keeps_sum

end

section \<open>Observations\<close>

text \<open>
  An operation on a concrete state seen through an abstraction \<open>ab\<close>: \<open>obs\<close> is its result with
  the abstraction of its final state, \<open>transparent\<close> says that they depend on the abstraction of the
  initial state alone, \<open>reads\<close> and \<open>writes\<close> that the operation is a read or a write of the
  abstract state.
\<close>

definition obs :: "('s \<Rightarrow> 'l) \<Rightarrow> ('s, 'e, 'a) op \<Rightarrow> 's \<Rightarrow> ('e + 'a) \<times> 'l" where
  "obs ab m s = (fst (m s), ab (snd (m s)))"

definition transparent :: "('s \<Rightarrow> 'l) \<Rightarrow> ('s, 'e, 'a) op \<Rightarrow> bool" where
  "transparent ab m \<longleftrightarrow> (\<forall>s t. ab s = ab t \<longrightarrow> obs ab m s = obs ab m t)"

definition reads :: "('s \<Rightarrow> 'l) \<Rightarrow> ('l \<Rightarrow> 'e + 'a) \<Rightarrow> ('s, 'e, 'a) op \<Rightarrow> bool" where
  "reads ab r m \<longleftrightarrow> (\<forall>s. obs ab m s = (r (ab s), ab s))"

definition writes :: "('s \<Rightarrow> 'l) \<Rightarrow> ('l \<Rightarrow> 'l) \<Rightarrow> ('s, 'e, unit) op \<Rightarrow> bool" where
  "writes ab w m \<longleftrightarrow> (\<forall>s. obs ab m s = (Inr (), w (ab s)))"

lemma transparentI:
  "(\<And>s t. ab s = ab t \<Longrightarrow> obs ab m s = obs ab m t) \<Longrightarrow> transparent ab m"
  unfolding transparent_def by blast

lemma transparentD: "transparent ab m \<Longrightarrow> ab s = ab t \<Longrightarrow> obs ab m s = obs ab m t"
  unfolding transparent_def by blast

lemma obs_fst: "obs ab m s = (r, l) \<Longrightarrow> fst (m s) = r"
  and obs_snd: "obs ab m s = (r, l) \<Longrightarrow> ab (snd (m s)) = l"
  by (simp_all add: obs_def)

lemma obs_run: "m s = (r, t) \<Longrightarrow> obs ab m s = (r, ab t)"
  by (simp add: obs_def)

lemma reads_transparent: "reads ab r m \<Longrightarrow> transparent ab m"
  by (simp add: reads_def transparent_def)

lemma writes_transparent: "writes ab w m \<Longrightarrow> transparent ab m"
  by (simp add: writes_def transparent_def)

lemma obs_ok [simp]: "obs ab (ok x) s = (Inr x, ab s)"
  and obs_fail [simp]: "obs ab (fail e) s = (Inl e, ab s)"
  and obs_require [simp]: "obs ab (require b e) s = (if b then Inr () else Inl e, ab s)"
  and obs_ok_or [simp]: "obs ab (ok_or r e) s = (case r of None \<Rightarrow> Inl e | Some x \<Rightarrow> Inr x, ab s)"
  by (simp_all add: obs_def op_simps split: option.splits)

lemma obs_if [obs_simps]: "obs ab (if b then m else n) s = (if b then obs ab m s else obs ab n s)"
  by simp

lemma obs_and_then:
  "obs ab (and_then m f) s =
     (case fst (m s) of Inl e \<Rightarrow> (Inl e, ab (snd (m s))) | Inr x \<Rightarrow> obs ab (f x) (snd (m s)))"
  by (simp add: obs_def and_then_def split: prod.splits sum.splits)

lemma obs_and_then_read:
  assumes "reads ab r m" and "\<And>x. transparent ab (f x)"
  shows "obs ab (and_then m f) s =
           (case r (ab s) of Inl e \<Rightarrow> (Inl e, ab s) | Inr x \<Rightarrow> obs ab (f x) s)"
proof -
  have m: "fst (m s) = r (ab s)" "ab (snd (m s)) = ab s"
    using assms(1) by (simp_all add: reads_def obs_def)
  then have "obs ab (f x) (snd (m s)) = obs ab (f x) s" for x
    by (intro transparentD [OF assms(2)])
  with m show ?thesis by (simp add: obs_and_then split: sum.splits)
qed

lemma obs_attempt_read:
  assumes "reads ab r m" and "\<And>x. transparent ab (f x)"
  shows "obs ab (attempt m f) s = obs ab (f (r (ab s))) s"
proof -
  have m: "fst (m s) = r (ab s)" "ab (snd (m s)) = ab s"
    using assms(1) by (simp_all add: reads_def obs_def)
  have "obs ab (attempt m f) s = obs ab (f (fst (m s))) (snd (m s))"
    by (simp add: obs_def attempt_def split: prod.splits)
  with m transparentD [OF assms(2), of "snd (m s)" s] show ?thesis by simp
qed

lemma obs_and_then_ok_or [obs_simps]:
  "obs ab (and_then (ok_or r e) f) s =
     (case r of None \<Rightarrow> (Inl e, ab s) | Some x \<Rightarrow> obs ab (f x) s)"
  by (simp add: obs_and_then op_simps split: option.splits)

lemma obs_and_then_write:
  assumes "writes ab w m"
  shows "obs ab (and_then m f) s = obs ab (f ()) (snd (m s))"
    and "ab (snd (m s)) = w (ab s)"
proof -
  have m: "fst (m s) = Inr ()" "ab (snd (m s)) = w (ab s)"
    using assms by (simp_all add: writes_def obs_def)
  then show "obs ab (and_then m f) s = obs ab (f ()) (snd (m s))"
    by (simp add: obs_and_then)
  show "ab (snd (m s)) = w (ab s)" by (rule m)
qed

lemma transparent_ok: "transparent ab (ok x)"
  and transparent_fail: "transparent ab (fail e)"
  and transparent_ok_or: "transparent ab (ok_or r e)"
  and transparent_require: "transparent ab (require b e)"
  by (simp_all add: transparent_def)

lemma transparent_and_then:
  assumes "transparent ab m" and "\<And>x. transparent ab (f x)"
  shows "transparent ab (and_then m f)"
proof (rule transparentI)
  fix s t assume "ab s = ab t"
  then have "obs ab m s = obs ab m t" by (rule transparentD [OF assms(1)])
  then have "fst (m s) = fst (m t)" "ab (snd (m s)) = ab (snd (m t))"
    by (simp_all add: obs_def)
  then show "obs ab (and_then m f) s = obs ab (and_then m f) t"
    by (auto simp: obs_and_then split: sum.splits intro: transparentD [OF assms(2)])
qed

lemma transparent_attempt:
  assumes "transparent ab m" and "\<And>x. transparent ab (f x)"
  shows "transparent ab (attempt m f)"
proof (rule transparentI)
  fix s t assume "ab s = ab t"
  then have "obs ab m s = obs ab m t" by (rule transparentD [OF assms(1)])
  then have "fst (m s) = fst (m t)" "ab (snd (m s)) = ab (snd (m t))"
    by (simp_all add: obs_def)
  moreover have "obs ab (attempt m f) u = obs ab (f (fst (m u))) (snd (m u))" for u
    by (simp add: obs_def attempt_def split: prod.splits)
  ultimately show "obs ab (attempt m f) s = obs ab (attempt m f) t"
    by (metis transparentD [OF assms(2)])
qed

lemma transparent_if: "transparent ab m \<Longrightarrow> transparent ab n \<Longrightarrow> transparent ab (if b then m else n)"
  by simp

lemma transparent_option:
  "transparent ab m \<Longrightarrow> (\<And>x. transparent ab (f x)) \<Longrightarrow>
     transparent ab (case r of None \<Rightarrow> m | Some x \<Rightarrow> f x)"
  by (cases r) simp_all

lemma transparent_sum:
  "(\<And>e. transparent ab (g e)) \<Longrightarrow> (\<And>x. transparent ab (f x)) \<Longrightarrow>
     transparent ab (case r of Inl e \<Rightarrow> g e | Inr x \<Rightarrow> f x)"
  by (cases r) simp_all

lemma transparent_prod:
  "(\<And>x y. transparent ab (f x y)) \<Longrightarrow> transparent ab (case r of (x, y) \<Rightarrow> f x y)"
  by (cases r) simp

lemmas transparent_rules =
  transparent_prod transparent_ok transparent_fail transparent_ok_or transparent_require transparent_and_then transparent_attempt
  transparent_if transparent_option transparent_sum

section \<open>Overlay stores\<close>

text \<open>
  The contract between a caching state and its users. A read returns what the abstract state
  holds under the key and leaves the abstract state alone, whether or not it filled the cache; a
  write changes exactly one key.
\<close>

locale overlay_read =
  fixes ab :: "'s \<Rightarrow> 'l"
    and look :: "'l \<Rightarrow> 'k \<Rightarrow> 'e + 'v"
    and get :: "'k \<Rightarrow> ('s, 'e, 'v) op"
  assumes get_reads: "reads ab (\<lambda>l. look l k) (get k)"
begin

lemma get_obs: "obs ab (get k) s = (look (ab s) k, ab s)"
  using get_reads by (simp add: reads_def)

lemma get_run:
  obtains t where "get k s = (look (ab s) k, t)" and "ab t = ab s"
  using get_obs [of k s] that [of "snd (get k s)"] by (simp add: obs_def prod_eq_iff)

lemma get_result: "get k s = (r, t) \<Longrightarrow> r = look (ab s) k \<and> ab t = ab s"
  using get_obs [of k s] by (simp add: obs_def)

lemma get_again: "get k s = (r, t) \<Longrightarrow> fst (get k t) = r"
  using get_obs [of k t] get_result [of k s r t] by (simp add: obs_def)

lemma get_transparent: "transparent ab (get k)"
  by (rule reads_transparent [OF get_reads])

lemmas get_and_then = obs_and_then_read [OF get_reads]
lemmas get_attempt = obs_attempt_read [OF get_reads]

end

locale overlay_store = overlay_read ab look get
  for ab :: "'s \<Rightarrow> 'l" and look :: "'l \<Rightarrow> 'k \<Rightarrow> 'e + 'v" and get :: "'k \<Rightarrow> ('s, 'e, 'v) op" +
  fixes set_at :: "'k \<Rightarrow> 'v \<Rightarrow> 'l \<Rightarrow> 'l"
    and put :: "'w \<Rightarrow> ('s, 'e, unit) op"
    and key :: "'w \<Rightarrow> 'k"
    and val :: "'w \<Rightarrow> 'v"
  assumes put_writes: "writes ab (set_at (key w) (val w)) (put w)"
    and look_set_same: "look (set_at k v l) k = Inr v"
    and look_set_other: "j \<noteq> k \<Longrightarrow> look (set_at k v l) j = look l j"
begin

lemma put_obs: "obs ab (put w) s = (Inr (), set_at (key w) (val w) (ab s))"
  using put_writes by (simp add: writes_def)

lemma put_run:
  obtains t where "put w s = (Inr (), t)" and "ab t = set_at (key w) (val w) (ab s)"
  using put_obs [of w s] that [of "snd (put w s)"] by (simp add: obs_def prod_eq_iff)

lemma put_snd: "ab (snd (put w s)) = set_at (key w) (val w) (ab s)"
  using put_obs [of w s] by (simp add: obs_def)

lemma put_transparent: "transparent ab (put w)"
  by (rule writes_transparent [OF put_writes])

lemmas put_and_then = obs_and_then_write(1) [OF put_writes]

lemma get_after_put: "fst (get (key w) (snd (put w s))) = Inr (val w)"
  using get_obs [of "key w" "snd (put w s)"] by (simp add: obs_def put_snd look_set_same)

lemma get_after_put_other: "k \<noteq> key w \<Longrightarrow> fst (get k (snd (put w s))) = fst (get k s)"
  using get_obs [of k "snd (put w s)"] get_obs [of k s]
  by (simp add: obs_def put_snd look_set_other)

end

end
