(* ===== verification/L1X_System.thy ===== *)
theory L1X_System
  imports L1X_Prelude
begin

text \<open>
  The data model of the node: accounts, contracts, staking pools, events, transactions, blocks
  and votes (\<^verbatim>\<open>system/src\<close>), the compile-time constants (\<^verbatim>\<open>compile_time_config/src/lib.rs\<close>), the
  derivation of addresses, the payloads that transaction signatures cover, and the conversions
  between the transaction formats.

  Third-party libraries (hashing, secp256k1, serde, bincode, the Ethereum transaction codec) are
  the fields of the record \<open>ext\<close>, an argument of every definition that uses one of them.
\<close>

section \<open>Errors\<close>

text \<open>
  The \<^verbatim>\<open>anyhow\<close> errors of the code, one constructor per message; \<open>Panic\<close> stands for an
  \<^verbatim>\<open>unwrap\<close>, an index out of range or an explicit \<^verbatim>\<open>panic!\<close>.
\<close>

datatype error =
    Panic
  | DbError string
  | AccountRemoved address
  | NonceOverflow address nonce
  | MintOverflow address balance balance
  | TransferInsufficient address balance balance
  | TransferOverflow address balance balance
  | AddressCollision address
  | ContractRemoved address
  | ContractInstanceRemoved address
  | StakingPoolRemoved address
  | BelowMinStake balance balance
  | AboveMaxStake balance balance
  | MaxPoolBalance balance balance balance
  | StakeOverflow address balance balance
  | UnstakeInsufficient address balance balance
  | ShouldNeverHappen string
  | FeeLimitReached
  | LockedFeeOverflow
  | InsufficientFeeLimit
  | FeeOverflow
  | InvalidContractType "8 word"
  | InvalidAccessType "8 word"
  | InvalidPublicKey
  | InvalidKeyLength
  | InvalidSignatureLength
  | SignatureNotValid
  | InvalidSignatureBytes
  | EthDecodeError
  | NotLegacy
  | EthValueTooLarge
  | BadV
  | BadRS
  | BadSignature
  | GasLimitOverflow
  | SerializeError
  | BalanceOverflow
  | UnknownBlockType int
  | Failed string
  | FailedWith string error

section \<open>Compile-time configuration\<close>

definition GAS_PRICE :: balance where
  "GAS_PRICE = 7000"

definition EVM_GAS_PRICE :: balance where
  "EVM_GAS_PRICE = 7000"

definition BLOCK_VERSION :: "32 word" where
  "BLOCK_VERSION = 5"

definition SLOTS_PER_EPOCH :: block_number where
  "SLOTS_PER_EPOCH = 100"

definition SYSTEM_CONTRACTS_OWNER :: address where
  "SYSTEM_CONTRACTS_OWNER = 0xff00000000000000000000000000000000000000"

definition SYSTEM_REWARDS_DISTRIBUTOR :: address where
  "SYSTEM_REWARDS_DISTRIBUTOR = 0xff00000000000000000000000000000000000001"

definition MINT_MASTER_ADDRESS :: address where
  "MINT_MASTER_ADDRESS = 0xbd9641b7a6c7fd137dd75da9a129965754c5620a"

definition FEE_RECIPIENT_MASTER_ADDRESS :: address where
  "FEE_RECIPIENT_MASTER_ADDRESS = 0xf1bac54594b120f468108652e7669791f3e7aaf1"

section \<open>Accounts, contracts, staking, events\<close>

datatype account_type = System | User

record account =
  acc_address :: address
  acc_balance :: balance
  acc_nonce :: nonce
  acc_type :: account_type

definition account_new :: "address \<Rightarrow> account" where
  "account_new a = \<lparr>acc_address = a, acc_balance = 0, acc_nonce = 0, acc_type = User\<rparr>"

definition account_new_system :: "address \<Rightarrow> account" where
  "account_new_system a = \<lparr>acc_address = a, acc_balance = 0, acc_nonce = 0, acc_type = System\<rparr>"

datatype contract_type = L1XVM | EVM | XTALK

fun contract_type_to_i8 :: "contract_type \<Rightarrow> 8 word" where
  "contract_type_to_i8 L1XVM = 0"
| "contract_type_to_i8 EVM = 1"
| "contract_type_to_i8 XTALK = 2"

definition contract_type_try_from :: "8 word \<Rightarrow> error + contract_type" where
  "contract_type_try_from v =
     (if v = 0 then Inr L1XVM else if v = 1 then Inr EVM else if v = 2 then Inr XTALK
      else Inl (InvalidContractType v))"

datatype access_type = PRIVATE | PUBLIC | RESTICTED

definition access_type_try_from :: "8 word \<Rightarrow> error + access_type" where
  "access_type_try_from v =
     (if v = 0 then Inr PRIVATE else if v = 1 then Inr PUBLIC else if v = 2 then Inr RESTICTED
      else Inl (InvalidAccessType v))"

fun access_type_to_i8 :: "access_type \<Rightarrow> 8 word" where
  "access_type_to_i8 PRIVATE = 0"
| "access_type_to_i8 PUBLIC = 1"
| "access_type_to_i8 RESTICTED = 2"

record contract =
  con_address :: address
  con_access :: "8 word"
  con_type :: "8 word"
  con_code :: bytes
  con_owner :: address

record contract_instance =
  ci_instance_address :: address
  ci_contract_address :: address
  ci_owner_address :: address

record staking_pool =
  sp_pool_address :: address
  sp_pool_owner :: address
  sp_contract_instance_address :: "address option"
  sp_cluster_address :: address
  sp_created_block_number :: block_number
  sp_updated_block_number :: block_number
  sp_min_stake :: "balance option"
  sp_max_stake :: "balance option"
  sp_min_pool_balance :: "balance option"
  sp_max_pool_balance :: "balance option"
  sp_staking_period :: "block_number option"

definition staking_pool_new ::
  "address \<Rightarrow> address \<Rightarrow> address option \<Rightarrow> address \<Rightarrow> block_number \<Rightarrow> balance option \<Rightarrow>
   balance option \<Rightarrow> balance option \<Rightarrow> balance option \<Rightarrow> block_number option \<Rightarrow> staking_pool" where
  "staking_pool_new pool owner ci cluster created min_s max_s min_p max_p period =
     \<lparr>sp_pool_address = pool, sp_pool_owner = owner, sp_contract_instance_address = ci,
      sp_cluster_address = cluster, sp_created_block_number = created,
      sp_updated_block_number = created, sp_min_stake = min_s, sp_max_stake = max_s,
      sp_min_pool_balance = min_p, sp_max_pool_balance = max_p, sp_staking_period = period\<rparr>"

record staking_account =
  sa_account_address :: address
  sa_pool_address :: address
  sa_balance :: balance

definition staking_account_new :: "address \<Rightarrow> address \<Rightarrow> staking_account" where
  "staking_account_new a p = \<lparr>sa_account_address = a, sa_pool_address = p, sa_balance = 0\<rparr>"

record event =
  ev_transaction_hash :: transaction_hash
  ev_data :: bytes
  ev_block_number :: block_number
  ev_type :: "8 word"
  ev_contract_address :: address
  ev_topics :: "256 word list option"

section \<open>Transactions\<close>

datatype transaction_version = V1 | V2 | V3

datatype transaction_type =
    NativeTokenTransfer address balance
  | SmartContractDeployment access_type contract_type bytes balance bytes
      \<comment> \<open>access\_type, contract\_type, contract\_code, deposit, salt\<close>
  | SmartContractInit address bytes balance
      \<comment> \<open>contract\_code\_address, arguments, deposit\<close>
  | SmartContractFunctionCall address bytes bytes balance
      \<comment> \<open>contract\_instance\_address, function, arguments, deposit\<close>
  | CreateStakingPool "address option" "balance option" "balance option" "balance option"
      "balance option" "block_number option"
  | Stake address balance
  | UnStake address balance
  | StakingPoolContract address address
      \<comment> \<open>pool\_address, contract\_instance\_address\<close>

record transaction =
  tx_version :: transaction_version
  tx_nonce :: nonce
  tx_type :: transaction_type
  tx_fee_limit :: balance
  tx_signature :: bytes
  tx_verifying_key :: bytes
  tx_eth_original :: "bytes option"

record transaction_result =
  tr_event :: "bytes option"
  tr_fee :: balance
  tr_gas_burnt :: gas
  tr_is_success :: bool
  tr_error :: "error option"

record transaction_metadata =
  tm_transaction_hash :: transaction_hash
  tm_fee :: balance
  tm_burnt_gas :: gas
  tm_is_successful :: bool

text \<open>The older formats, and their conversion into \<^verbatim>\<open>Transaction\<close>.\<close>

datatype transaction_type_v1 =
    V1NativeTokenTransfer address balance
  | V1SmartContractDeployment access_type contract_type bytes balance bytes
  | V1SmartContractInit address bytes
  | V1SmartContractFunctionCall address bytes bytes
  | V1CreateStakingPool "address option" "balance option" "balance option" "balance option"
      "balance option" "block_number option"
  | V1Stake address balance
  | V1UnStake address balance
  | V1StakingPoolContract address address

record transaction_v1 =
  t1_nonce :: nonce
  t1_type :: transaction_type
  t1_fee_limit :: balance
  t1_signature :: bytes
  t1_verifying_key :: bytes

record transaction_v2 =
  t2_nonce :: nonce
  t2_type :: transaction_type_v1
  t2_fee_limit :: balance
  t2_signature :: bytes
  t2_verifying_key :: bytes

definition transaction_from_v1 :: "transaction_v1 \<Rightarrow> transaction" where
  "transaction_from_v1 v =
     \<lparr>tx_version = V1, tx_nonce = t1_nonce v, tx_type = t1_type v, tx_fee_limit = t1_fee_limit v,
      tx_signature = t1_signature v, tx_verifying_key = t1_verifying_key v,
      tx_eth_original = None\<rparr>"

fun transaction_type_from_v1 :: "transaction_type_v1 \<Rightarrow> transaction_type" where
  "transaction_type_from_v1 (V1NativeTokenTransfer a b) = NativeTokenTransfer a b"
| "transaction_type_from_v1 (V1SmartContractDeployment acc ct code val salt) =
     SmartContractDeployment acc ct code val salt"
| "transaction_type_from_v1 (V1SmartContractInit a args) = SmartContractInit a args 0"
| "transaction_type_from_v1 (V1SmartContractFunctionCall a f args) =
     SmartContractFunctionCall a f args 0"
| "transaction_type_from_v1 (V1CreateStakingPool ci mns mxs mnp mxp per) =
     CreateStakingPool ci mns mxs mnp mxp per"
| "transaction_type_from_v1 (V1Stake p a) = Stake p a"
| "transaction_type_from_v1 (V1UnStake p a) = UnStake p a"
| "transaction_type_from_v1 (V1StakingPoolContract p c) = StakingPoolContract p c"

definition transaction_from_v2 :: "transaction_v2 \<Rightarrow> transaction" where
  "transaction_from_v2 v =
     \<lparr>tx_version = V2, tx_nonce = t2_nonce v, tx_type = transaction_type_from_v1 (t2_type v),
      tx_fee_limit = t2_fee_limit v, tx_signature = t2_signature v,
      tx_verifying_key = t2_verifying_key v, tx_eth_original = None\<rparr>"

section \<open>Signed payloads\<close>

text \<open>\<^verbatim>\<open>u128::to_string\<close>: decimal digits, most significant first.\<close>

fun dec_digits :: "nat \<Rightarrow> string" where
  "dec_digits n =
     (if n < 10 then [char_of (48 + n)] else dec_digits (n div 10) @ [char_of (48 + n mod 10)])"

declare dec_digits.simps [simp del]

definition to_string :: "'a::len word \<Rightarrow> string" where
  "to_string w = dec_digits (unat w)"

datatype tx_type_v1_sign_payload =
    P1NativeTokenTransfer address string
  | P1SmartContractDeployment access_type contract_type bytes balance bytes
  | P1SmartContractInit address bytes
  | P1SmartContractFunctionCall address bytes bytes
  | P1CreateStakingPool "address option" "balance option" "balance option" "balance option"
      "balance option" "block_number option"
  | P1Stake address balance
  | P1UnStake address balance
  | P1StakingPoolContract address address

fun to_v1_sign_payload :: "transaction_type \<Rightarrow> tx_type_v1_sign_payload" where
  "to_v1_sign_payload (NativeTokenTransfer a b) = P1NativeTokenTransfer a (to_string b)"
| "to_v1_sign_payload (SmartContractDeployment acc ct code deposit salt) =
     P1SmartContractDeployment acc ct code deposit salt"
| "to_v1_sign_payload (SmartContractFunctionCall ci f args _) =
     P1SmartContractFunctionCall ci f args"
| "to_v1_sign_payload (SmartContractInit a args _) = P1SmartContractInit a args"
| "to_v1_sign_payload (CreateStakingPool ci mns mxs mnp mxp per) =
     P1CreateStakingPool ci mns mxs mnp mxp per"
| "to_v1_sign_payload (Stake p a) = P1Stake p a"
| "to_v1_sign_payload (StakingPoolContract p c) = P1StakingPoolContract p c"
| "to_v1_sign_payload (UnStake p a) = P1UnStake p a"

datatype tx_type_v2_sign_payload =
    P2NativeTokenTransfer address string
  | P2SmartContractDeployment access_type contract_type bytes string bytes
  | P2SmartContractInit address bytes string
  | P2SmartContractFunctionCall address bytes bytes string
  | P2CreateStakingPool "address option" "balance option" "balance option" "balance option"
      "balance option" "block_number option"
  | P2Stake address balance
  | P2UnStake address balance
  | P2StakingPoolContract address address

fun to_v2_sign_payload :: "transaction_type \<Rightarrow> tx_type_v2_sign_payload" where
  "to_v2_sign_payload (NativeTokenTransfer a b) = P2NativeTokenTransfer a (to_string b)"
| "to_v2_sign_payload (SmartContractDeployment acc ct code deposit salt) =
     P2SmartContractDeployment acc ct code (to_string deposit) salt"
| "to_v2_sign_payload (SmartContractFunctionCall ci f args deposit) =
     P2SmartContractFunctionCall ci f args (to_string deposit)"
| "to_v2_sign_payload (SmartContractInit a args deposit) =
     P2SmartContractInit a args (to_string deposit)"
| "to_v2_sign_payload (CreateStakingPool ci mns mxs mnp mxp per) =
     P2CreateStakingPool ci mns mxs mnp mxp per"
| "to_v2_sign_payload (Stake p a) = P2Stake p a"
| "to_v2_sign_payload (StakingPoolContract p c) = P2StakingPoolContract p c"
| "to_v2_sign_payload (UnStake p a) = P2UnStake p a"

record tx_v1_sign_payload =
  p1_nonce :: nonce
  p1_transaction_type :: tx_type_v1_sign_payload
  p1_fee_limit :: balance

record tx_v3_sign_payload =
  p3_nonce :: string
  p3_transaction_type :: tx_type_v2_sign_payload
  p3_fee_limit :: string

section \<open>Blocks and votes\<close>

datatype block_type =
    L1XTokenBlock | L1XContractBlock | XTalkTokenBlock | XTalkContractBlock | SuperBlock
  | SystemBlock

fun block_type_to_i8 :: "block_type \<Rightarrow> int" where
  "block_type_to_i8 L1XTokenBlock = 0"
| "block_type_to_i8 L1XContractBlock = 1"
| "block_type_to_i8 XTalkTokenBlock = 2"
| "block_type_to_i8 XTalkContractBlock = 3"
| "block_type_to_i8 SuperBlock = 4"
| "block_type_to_i8 SystemBlock = 5"

definition block_type_try_from :: "int \<Rightarrow> error + block_type" where
  "block_type_try_from v =
     (if v = 0 then Inr L1XTokenBlock else if v = 1 then Inr L1XContractBlock
      else if v = 2 then Inr XTalkTokenBlock else if v = 3 then Inr XTalkContractBlock
      else if v = 4 then Inr SuperBlock else if v = 5 then Inr SystemBlock
      else Inl (UnknownBlockType v))"

record block_header =
  bh_block_number :: block_number
  bh_block_hash :: block_hash
  bh_parent_hash :: block_hash
  bh_block_type :: block_type
  bh_cluster_address :: address
  bh_timestamp :: block_timestamp
  bh_num_transactions :: "32 word"
  bh_epoch :: epoch
  bh_block_version :: "32 word"
  bh_state_hash :: block_hash

definition block_header_default :: block_header where
  "block_header_default =
     \<lparr>bh_block_number = 0, bh_block_hash = 0, bh_parent_hash = 0, bh_block_type = L1XTokenBlock,
      bh_cluster_address = 0, bh_timestamp = 0, bh_num_transactions = 0, bh_epoch = 0,
      bh_block_version = 0, bh_state_hash = 0\<rparr>"

record block =
  blk_header :: block_header
  blk_transactions :: "transaction list"

definition is_system_block :: "block \<Rightarrow> bool" where
  "is_system_block b \<longleftrightarrow> bh_block_type (blk_header b) = SystemBlock"

record block_payload =
  bp_block :: block
  bp_signature :: bytes
  bp_verifying_key :: bytes
  bp_sender :: address

record block_sign_payload =
  bsp_block_number :: block_number
  bsp_parent_hash :: block_hash
  bsp_block_type :: block_type
  bsp_cluster_address :: address
  bsp_transactions :: "transaction list"
  bsp_timestamp :: block_timestamp
  bsp_num_transactions :: "32 word"
  bsp_block_version :: "32 word"
  bsp_state_hash :: block_hash
  bsp_epoch :: epoch

definition block_sign_payload_from_block :: "block \<Rightarrow> block_sign_payload" where
  "block_sign_payload_from_block b =
     \<lparr>bsp_block_number = bh_block_number (blk_header b),
      bsp_parent_hash = bh_parent_hash (blk_header b),
      bsp_block_type = bh_block_type (blk_header b),
      bsp_cluster_address = bh_cluster_address (blk_header b),
      bsp_transactions = blk_transactions b,
      bsp_timestamp = bh_timestamp (blk_header b),
      bsp_num_transactions = bh_num_transactions (blk_header b),
      bsp_block_version = bh_block_version (blk_header b),
      bsp_state_hash = bh_state_hash (blk_header b),
      bsp_epoch = bh_epoch (blk_header b)\<rparr>"

definition block_sign_payload_from :: "block_payload \<Rightarrow> block_sign_payload" where
  "block_sign_payload_from p =
     \<lparr>bsp_block_number = bh_block_number (blk_header (bp_block p)),
      bsp_parent_hash = bh_parent_hash (blk_header (bp_block p)),
      bsp_block_type = bh_block_type (blk_header (bp_block p)),
      bsp_cluster_address = bh_cluster_address (blk_header (bp_block p)),
      bsp_transactions = blk_transactions (bp_block p),
      bsp_timestamp = bh_timestamp (blk_header (bp_block p)),
      bsp_num_transactions = bh_num_transactions (blk_header (bp_block p)),
      bsp_block_version = bh_block_version (blk_header (bp_block p)),
      bsp_state_hash = bh_state_hash (blk_header (bp_block p)),
      bsp_epoch = bh_epoch (blk_header (bp_block p))\<rparr>"

record vote_sign_payload =
  vsp_block_number :: block_number
  vsp_epoch :: epoch
  vsp_block_hash :: block_hash
  vsp_cluster_address :: address
  vsp_vote :: bool

record vote =
  vote_data :: vote_sign_payload
  vote_validator_address :: address
  vote_signature :: bytes
  vote_verifying_key :: bytes

record vote_result_sign_payload =
  vrp_block_number :: block_number
  vrp_block_hash :: block_hash
  vrp_cluster_address :: address
  vrp_vote_passed :: bool
  vrp_votes :: "vote list"

record vote_result =
  vr_data :: vote_result_sign_payload
  vr_validator_address :: address
  vr_signature :: bytes
  vr_verifying_key :: bytes

section \<open>Third-party libraries\<close>

datatype eth_action = EthCall address | EthCreate

record eth_legacy =
  el_nonce :: "256 word"
  el_gas_limit :: "256 word"
  el_action :: eth_action
  el_value :: "256 word"
  el_input :: bytes
  el_r :: "256 word"
  el_s :: "256 word"
  el_standard_v :: byte
  el_hash :: "256 word"
  el_message_hash :: "256 word"

datatype eth_tx = EthLegacy eth_legacy | EthOther

datatype signable =
    SignTxV1 tx_v1_sign_payload
  | SignTxV3 tx_v3_sign_payload
  | SignBlock block
  | SignVote vote_sign_payload
  | SignVoteResult vote_result_sign_payload

text \<open>
  \<^item> \<open>x_keccak256\<close>, \<open>x_sha256\<close>: the hash functions, their 32 bytes read as a big-endian word;
  \<^item> \<open>x_public_key\<close>: \<^verbatim>\<open>secp256k1::PublicKey::from_slice\<close>, a key given by its 65 uncompressed bytes;
  \<^item> \<open>x_signature\<close>: \<^verbatim>\<open>ecdsa::Signature::from_compact\<close>;
  \<^item> \<open>x_ecdsa_verify\<close>: \<^verbatim>\<open>Signature::verify\<close> of a message digest with a key;
  \<^item> \<open>x_json\<close>: \<^verbatim>\<open>serde_json::to_string\<close>; \<open>x_bincode_tx\<close>, \<open>x_bincode_block\<close>: \<^verbatim>\<open>bincode::serialize\<close>;
  \<^item> \<open>x_eth_decode\<close>: \<^verbatim>\<open>ethereum::EnvelopedDecodable::decode\<close>;
  \<^item> \<open>x_recoverable\<close>: \<^verbatim>\<open>RecoverableSignature::from_compact\<close> of \<open>r\<close>, \<open>s\<close> and a recovery id, given by its
    compact form; \<open>x_recover_ecdsa\<close>: \<^verbatim>\<open>recover_ecdsa\<close>, the compressed key or an error.
\<close>

record ext =
  x_keccak256 :: "bytes \<Rightarrow> 256 word"
  x_sha256 :: "bytes \<Rightarrow> 256 word"
  x_public_key :: "bytes \<Rightarrow> bytes option"
  x_signature :: "bytes \<Rightarrow> bytes option"
  x_ecdsa_verify :: "bytes \<Rightarrow> bytes \<Rightarrow> 256 word \<Rightarrow> bool"
  x_json :: "signable \<Rightarrow> bytes option"
  x_bincode_tx :: "transaction \<Rightarrow> bytes option"
  x_bincode_block :: "block_sign_payload \<Rightarrow> bytes option"
  x_eth_decode :: "bytes \<Rightarrow> eth_tx option"
  x_recoverable :: "256 word \<Rightarrow> 256 word \<Rightarrow> nat \<Rightarrow> bytes option"
  x_recover_ecdsa :: "256 word \<Rightarrow> bytes \<Rightarrow> nat \<Rightarrow> bytes option"

section \<open>Addresses\<close>

text \<open>The last 20 of the 32 bytes of a Keccak-256 digest.\<close>

definition address_of_hash :: "256 word \<Rightarrow> address" where
  "address_of_hash h = ucast h"

definition account_address :: "ext \<Rightarrow> bytes \<Rightarrow> error + address" where
  "account_address X key =
     (case x_public_key X key of
        Some uncompressed \<Rightarrow> Inr (address_of_hash (x_keccak256 X (drop 1 uncompressed)))
      | None \<Rightarrow>
          if key = be_bytes 20 SYSTEM_CONTRACTS_OWNER then Inr SYSTEM_CONTRACTS_OWNER
          else if key = be_bytes 20 SYSTEM_REWARDS_DISTRIBUTOR then Inr SYSTEM_REWARDS_DISTRIBUTOR
          else Inl InvalidPublicKey)"

definition contract_address :: "ext \<Rightarrow> address \<Rightarrow> address \<Rightarrow> nonce \<Rightarrow> address" where
  "contract_address X acc cluster n =
     address_of_hash (x_keccak256 X (be_bytes 20 acc @ be_bytes 20 cluster @ be_bytes 16 n))"

definition contract_instance_address ::
  "ext \<Rightarrow> address \<Rightarrow> address \<Rightarrow> address \<Rightarrow> nonce \<Rightarrow> address" where
  "contract_instance_address X acc con cluster n =
     address_of_hash (x_keccak256 X
       (be_bytes 20 acc @ be_bytes 20 con @ be_bytes 20 cluster @ be_bytes 16 n))"

definition pool_address :: "ext \<Rightarrow> address \<Rightarrow> address \<Rightarrow> nonce \<Rightarrow> address" where
  "pool_address X acc cluster n =
     address_of_hash (x_keccak256 X (be_bytes 20 acc @ be_bytes 20 cluster @ be_bytes 16 n))"

section \<open>Transaction operations\<close>

definition transaction_new_system ::
  "address \<Rightarrow> nonce \<Rightarrow> transaction_type \<Rightarrow> balance \<Rightarrow> transaction" where
  "transaction_new_system a n ty fee =
     \<lparr>tx_version = V3, tx_nonce = n, tx_type = ty, tx_fee_limit = fee, tx_signature = [],
      tx_verifying_key = be_bytes 20 a, tx_eth_original = None\<rparr>"

definition verify_with_ecdsa :: "ext \<Rightarrow> signable \<Rightarrow> bytes \<Rightarrow> bytes \<Rightarrow> bool" where
  "verify_with_ecdsa X p key sig =
     (case x_json X p of None \<Rightarrow> False
      | Some j \<Rightarrow> x_ecdsa_verify X key sig (x_sha256 X j))"

text \<open>
  \<^verbatim>\<open>new_from_eth\<close>. The recovery id is a signed byte computation; \<^verbatim>\<open>as_u128\<close> panics on a nonce of
  128 bits or more, and \<^verbatim>\<open>+ 1\<close> wraps in a release build.
\<close>

definition new_from_eth :: "ext \<Rightarrow> bytes \<Rightarrow> error + transaction" where
  "new_from_eth X bs =
     (case x_eth_decode X bs of
        None \<Rightarrow> Inl EthDecodeError
      | Some EthOther \<Rightarrow> Inl NotLegacy
      | Some (EthLegacy l) \<Rightarrow>
         (if 2 ^ 128 \<le> unat (el_value l) then Inl EthValueTooLarge
          else
            let value = (ucast (el_value l) :: balance);
                ty = (case el_action l of
                        EthCall a \<Rightarrow> SmartContractFunctionCall a [] (el_input l) value
                      | EthCreate \<Rightarrow>
                          SmartContractDeployment PUBLIC EVM (el_input l) value (replicate 32 0));
                v = unat (el_standard_v l);
                rid = (if v > 26 then v - 27 else v)
            in if rid > 3 then Inl BadV
               else case x_recoverable X (el_r l) (el_s l) rid of
                 None \<Rightarrow> Inl BadRS
               | Some sig \<Rightarrow>
                 (case x_recover_ecdsa X (el_message_hash l) sig rid of
                    None \<Rightarrow> Inl BadSignature
                  | Some key \<Rightarrow>
                     (if unat (el_gas_limit l) \<le> 2 ^ 64 - 1 then
                        if 2 ^ 128 \<le> unat (el_nonce l) then Inl Panic
                        else Inr
                          \<lparr>tx_version = V3, tx_nonce = ucast (el_nonce l) + 1, tx_type = ty,
                           tx_fee_limit =
                             (case checked_div (ucast (el_gas_limit l)) GAS_PRICE of
                                None \<Rightarrow> 0 | Some q \<Rightarrow> q) + 1,
                           tx_signature = sig, tx_verifying_key = key,
                           tx_eth_original = Some bs\<rparr>
                      else Inl GasLimitOverflow))))"

definition verify_eth_tx :: "ext \<Rightarrow> transaction \<Rightarrow> error + bool" where
  "verify_eth_tx X tx =
     (case tx_eth_original tx of
        None \<Rightarrow> Inl Panic
      | Some bs \<Rightarrow> (case new_from_eth X bs of Inl e \<Rightarrow> Inl e | Inr t \<Rightarrow> Inr (t = tx)))"

definition tx_sign_payload :: "transaction \<Rightarrow> signable" where
  "tx_sign_payload tx =
     (case tx_version tx of
        V3 \<Rightarrow> SignTxV3 \<lparr>p3_nonce = to_string (tx_nonce tx),
                        p3_transaction_type = to_v2_sign_payload (tx_type tx),
                        p3_fee_limit = to_string (tx_fee_limit tx)\<rparr>
      | _ \<Rightarrow> SignTxV1 \<lparr>p1_nonce = tx_nonce tx,
                       p1_transaction_type = to_v1_sign_payload (tx_type tx),
                       p1_fee_limit = tx_fee_limit tx\<rparr>)"

definition verify_signature :: "ext \<Rightarrow> transaction \<Rightarrow> error + bool" where
  "verify_signature X tx =
     (if tx_eth_original tx \<noteq> None then verify_eth_tx X tx
      else case x_signature X (tx_signature tx) of
             None \<Rightarrow> Inl InvalidSignatureBytes
           | Some sig \<Rightarrow>
              (case x_public_key X (tx_verifying_key tx) of
                 None \<Rightarrow> Inl InvalidPublicKey
               | Some key \<Rightarrow> Inr (verify_with_ecdsa X (tx_sign_payload tx) key sig)))"

definition verify_sized :: "ext \<Rightarrow> signable \<Rightarrow> bytes \<Rightarrow> bytes \<Rightarrow> error + unit" where
  "verify_sized X p signature verifying_key =
     (if length signature \<noteq> 64 then Inl InvalidSignatureLength
      else if length verifying_key \<noteq> 33 then Inl InvalidKeyLength
      else case x_signature X signature of
             None \<Rightarrow> Inl InvalidSignatureBytes
           | Some sig \<Rightarrow>
              (case x_public_key X verifying_key of
                 None \<Rightarrow> Inl InvalidPublicKey
               | Some key \<Rightarrow>
                  if verify_with_ecdsa X p key sig then Inr () else Inl SignatureNotValid))"

definition block_payload_verify_signature :: "ext \<Rightarrow> block_payload \<Rightarrow> error + unit" where
  "block_payload_verify_signature X p =
     verify_sized X (SignBlock (bp_block p)) (bp_signature p) (bp_verifying_key p)"

definition vote_verify_signature :: "ext \<Rightarrow> vote \<Rightarrow> error + unit" where
  "vote_verify_signature X v =
     verify_sized X (SignVote (vote_data v)) (vote_signature v) (vote_verifying_key v)"

definition vote_result_verify_signature :: "ext \<Rightarrow> vote_result \<Rightarrow> error + unit" where
  "vote_result_verify_signature X v =
     verify_sized X (SignVoteResult (vr_data v)) (vr_signature v) (vr_verifying_key v)"

definition tx_hash :: "ext \<Rightarrow> transaction \<Rightarrow> error + transaction_hash" where
  "tx_hash X tx =
     (case tx_eth_original tx of
        Some bs \<Rightarrow>
          (case x_eth_decode X bs of
             None \<Rightarrow> Inl EthDecodeError
           | Some (EthLegacy l) \<Rightarrow> Inr (el_hash l)
           | Some EthOther \<Rightarrow> Inl NotLegacy)
      | None \<Rightarrow>
          (case x_bincode_tx X tx of
             None \<Rightarrow> Inl SerializeError
           | Some bs \<Rightarrow> Inr (x_keccak256 X bs)))"

definition required_balance :: "transaction \<Rightarrow> error + balance" where
  "required_balance tx =
     (let amount =
        (case tx_type tx of
           SmartContractDeployment _ _ _ deposit _ \<Rightarrow> deposit
         | SmartContractInit _ _ deposit \<Rightarrow> deposit
         | SmartContractFunctionCall _ _ _ deposit \<Rightarrow> deposit
         | NativeTokenTransfer _ amount \<Rightarrow> amount
         | Stake _ amount \<Rightarrow> amount
         | UnStake _ amount \<Rightarrow> amount
         | CreateStakingPool _ _ _ _ _ _ \<Rightarrow> 0
         | StakingPoolContract _ _ \<Rightarrow> 0)
      in case checked_add amount (tx_fee_limit tx) of
           None \<Rightarrow> Inl BalanceOverflow | Some b \<Rightarrow> Inr b)"

definition is_mint :: "address \<Rightarrow> address \<Rightarrow> bool" where
  "is_mint from_a to_a \<longleftrightarrow> from_a = to_a \<and> from_a = MINT_MASTER_ADDRESS"

definition is_mint_tx :: "address \<Rightarrow> transaction \<Rightarrow> bool" where
  "is_mint_tx from_a tx =
     (case tx_type tx of NativeTokenTransfer to_a _ \<Rightarrow> is_mint from_a to_a | _ \<Rightarrow> False)"

end
