(* ===== verification/L1X_State.thy ===== *)
theory L1X_State
  imports L1X_System
begin

text \<open>
  The copy-on-write state of transaction execution (\<^verbatim>\<open>state/src/updated_state.rs\<close>): a cache of
  the records read from and written over the database, with the operations that the executors
  call. The database is the record \<open>db\<close> of the six queries of \<^verbatim>\<open>DBRequest\<close>; an \<open>Inl\<close> answer
  stands for a query error and for a closed channel alike.

  The theory holds the operations; their abstract specification, the \<open>ledger\<close>, and the proofs that
  they refine it are in \<open>L1X_Ledger\<close>.
\<close>

section \<open>Cached records\<close>

datatype 'a cached_status = Updated "'a option" | Cached 'a

definition new_cached :: "'a \<Rightarrow> 'a cached_status" where
  "new_cached v = Cached v"

definition new_updated :: "'a option \<Rightarrow> 'a cached_status" where
  "new_updated v = Updated v"

text \<open>
  The argument \<open>upd\<close> is the method \<^verbatim>\<open>update\<close> of the trait \<^verbatim>\<open>Updatable\<close>, \<open>upd old new\<close>.
\<close>

function (sequential) cs_update ::
  "('a \<Rightarrow> 'a \<Rightarrow> 'a) \<Rightarrow> 'a cached_status \<Rightarrow> 'a option \<Rightarrow> 'a cached_status" where
  "cs_update upd (Cached c) (Some v) = cs_update upd (new_updated (Some v)) (Some c)"
| "cs_update upd (Cached c) None = new_updated None"
| "cs_update upd (Updated (Some x)) (Some v) = Updated (Some (upd x v))"
| "cs_update upd (Updated (Some x)) None = new_updated None"
| "cs_update upd (Updated None) v = new_updated v"
  by pat_completeness auto
termination
  by (relation "measure (\<lambda>(_, s, _). case s of Cached _ \<Rightarrow> 1 | Updated _ \<Rightarrow> 0)")
    (auto simp: new_updated_def)

text \<open>\<^verbatim>\<open>update_cached\<close> panics (\<open>None\<close>) on a removed record.\<close>

fun update_cached :: "('a \<Rightarrow> 'a \<Rightarrow> 'a) \<Rightarrow> 'a cached_status \<Rightarrow> 'a \<Rightarrow> 'a cached_status option" where
  "update_cached upd (Cached x) v = Some (Cached (upd x v))"
| "update_cached upd (Updated (Some x)) v = Some (Updated (Some (upd x v)))"
| "update_cached upd (Updated None) v = None"

fun is_removed :: "'a cached_status \<Rightarrow> bool" where
  "is_removed (Updated None) = True"
| "is_removed (Updated (Some _)) = False"
| "is_removed (Cached _) = False"

fun get_inner :: "'a cached_status \<Rightarrow> 'a option" where
  "get_inner (Cached v) = Some v"
| "get_inner (Updated v) = v"

text \<open>
  \<^verbatim>\<open>map.entry(k).and_modify(|r| r.update_cached(v)).or_insert(new_cached(v))\<close>, on a map and on a
  map of maps, with \<open>None\<close> for the panic.
\<close>

definition entry_cached ::
  "('a \<Rightarrow> 'a \<Rightarrow> 'a) \<Rightarrow> ('k \<rightharpoonup> 'a cached_status) \<Rightarrow> 'k \<Rightarrow> 'a \<Rightarrow> ('k \<rightharpoonup> 'a cached_status) option" where
  "entry_cached upd m k v =
     (case m k of
        None \<Rightarrow> Some (m(k \<mapsto> new_cached v))
      | Some r \<Rightarrow> (case update_cached upd r v of None \<Rightarrow> None | Some r' \<Rightarrow> Some (m(k \<mapsto> r'))))"

definition nested_entry_cached ::
  "('a \<Rightarrow> 'a \<Rightarrow> 'a) \<Rightarrow> ('i \<rightharpoonup> ('k \<rightharpoonup> 'a cached_status)) \<Rightarrow> 'i \<Rightarrow> 'k \<Rightarrow> 'a \<Rightarrow>
   ('i \<rightharpoonup> ('k \<rightharpoonup> 'a cached_status)) option" where
  "nested_entry_cached upd m i k v =
     (case m i of
        None \<Rightarrow> Some (m(i \<mapsto> [k \<mapsto> new_cached v]))
      | Some inner \<Rightarrow>
         (case entry_cached upd inner k v of None \<Rightarrow> None | Some inner' \<Rightarrow> Some (m(i \<mapsto> inner'))))"

definition nested_put ::
  "('i \<rightharpoonup> ('k \<rightharpoonup> 'a)) \<Rightarrow> 'i \<Rightarrow> 'k \<Rightarrow> 'a \<Rightarrow> ('i \<rightharpoonup> ('k \<rightharpoonup> 'a))" where
  "nested_put m i k v =
     (case m i of
        None \<Rightarrow> m(i \<mapsto> [k \<mapsto> v])
      | Some inner \<Rightarrow> m(i \<mapsto> inner(k \<mapsto> v)))"

definition nested_get :: "('i \<rightharpoonup> ('k \<rightharpoonup> 'a)) \<Rightarrow> 'i \<Rightarrow> 'k \<Rightarrow> 'a option" where
  "nested_get m i k = (case m i of None \<Rightarrow> None | Some inner \<Rightarrow> inner k)"

section \<open>The wrapped records\<close>

text \<open>
  The wrapper structs with a single field are the wrapped type itself; \<^verbatim>\<open>UpdatedContract\<close> and
  \<^verbatim>\<open>UpdatedContractInstance\<close> copy their fields.
\<close>

type_synonym updated_account = account
type_synonym updated_contract_instance_value = "bytes option"
type_synonym updated_event = event
type_synonym updated_staking_pool = staking_pool
type_synonym updated_staking_account = staking_account
type_synonym updated_transaction_metadata = transaction_metadata

record updated_contract =
  uc_address :: address
  uc_access :: "8 word"
  uc_type :: "8 word"
  uc_code :: bytes
  uc_owner_address :: address

record updated_contract_instance =
  uci_instance_address :: address
  uci_contract_address :: address
  uci_owner_address :: address

definition updated_account_update :: "updated_account \<Rightarrow> updated_account \<Rightarrow> updated_account" where
  "updated_account_update self v = v"

definition updated_contract_update ::
  "updated_contract \<Rightarrow> updated_contract \<Rightarrow> updated_contract" where
  "updated_contract_update self v = v"

definition updated_contract_from :: "contract \<Rightarrow> updated_contract" where
  "updated_contract_from c =
     \<lparr>uc_address = con_address c, uc_access = con_access c, uc_type = con_type c,
      uc_code = con_code c, uc_owner_address = con_owner c\<rparr>"

definition updated_contract_into :: "updated_contract \<Rightarrow> contract" where
  "updated_contract_into u =
     \<lparr>con_address = uc_address u, con_access = uc_access u, con_type = uc_type u,
      con_code = uc_code u, con_owner = uc_owner_address u\<rparr>"

definition updated_contract_instance_update ::
  "updated_contract_instance \<Rightarrow> updated_contract_instance \<Rightarrow> updated_contract_instance" where
  "updated_contract_instance_update self v = v"

definition updated_contract_instance_from :: "contract_instance \<Rightarrow> updated_contract_instance" where
  "updated_contract_instance_from v =
     \<lparr>uci_instance_address = ci_instance_address v, uci_contract_address = ci_contract_address v,
      uci_owner_address = ci_owner_address v\<rparr>"

definition updated_contract_instance_into :: "updated_contract_instance \<Rightarrow> contract_instance" where
  "updated_contract_instance_into u =
     \<lparr>ci_instance_address = uci_instance_address u, ci_contract_address = uci_contract_address u,
      ci_owner_address = uci_owner_address u\<rparr>"

definition updated_contract_instance_value_update ::
  "updated_contract_instance_value \<Rightarrow> updated_contract_instance_value \<Rightarrow>
   updated_contract_instance_value" where
  "updated_contract_instance_value_update self v = v"

definition updated_event_update :: "updated_event \<Rightarrow> updated_event \<Rightarrow> updated_event" where
  "updated_event_update self v = v"

definition updated_staking_pool_update ::
  "updated_staking_pool \<Rightarrow> updated_staking_pool \<Rightarrow> updated_staking_pool" where
  "updated_staking_pool_update self v = v"

definition updated_staking_account_update ::
  "updated_staking_account \<Rightarrow> updated_staking_account \<Rightarrow> updated_staking_account" where
  "updated_staking_account_update self v = v"

definition updated_transaction_metadata_update ::
  "updated_transaction_metadata \<Rightarrow> updated_transaction_metadata \<Rightarrow>
   updated_transaction_metadata" where
  "updated_transaction_metadata_update self v = v"

section \<open>The state\<close>

record db =
  db_get_account :: "address \<Rightarrow> error + account"
  db_get_contract :: "address \<Rightarrow> error + contract"
  db_get_contract_instance :: "address \<Rightarrow> error + contract_instance"
  db_get_contract_instance_value :: "address \<Rightarrow> bytes \<Rightarrow> error + bytes option"
  db_get_staking_pool :: "address \<Rightarrow> error + staking_pool"
  db_get_staking_account :: "address \<Rightarrow> address \<Rightarrow> error + staking_account"
    \<comment> \<open>pool address, account address\<close>

record updated_state =
  db_channel :: db
  accounts :: "address \<rightharpoonup> updated_account cached_status"
  contracts :: "address \<rightharpoonup> updated_contract cached_status"
  contract_instances :: "address \<rightharpoonup> updated_contract_instance cached_status"
  contract_states :: "address \<rightharpoonup> (bytes \<rightharpoonup> updated_contract_instance_value cached_status)"
  contract_events :: "updated_event cached_status list"
  staking_pools :: "address \<rightharpoonup> updated_staking_pool cached_status"
  staking_accounts :: "address \<rightharpoonup> (address \<rightharpoonup> updated_staking_account cached_status)"
  transaction_metadatas :: "updated_transaction_metadata cached_status list"

type_synonym 'a state_op = "(updated_state, error, 'a) op"

definition updated_state_new :: "db \<Rightarrow> updated_state" where
  "updated_state_new channel =
     \<lparr>db_channel = channel, accounts = Map.empty, contracts = Map.empty,
      contract_instances = Map.empty, contract_states = Map.empty, contract_events = [],
      staking_pools = Map.empty, staking_accounts = Map.empty, transaction_metadatas = []\<rparr>"

definition nested_merge ::
  "('i \<rightharpoonup> ('k \<rightharpoonup> 'a)) \<Rightarrow> ('i \<rightharpoonup> ('k \<rightharpoonup> 'a)) \<Rightarrow> ('i \<rightharpoonup> ('k \<rightharpoonup> 'a))" where
  "nested_merge m m' =
     (\<lambda>i. case m' i of
            None \<Rightarrow> m i
          | Some inner' \<Rightarrow> (case m i of None \<Rightarrow> Some inner' | Some inner \<Rightarrow> Some (inner ++ inner')))"

definition merge :: "updated_state \<Rightarrow> updated_state \<Rightarrow> updated_state" where
  "merge s another = s
     \<lparr>accounts := accounts s ++ accounts another,
      contracts := contracts s ++ contracts another,
      contract_instances := contract_instances s ++ contract_instances another,
      contract_states := nested_merge (contract_states s) (contract_states another),
      contract_events := contract_events another,
      staking_pools := staking_pools s ++ staking_pools another,
      staking_accounts := nested_merge (staking_accounts s) (staking_accounts another),
      transaction_metadatas := transaction_metadatas another\<rparr>"

definition is_contract_state_updated :: "updated_state \<Rightarrow> address \<Rightarrow> bool" where
  "is_contract_state_updated s i =
     (case contract_states s i of
        None \<Rightarrow> False
      | Some m \<Rightarrow> (\<exists>v \<in> ran m. case v of Updated _ \<Rightarrow> True | Cached _ \<Rightarrow> False))"

section \<open>Accounts\<close>

definition get_account :: "address \<Rightarrow> account state_op" where
  "get_account a = (\<lambda>s.
     case accounts s a of
       Some cached \<Rightarrow>
         (case get_inner cached of
            None \<Rightarrow> (Inl (AccountRemoved a), s)
          | Some account \<Rightarrow> (Inr account, s))
     | None \<Rightarrow>
         (case db_get_account (db_channel s) a of
            Inr account \<Rightarrow> (Inr account, s\<lparr>accounts := (accounts s)(a \<mapsto> Cached account)\<rparr>)
          | Inl e \<Rightarrow> (Inl e, s)))"

definition update_account :: "account \<Rightarrow> unit state_op" where
  "update_account account =
     modify (\<lambda>s. s\<lparr>accounts := (accounts s)(acc_address account \<mapsto> Updated (Some account))\<rparr>)"

definition get_nonce :: "address \<Rightarrow> nonce state_op" where
  "get_nonce a = and_then (get_account a) (\<lambda>account. ok (acc_nonce account))"

definition increment_nonce :: "address \<Rightarrow> unit state_op" where
  "increment_nonce a =
     and_then (get_account a) (\<lambda>account.
     and_then (ok_or (checked_add (acc_nonce account) 1) (NonceOverflow a (acc_nonce account)))
       (\<lambda>n. update_account (account\<lparr>acc_nonce := n\<rparr>)))"

definition get_balance :: "address \<Rightarrow> balance state_op" where
  "get_balance a = and_then (get_account a) (\<lambda>account. ok (acc_balance account))"

definition mint :: "balance \<Rightarrow> address \<Rightarrow> unit state_op" where
  "mint amount to_a =
     and_then (get_account to_a) (\<lambda>account.
     and_then (ok_or (checked_add (acc_balance account) amount)
                (MintOverflow to_a (acc_balance account) amount))
       (\<lambda>b. update_account (account\<lparr>acc_balance := b\<rparr>)))"

definition transfer :: "address \<Rightarrow> address \<Rightarrow> balance \<Rightarrow> unit state_op" where
  "transfer from_a to_a amount =
     and_then (get_account from_a) (\<lambda>from0.
     and_then (ok_or (checked_sub (acc_balance from0) amount)
                (TransferInsufficient from_a (acc_balance from0) amount)) (\<lambda>from_balance.
     let from_account = from0\<lparr>acc_balance := from_balance\<rparr> in
     and_then
       (attempt (get_account to_a) (\<lambda>r. case r of
           Inr account \<Rightarrow> ok (if from_a = to_a then from_account else account)
         | Inl _ \<Rightarrow>
             let account = \<lparr>acc_address = to_a, acc_balance = 0, acc_nonce = 0, acc_type = User\<rparr>
             in and_then (update_account account) (\<lambda>_. ok account)))
       (\<lambda>to0.
     and_then (ok_or (checked_add (acc_balance to0) amount)
                (TransferOverflow to_a (acc_balance to0) amount)) (\<lambda>to_balance.
     and_then (update_account from_account) (\<lambda>_.
       update_account (to0\<lparr>acc_balance := to_balance\<rparr>))))))"

definition is_valid_account :: "address \<Rightarrow> bool state_op" where
  "is_valid_account a =
     attempt (get_account a) (\<lambda>r. ok (case r of Inr _ \<Rightarrow> True | Inl _ \<Rightarrow> False))"

definition create_account :: "account \<Rightarrow> unit state_op" where
  "create_account account =
     and_then (is_valid_account (acc_address account)) (\<lambda>valid.
       if valid then fail (AddressCollision (acc_address account)) else update_account account)"

definition create_system_account :: "address \<Rightarrow> unit state_op" where
  "create_system_account a = create_account (account_new_system a)"

definition create_event :: "event \<Rightarrow> unit state_op" where
  "create_event e = modify (\<lambda>s. s\<lparr>contract_events := contract_events s @ [Updated (Some e)]\<rparr>)"

section \<open>Contracts and their instances\<close>

definition get_contract :: "address \<Rightarrow> contract state_op" where
  "get_contract a = (\<lambda>s.
     case contracts s a of
       Some cached \<Rightarrow>
         (case get_inner cached of
            None \<Rightarrow> (Inl (ContractRemoved a), s)
          | Some c \<Rightarrow> (Inr (updated_contract_into c), s))
     | None \<Rightarrow>
         (case db_get_contract (db_channel s) a of
            Inr c \<Rightarrow>
              (case entry_cached updated_contract_update (contracts s) a (updated_contract_from c) of
                 None \<Rightarrow> (Inl Panic, s)
               | Some m \<Rightarrow> (Inr c, s\<lparr>contracts := m\<rparr>))
          | Inl e \<Rightarrow> (Inl e, s)))"

definition store_contract :: "contract \<Rightarrow> unit state_op" where
  "store_contract c = modify (\<lambda>s. s\<lparr>contracts := (contracts s)(con_address c \<mapsto>
     (case contracts s (con_address c) of
        Some r \<Rightarrow> cs_update updated_contract_update r (Some (updated_contract_from c))
      | None \<Rightarrow> new_updated (Some (updated_contract_from c))))\<rparr>)"

definition get_contract_owner :: "address \<Rightarrow> (8 word \<times> address) state_op" where
  "get_contract_owner a = and_then (get_contract a) (\<lambda>c. ok (con_access c, con_owner c))"

definition get_contract_instance :: "address \<Rightarrow> contract_instance state_op" where
  "get_contract_instance a = (\<lambda>s.
     case contract_instances s a of
       Some cached \<Rightarrow>
         (case get_inner cached of
            None \<Rightarrow> (Inl (ContractInstanceRemoved a), s)
          | Some c \<Rightarrow> (Inr (updated_contract_instance_into c), s))
     | None \<Rightarrow>
         (case db_get_contract_instance (db_channel s) a of
            Inr c \<Rightarrow>
              (case entry_cached updated_contract_instance_update (contract_instances s) a
                      (updated_contract_instance_from c) of
                 None \<Rightarrow> (Inl Panic, s)
               | Some m \<Rightarrow> (Inr c, s\<lparr>contract_instances := m\<rparr>))
          | Inl e \<Rightarrow> (Inl e, s)))"

definition is_valid_contract_instance :: "address \<Rightarrow> bool state_op" where
  "is_valid_contract_instance a =
     attempt (get_contract_instance a) (\<lambda>r. ok (case r of Inr _ \<Rightarrow> True | Inl _ \<Rightarrow> False))"

definition store_contract_instance :: "contract_instance \<Rightarrow> unit state_op" where
  "store_contract_instance c = modify (\<lambda>s. s\<lparr>contract_instances :=
     (contract_instances s)(ci_instance_address c \<mapsto>
       (case contract_instances s (ci_instance_address c) of
          Some r \<Rightarrow>
            cs_update updated_contract_instance_update r (Some (updated_contract_instance_from c))
        | None \<Rightarrow> new_updated (Some (updated_contract_instance_from c))))\<rparr>)"

definition get_state_key_value :: "address \<Rightarrow> bytes \<Rightarrow> bytes option state_op" where
  "get_state_key_value i k = (\<lambda>s.
     case nested_get (contract_states s) i k of
       Some cached \<Rightarrow> (Inr (Option.bind (get_inner cached) (\<lambda>v. v)), s)
     | None \<Rightarrow>
         (case db_get_contract_instance_value (db_channel s) i k of
            Inr v \<Rightarrow>
              (case nested_entry_cached updated_contract_instance_value_update
                      (contract_states s) i k v of
                 None \<Rightarrow> (Inl Panic, s)
               | Some m \<Rightarrow> (Inr v, s\<lparr>contract_states := m\<rparr>))
          | Inl e \<Rightarrow> (Inl e, s)))"

definition store_state_key_value :: "address \<Rightarrow> bytes \<Rightarrow> bytes \<Rightarrow> unit state_op" where
  "store_state_key_value i k v = modify (\<lambda>s. s\<lparr>contract_states :=
     nested_put (contract_states s) i k (new_updated (Some (Some v)))\<rparr>)"

definition delete_state_key_value :: "address \<Rightarrow> bytes \<Rightarrow> unit state_op" where
  "delete_state_key_value i k = modify (\<lambda>s. s\<lparr>contract_states :=
     nested_put (contract_states s) i k (new_updated None)\<rparr>)"

section \<open>Staking\<close>

definition create_pool ::
  "ext \<Rightarrow> address \<Rightarrow> address \<Rightarrow> nonce \<Rightarrow> block_number \<Rightarrow> address option \<Rightarrow> balance option \<Rightarrow>
   balance option \<Rightarrow> balance option \<Rightarrow> balance option \<Rightarrow> block_number option \<Rightarrow> address state_op" where
  "create_pool X account cluster n created ci min_s max_s min_p max_p period =
     (let p = pool_address X account cluster n in
      and_then (create_system_account p) (\<lambda>_.
      let pool = staking_pool_new p account ci cluster created min_s max_s min_p max_p period in
      and_then (modify (\<lambda>s. s\<lparr>staking_pools := (staking_pools s)(p \<mapsto> Updated (Some pool))\<rparr>))
        (\<lambda>_. ok p)))"

definition get_staking_pool :: "address \<Rightarrow> staking_pool state_op" where
  "get_staking_pool p = (\<lambda>s.
     case staking_pools s p of
       Some cached \<Rightarrow>
         (case get_inner cached of
            None \<Rightarrow> (Inl (StakingPoolRemoved p), s)
          | Some pool \<Rightarrow> (Inr pool, s))
     | None \<Rightarrow>
         (case db_get_staking_pool (db_channel s) p of
            Inr pool \<Rightarrow>
              (case entry_cached updated_staking_pool_update (staking_pools s) p pool of
                 None \<Rightarrow> (Inl Panic, s)
               | Some m \<Rightarrow> (Inr pool, s\<lparr>staking_pools := m\<rparr>))
          | Inl e \<Rightarrow> (Inl e, s)))"

definition get_staking_account :: "address \<Rightarrow> address \<Rightarrow> staking_account state_op" where
  "get_staking_account a p = (\<lambda>s.
     case nested_get (staking_accounts s) p a of
       Some cached \<Rightarrow>
         (case get_inner cached of
            None \<Rightarrow> (Inl (StakingPoolRemoved p), s)
          | Some acc \<Rightarrow> (Inr acc, s))
     | None \<Rightarrow>
         (case db_get_staking_account (db_channel s) p a of
            Inr acc \<Rightarrow>
              (case nested_entry_cached updated_staking_account_update
                      (staking_accounts s) p a acc of
                 None \<Rightarrow> (Inl Panic, s)
               | Some m \<Rightarrow> (Inr acc, s\<lparr>staking_accounts := m\<rparr>))
          | Inl e \<Rightarrow> (Inl e, s)))"

definition is_staking_account_exists :: "address \<Rightarrow> address \<Rightarrow> bool state_op" where
  "is_staking_account_exists a p =
     attempt (get_staking_account a p) (\<lambda>r. ok (case r of Inr _ \<Rightarrow> True | Inl _ \<Rightarrow> False))"

definition update_staking_account :: "staking_account \<Rightarrow> unit state_op" where
  "update_staking_account sa = modify (\<lambda>s. s\<lparr>staking_accounts :=
     nested_put (staking_accounts s) (sa_pool_address sa) (sa_account_address sa)
       (Updated (Some sa))\<rparr>)"

definition insert_staking_account :: "address \<Rightarrow> address \<Rightarrow> balance \<Rightarrow> unit state_op" where
  "insert_staking_account a p b =
     update_staking_account \<lparr>sa_account_address = a, sa_pool_address = p, sa_balance = b\<rparr>"

definition put_pool :: "address \<Rightarrow> staking_pool \<Rightarrow> unit state_op" where
  "put_pool p pool =
     modify (\<lambda>s. s\<lparr>staking_pools := (staking_pools s)(p \<mapsto> new_updated (Some pool))\<rparr>)"

definition update_staking_pool_block_number :: "address \<Rightarrow> block_number \<Rightarrow> unit state_op" where
  "update_staking_pool_block_number p n =
     and_then (get_staking_pool p) (\<lambda>pool. put_pool p (pool\<lparr>sp_updated_block_number := n\<rparr>))"

definition stake :: "address \<Rightarrow> address \<Rightarrow> block_number \<Rightarrow> balance \<Rightarrow> unit state_op" where
  "stake p a n amount =
     and_then (get_staking_pool p) (\<lambda>pool.
     and_then (case sp_min_stake pool of
                 None \<Rightarrow> ok ()
               | Some min_stake \<Rightarrow>
                   if min_stake > amount then fail (BelowMinStake amount min_stake) else ok ()) (\<lambda>_.
     and_then (case sp_max_stake pool of
                 None \<Rightarrow> ok ()
               | Some max_stake \<Rightarrow>
                   if max_stake < amount then fail (AboveMaxStake amount max_stake) else ok ()) (\<lambda>_.
     and_then (case sp_max_pool_balance pool of
                 None \<Rightarrow> ok ()
               | Some max_pool_balance \<Rightarrow>
                   and_then (get_balance p) (\<lambda>pool_balance.
                     if saturating_sub max_pool_balance amount < pool_balance
                     then fail (MaxPoolBalance max_pool_balance pool_balance amount)
                     else ok ())) (\<lambda>_.
     and_then (transfer a p amount) (\<lambda>_.
     and_then (attempt (get_staking_account a p) (\<lambda>r. ok (case r of
                 Inr acc \<Rightarrow> acc | Inl _ \<Rightarrow> staking_account_new a p))) (\<lambda>sa.
     and_then (ok_or (checked_add (sa_balance sa) amount)
                (StakeOverflow (sa_account_address sa) (sa_balance sa) amount)) (\<lambda>b.
     and_then (update_staking_account (sa\<lparr>sa_balance := b\<rparr>)) (\<lambda>_.
       update_staking_pool_block_number p n))))))))"

definition un_stake_adjust :: "staking_pool \<Rightarrow> balance \<Rightarrow> balance \<Rightarrow> balance \<Rightarrow> balance \<times> balance" where
  "un_stake_adjust pool staked amount remaining =
     (let (adjusted, balance0) =
        (case sp_min_stake pool of
           None \<Rightarrow> (amount, staked)
         | Some min_stake \<Rightarrow>
             if remaining > 0 \<and> remaining < min_stake then (staked, 0) else (amount, staked))
      in (adjusted, if adjusted = amount then remaining else balance0))"

definition un_stake :: "address \<Rightarrow> address \<Rightarrow> block_number \<Rightarrow> balance \<Rightarrow> unit state_op" where
  "un_stake p a n amount =
     and_then (get_staking_pool p) (\<lambda>pool.
     and_then (get_staking_account a p) (\<lambda>sa.
     and_then (ok_or (checked_sub (sa_balance sa) amount)
                (UnstakeInsufficient a (sa_balance sa) amount)) (\<lambda>remaining.
     let (adjusted, b) = un_stake_adjust pool (sa_balance sa) amount remaining in
     and_then (update_staking_account (sa\<lparr>sa_balance := b\<rparr>)) (\<lambda>_.
     and_then (update_staking_pool_block_number p n) (\<lambda>_.
       transfer p a adjusted)))))"

definition update_contract :: "address \<Rightarrow> address \<Rightarrow> block_number \<Rightarrow> unit state_op" where
  "update_contract ci p n =
     and_then (get_staking_pool p) (\<lambda>pool.
       put_pool p (pool\<lparr>sp_contract_instance_address := Some ci, sp_updated_block_number := n\<rparr>))"

definition insert_staking_pool :: "staking_pool \<Rightarrow> unit state_op" where
  "insert_staking_pool pool = put_pool (sp_pool_address pool) pool"

definition store_transaction_metadata :: "transaction_metadata \<Rightarrow> unit state_op" where
  "store_transaction_metadata m =
     modify (\<lambda>s. s\<lparr>transaction_metadatas := transaction_metadatas s @ [Updated (Some m)]\<rparr>)"

end
