(* ===== verification/L1X_Ledger.thy ===== *)
theory L1X_Ledger
  imports L1X_State
begin

text \<open>
  The abstract specification of \<^verbatim>\<open>UpdatedState\<close>. A \<open>ledger\<close> is what a reader of the state
  observes: the record under every key, or the error a read returns. The theory shows that the
  reads of the state are reads of the ledger, that its writes change one record, and gives the
  effect of the balance, nonce and staking operations as functions on ledgers.
\<close>

section \<open>The trait Updatable and the cache entries\<close>

locale updatable =
  fixes upd :: "'a \<Rightarrow> 'a \<Rightarrow> 'a"
  assumes upd_new: "upd old new = new"
begin

lemma entry_vacant:
  "m k = None \<Longrightarrow> entry_cached upd m k v = Some (m(k \<mapsto> Cached v))"
  by (simp add: entry_cached_def new_cached_def)

lemma nested_entry_vacant:
  "nested_get m i k = None \<Longrightarrow>
     nested_entry_cached upd m i k v = Some (nested_put m i k (Cached v))"
  by (auto simp: nested_get_def nested_entry_cached_def nested_put_def entry_vacant new_cached_def
      split: option.splits)

lemma update_written: "cs_update upd (Updated r) v = Updated v"
  by (cases r; cases v) (simp_all add: upd_new new_updated_def)

lemma update_read: "cs_update upd (Cached c) (Some v) = Updated (Some c)"
  by (simp add: upd_new new_updated_def)

end

interpretation up_account: updatable updated_account_update
  by unfold_locales (simp add: updated_account_update_def)

interpretation up_contract: updatable updated_contract_update
  by unfold_locales (simp add: updated_contract_update_def)

interpretation up_instance: updatable updated_contract_instance_update
  by unfold_locales (simp add: updated_contract_instance_update_def)

interpretation up_value: updatable updated_contract_instance_value_update
  by unfold_locales (simp add: updated_contract_instance_value_update_def)

interpretation up_event: updatable updated_event_update
  by unfold_locales (simp add: updated_event_update_def)

interpretation up_pool: updatable updated_staking_pool_update
  by unfold_locales (simp add: updated_staking_pool_update_def)

interpretation up_staking: updatable updated_staking_account_update
  by unfold_locales (simp add: updated_staking_account_update_def)

interpretation up_metadata: updatable updated_transaction_metadata_update
  by unfold_locales (simp add: updated_transaction_metadata_update_def)

section \<open>Ledgers\<close>

definition cached_view ::
  "error \<Rightarrow> ('c \<Rightarrow> 'v) \<Rightarrow> 'c cached_status option \<Rightarrow> error + 'v \<Rightarrow> error + 'v" where
  "cached_view removed into entry stored =
     (case entry of
        None \<Rightarrow> stored
      | Some c \<Rightarrow> (case get_inner c of None \<Rightarrow> Inl removed | Some v \<Rightarrow> Inr (into v)))"

definition value_view ::
  "bytes option cached_status option \<Rightarrow> error + bytes option \<Rightarrow> error + bytes option" where
  "value_view entry stored =
     (case entry of None \<Rightarrow> stored | Some c \<Rightarrow> Inr (Option.bind (get_inner c) (\<lambda>v. v)))"

record ledger =
  l_account :: "address \<Rightarrow> error + account"
  l_contract :: "address \<Rightarrow> error + contract"
  l_instance :: "address \<Rightarrow> error + contract_instance"
  l_value :: "address \<times> bytes \<Rightarrow> error + bytes option"
  l_pool :: "address \<Rightarrow> error + staking_pool"
  l_stake :: "address \<times> address \<Rightarrow> error + staking_account"
  l_events :: "event cached_status list"
  l_metadatas :: "transaction_metadata cached_status list"

definition ledger_of :: "updated_state \<Rightarrow> ledger" where
  "ledger_of s =
     \<lparr>l_account = (\<lambda>a. cached_view (AccountRemoved a) (\<lambda>v. v) (accounts s a)
                         (db_get_account (db_channel s) a)),
      l_contract = (\<lambda>a. cached_view (ContractRemoved a) updated_contract_into (contracts s a)
                          (db_get_contract (db_channel s) a)),
      l_instance = (\<lambda>a. cached_view (ContractInstanceRemoved a) updated_contract_instance_into
                          (contract_instances s a) (db_get_contract_instance (db_channel s) a)),
      l_value = (\<lambda>(i, k). value_view (nested_get (contract_states s) i k)
                            (db_get_contract_instance_value (db_channel s) i k)),
      l_pool = (\<lambda>p. cached_view (StakingPoolRemoved p) (\<lambda>v. v) (staking_pools s p)
                      (db_get_staking_pool (db_channel s) p)),
      l_stake = (\<lambda>(a, p). cached_view (StakingPoolRemoved p) (\<lambda>v. v)
                            (nested_get (staking_accounts s) p a)
                            (db_get_staking_account (db_channel s) p a)),
      l_events = contract_events s,
      l_metadatas = transaction_metadatas s\<rparr>"

definition set_account :: "address \<Rightarrow> account \<Rightarrow> ledger \<Rightarrow> ledger" where
  "set_account a v L = L\<lparr>l_account := (l_account L)(a := Inr v)\<rparr>"

definition set_value :: "address \<times> bytes \<Rightarrow> bytes option \<Rightarrow> ledger \<Rightarrow> ledger" where
  "set_value k v L = L\<lparr>l_value := (l_value L)(k := Inr v)\<rparr>"

definition set_pool :: "address \<Rightarrow> staking_pool \<Rightarrow> ledger \<Rightarrow> ledger" where
  "set_pool p v L = L\<lparr>l_pool := (l_pool L)(p := Inr v)\<rparr>"

definition set_stake :: "address \<times> address \<Rightarrow> staking_account \<Rightarrow> ledger \<Rightarrow> ledger" where
  "set_stake k v L = L\<lparr>l_stake := (l_stake L)(k := Inr v)\<rparr>"

lemma nested_get_put [simp]:
  "nested_get (nested_put m i k v) i' k' =
     (if i' = i \<and> k' = k then Some v else nested_get m i' k')"
  by (auto simp: nested_get_def nested_put_def split: option.splits)

lemma into_from_contract [simp]: "updated_contract_into (updated_contract_from c) = c"
  by (simp add: updated_contract_into_def updated_contract_from_def)

lemma into_from_instance [simp]:
  "updated_contract_instance_into (updated_contract_instance_from c) = c"
  by (simp add: updated_contract_instance_into_def updated_contract_instance_from_def)

lemma cached_view_simps [simp]:
  "cached_view e f None st = st"
  "cached_view e f (Some (Cached v)) st = Inr (f v)"
  "cached_view e f (Some (Updated (Some v))) st = Inr (f v)"
  "cached_view e f (Some (Updated None)) st = Inl e"
  by (simp_all add: cached_view_def)

lemma value_view_simps [simp]:
  "value_view None st = st"
  "value_view (Some (Cached v)) st = Inr v"
  "value_view (Some (Updated (Some v))) st = Inr v"
  "value_view (Some (Updated None)) st = Inr None"
  by (simp_all add: value_view_def)

interpretation acc: overlay_store ledger_of l_account get_account
  set_account update_account acc_address "\<lambda>v. v"
proof
  show "reads ledger_of (\<lambda>l. l_account l k) (get_account k)" for k
    by (auto simp: reads_def obs_def get_account_def ledger_of_def cached_view_def
        split: option.splits sum.splits)
  show "writes ledger_of (set_account (acc_address w) w) (update_account w)" for w
    by (auto simp: writes_def obs_def update_account_def modify_def ledger_of_def set_account_def)
qed (simp_all add: set_account_def)

interpretation con: overlay_read ledger_of l_contract get_contract
proof
  show "reads ledger_of (\<lambda>l. l_contract l k) (get_contract k)" for k
    by (auto simp: reads_def obs_def get_contract_def ledger_of_def cached_view_def
        up_contract.entry_vacant split: option.splits sum.splits)
qed

interpretation inst: overlay_read ledger_of l_instance get_contract_instance
proof
  show "reads ledger_of (\<lambda>l. l_instance l k) (get_contract_instance k)" for k
    by (auto simp: reads_def obs_def get_contract_instance_def ledger_of_def cached_view_def
        up_instance.entry_vacant split: option.splits sum.splits)
qed

interpretation kv: overlay_store ledger_of l_value "\<lambda>(i, k). get_state_key_value i k"
  set_value "\<lambda>(i, k, v). store_state_key_value i k v" "\<lambda>(i, k, v). (i, k)" "\<lambda>(i, k, v). Some v"
proof
  show "reads ledger_of (\<lambda>l. l_value l x) (case x of (i, k) \<Rightarrow> get_state_key_value i k)" for x
    by (auto simp: reads_def obs_def get_state_key_value_def ledger_of_def value_view_def
        up_value.nested_entry_vacant split: option.splits sum.splits prod.splits)
  show "writes ledger_of (set_value (case w of (i, k, v) \<Rightarrow> (i, k)) (case w of (i, k, v) \<Rightarrow> Some v))
          (case w of (i, k, v) \<Rightarrow> store_state_key_value i k v)" for w
    by (auto simp: writes_def obs_def store_state_key_value_def modify_def ledger_of_def
        set_value_def new_updated_def split: prod.splits)
qed (simp_all add: set_value_def)

interpretation pool: overlay_store ledger_of l_pool get_staking_pool
  set_pool "\<lambda>(p, v). put_pool p v" fst snd
proof
  show "reads ledger_of (\<lambda>l. l_pool l k) (get_staking_pool k)" for k
    by (auto simp: reads_def obs_def get_staking_pool_def ledger_of_def cached_view_def
        up_pool.entry_vacant split: option.splits sum.splits)
  show "writes ledger_of (set_pool (fst w) (snd w)) (case w of (p, v) \<Rightarrow> put_pool p v)" for w
    by (auto simp: writes_def obs_def put_pool_def modify_def ledger_of_def set_pool_def
        new_updated_def split: prod.splits)
qed (simp_all add: set_pool_def)

interpretation stk: overlay_store ledger_of l_stake "\<lambda>(a, p). get_staking_account a p"
  set_stake update_staking_account "\<lambda>v. (sa_account_address v, sa_pool_address v)" "\<lambda>v. v"
proof
  show "reads ledger_of (\<lambda>l. l_stake l x) (case x of (a, p) \<Rightarrow> get_staking_account a p)" for x
    by (auto simp: reads_def obs_def get_staking_account_def ledger_of_def cached_view_def
        up_staking.nested_entry_vacant split: option.splits sum.splits prod.splits)
  show "writes ledger_of (set_stake (sa_account_address w, sa_pool_address w) w)
          (update_staking_account w)" for w
    by (auto simp: writes_def obs_def update_staking_account_def modify_def ledger_of_def
        set_stake_def)
qed (simp_all add: set_stake_def)

section \<open>Well-formed ledgers and the supply\<close>

definition wf_ledger :: "ledger \<Rightarrow> bool" where
  "wf_ledger L \<longleftrightarrow>
     (\<forall>a v. l_account L a = Inr v \<longrightarrow> acc_address v = a) \<and>
     (\<forall>p v. l_pool L p = Inr v \<longrightarrow> sp_pool_address v = p) \<and>
     (\<forall>a p v. l_stake L (a, p) = Inr v \<longrightarrow> sa_account_address v = a \<and> sa_pool_address v = p)"

definition balance_at :: "ledger \<Rightarrow> address \<Rightarrow> nat" where
  "balance_at L a = (case l_account L a of Inr v \<Rightarrow> unat (acc_balance v) | Inl _ \<Rightarrow> 0)"

definition total_supply :: "ledger \<Rightarrow> nat" where
  "total_supply L = (\<Sum>a\<in>UNIV. balance_at L a)"

definition staked_at :: "ledger \<Rightarrow> address \<Rightarrow> address \<Rightarrow> nat" where
  "staked_at L a p = (case l_stake L (a, p) of Inr v \<Rightarrow> unat (sa_balance v) | Inl _ \<Rightarrow> 0)"

definition pool_stake :: "ledger \<Rightarrow> address \<Rightarrow> nat" where
  "pool_stake L p = (\<Sum>a\<in>UNIV. staked_at L a p)"

lemma wf_accountD: "wf_ledger L \<Longrightarrow> l_account L a = Inr v \<Longrightarrow> acc_address v = a"
  and wf_poolD: "wf_ledger L \<Longrightarrow> l_pool L p = Inr w \<Longrightarrow> sp_pool_address w = p"
  and wf_stakeD: "wf_ledger L \<Longrightarrow> l_stake L (a, p) = Inr x \<Longrightarrow>
                    sa_account_address x = a \<and> sa_pool_address x = p"
  by (auto simp: wf_ledger_def)

lemma wf_set [simp]:
  "wf_ledger L \<Longrightarrow> acc_address v = a \<Longrightarrow> wf_ledger (set_account a v L)"
  "wf_ledger L \<Longrightarrow> sp_pool_address w = p \<Longrightarrow> wf_ledger (set_pool p w L)"
  "wf_ledger L \<Longrightarrow> sa_account_address x = b \<Longrightarrow> sa_pool_address x = q \<Longrightarrow>
     wf_ledger (set_stake (b, q) x L)"
  "wf_ledger L \<Longrightarrow> wf_ledger (set_value k u L)"
  by (auto simp: wf_ledger_def set_account_def set_pool_def set_stake_def set_value_def)

lemma set_select [simp]:
  "l_account (set_account a v L) = (l_account L)(a := Inr v)"
  "l_account (set_pool p w L) = l_account L"
  "l_account (set_stake k x L) = l_account L"
  "l_account (set_value j u L) = l_account L"
  "l_pool (set_account a v L) = l_pool L"
  "l_pool (set_pool p w L) = (l_pool L)(p := Inr w)"
  "l_pool (set_stake k x L) = l_pool L"
  "l_stake (set_account a v L) = l_stake L"
  "l_stake (set_pool p w L) = l_stake L"
  "l_stake (set_stake k x L) = (l_stake L)(k := Inr x)"
  by (simp_all add: set_account_def set_pool_def set_stake_def set_value_def)

lemma balance_at_set [simp]:
  "balance_at (set_account a v L) b = (if b = a then unat (acc_balance v) else balance_at L b)"
  "balance_at (set_pool p w L) b = balance_at L b"
  "balance_at (set_stake k x L) b = balance_at L b"
  by (simp_all add: balance_at_def)

lemma staked_at_set [simp]:
  "staked_at (set_account a v L) b q = staked_at L b q"
  "staked_at (set_pool p w L) b q = staked_at L b q"
  "staked_at (set_stake k x L) b q =
     (if (b, q) = k then unat (sa_balance x) else staked_at L b q)"
  by (simp_all add: staked_at_def)

lemma sum_change:
  fixes f g :: "'a::finite \<Rightarrow> nat"
  assumes "\<And>b. b \<noteq> a \<Longrightarrow> g b = f b"
  shows "sum g UNIV + f a = sum f UNIV + g a"
proof -
  have "sum g UNIV = g a + sum g (UNIV - {a})" "sum f UNIV = f a + sum f (UNIV - {a})"
    by (simp_all add: sum.remove)
  moreover have "sum g (UNIV - {a}) = sum f (UNIV - {a})"
    by (rule sum.cong) (auto simp: assms)
  ultimately show ?thesis by simp
qed

lemma total_supply_set_account:
  "total_supply (set_account a v L) + balance_at L a = total_supply L + unat (acc_balance v)"
  unfolding total_supply_def
  using sum_change [of a "balance_at (set_account a v L)" "balance_at L"] by simp

lemma total_supply_set_other [simp]:
  "total_supply (set_pool p w L) = total_supply L"
  "total_supply (set_stake k x L) = total_supply L"
  by (simp_all add: total_supply_def)

lemma pool_stake_set_stake:
  "pool_stake (set_stake (a, p) x L) p + staked_at L a p = pool_stake L p + unat (sa_balance x)"
  unfolding pool_stake_def
  using sum_change [of a "\<lambda>b. staked_at (set_stake (a, p) x L) b p" "\<lambda>b. staked_at L b p"] by simp

lemma pool_stake_set_other [simp]:
  "pool_stake (set_pool q w L) p = pool_stake L p"
  "pool_stake (set_account a v L) p = pool_stake L p"
  by (simp_all add: pool_stake_def)

section \<open>Specifications\<close>

definition transfer_spec ::
  "address \<Rightarrow> address \<Rightarrow> balance \<Rightarrow> ledger \<Rightarrow> (error + unit) \<times> ledger" where
  "transfer_spec from_a to_a amount L =
     (case l_account L from_a of
        Inl e \<Rightarrow> (Inl e, L)
      | Inr f \<Rightarrow>
         (if acc_balance f < amount
          then (Inl (TransferInsufficient from_a (acc_balance f) amount), L)
          else if from_a = to_a then (Inr (), L)
          else let t = (case l_account L to_a of Inr t \<Rightarrow> t | Inl _ \<Rightarrow> account_new to_a) in
            if unat (acc_balance t) + unat amount < 2 ^ 128
            then (Inr (), set_account to_a (t\<lparr>acc_balance := acc_balance t + amount\<rparr>)
                           (set_account from_a (f\<lparr>acc_balance := acc_balance f - amount\<rparr>) L))
            else (Inl (TransferOverflow to_a (acc_balance t) amount), L)))"

lemma set_account_same [simp]: "l_account L a = Inr v \<Longrightarrow> set_account a v L = L"
  by (simp add: set_account_def fun_upd_idem)

lemma set_account_twice [simp]: "set_account a v (set_account a w L) = set_account a v L"
  by (simp add: set_account_def)

lemma set_account_swap:
  "a \<noteq> b \<Longrightarrow> set_account a v (set_account b w L) = set_account b w (set_account a v L)"
  by (simp add: set_account_def fun_upd_twist)

declare transparent_rules [simp]
declare acc.get_and_then [obs_simps] acc.get_attempt [obs_simps] acc.put_and_then [obs_simps]
declare acc.get_transparent [simp] acc.put_transparent [simp]

lemma account_put_snd [simp]:
  "ledger_of (snd (update_account v s)) = set_account (acc_address v) v (ledger_of s)"
  by (rule acc.put_snd)

lemma transfer_obs:
  assumes wf: "wf_ledger (ledger_of s)"
  shows "obs ledger_of (transfer from_a to_a amount) s =
           transfer_spec from_a to_a amount (ledger_of s)"
proof (cases "l_account (ledger_of s) from_a")
  case (Inl e)
  then show ?thesis by (simp add: transfer_def Let_def obs_simps transfer_spec_def)
next
  case f: (Inr f)
  have [simp]: "acc_address f = from_a" using wf_accountD [OF wf f] .
  show ?thesis
  proof (cases "acc_balance f < amount")
    case True
    then have "checked_sub (acc_balance f) amount = None"
      by (simp add: checked_simps word_less_nat_alt)
    with True f show ?thesis
      by (simp add: transfer_def Let_def obs_simps transfer_spec_def)
  next
    case False
    then have sub: "checked_sub (acc_balance f) amount = Some (acc_balance f - amount)"
      by (simp add: checked_sub_def word_less_nat_alt)
    have undo: "checked_add (acc_balance f - amount) amount = Some (acc_balance f)"
      using False by (simp add: checked_simps unat_sub word_less_nat_alt word_le_nat_alt)
    note defs = transfer_def Let_def transfer_spec_def obs_simps
    consider (self) "from_a = to_a" | (fresh) e where "from_a \<noteq> to_a" "l_account (ledger_of s) to_a = Inl e"
      | (other) t where "from_a \<noteq> to_a" "l_account (ledger_of s) to_a = Inr t"
      by (cases "l_account (ledger_of s) to_a") auto
    then show ?thesis
    proof cases
      case self
      with f sub undo False show ?thesis
        by (simp add: defs acc.put_obs)
    next
      case fresh
      then show ?thesis using f sub False unat_bounded [of amount]
        by (simp add: defs acc.put_obs account_new_def checked_add_def set_account_swap)
    next
      case other
      then have "acc_address t = to_a" using wf_accountD [OF wf] by blast
      with other f sub False show ?thesis
        by (simp add: defs acc.put_obs checked_add_def)
    qed
  qed
qed


lemma wf_transfer_spec:
  assumes "wf_ledger L" shows "wf_ledger (snd (transfer_spec a b n L))"
  using assms
  by (auto simp: transfer_spec_def Let_def account_new_def intro!: wf_set intro: wf_accountD
      split: sum.splits)

lemma transfer_spec_error:
  "transfer_spec a b n L = (Inl e, L') \<Longrightarrow> L' = L"
  by (auto simp: transfer_spec_def Let_def split: sum.splits if_splits)

lemma balance_fresh:
  "balance_at L a = unat (acc_balance (case l_account L a of Inr t \<Rightarrow> t | Inl _ \<Rightarrow> account_new a))"
  by (simp add: balance_at_def account_new_def split: sum.splits)

lemma transfer_spec_ok:
  assumes "transfer_spec a b n L = (Inr u, L')"
  shows "unat n \<le> balance_at L a"
    and "a \<noteq> b \<Longrightarrow> balance_at L' a = balance_at L a - unat n"
    and "a \<noteq> b \<Longrightarrow> balance_at L' b = balance_at L b + unat n"
    and "c \<noteq> a \<Longrightarrow> c \<noteq> b \<Longrightarrow> l_account L' c = l_account L c"
    and "a = b \<Longrightarrow> L' = L"
    and "L' = L\<lparr>l_account := l_account L'\<rparr>"
    and "total_supply L' = total_supply L"
proof -
  obtain f where f: "l_account L a = Inr f" "\<not> acc_balance f < n"
    using assms by (auto simp: transfer_spec_def split: sum.splits if_splits)
  then have f': "balance_at L a = unat (acc_balance f)" "unat n \<le> unat (acc_balance f)"
    by (simp_all add: balance_at_def word_less_nat_alt)
  then show "unat n \<le> balance_at L a" by simp
  define t where "t = (case l_account L b of Inr t \<Rightarrow> t | Inl _ \<Rightarrow> account_new b)"
  have t: "balance_at L b = unat (acc_balance t)" by (simp add: t_def balance_fresh)
  have run: "(a = b \<and> L' = L) \<or>
    (a \<noteq> b \<and> unat (acc_balance t) + unat n < 2 ^ 128 \<and>
     L' = set_account b (t\<lparr>acc_balance := acc_balance t + n\<rparr>)
            (set_account a (f\<lparr>acc_balance := acc_balance f - n\<rparr>) L))"
    using assms f by (auto simp: transfer_spec_def Let_def t_def split: if_splits)
  have sub: "unat (acc_balance f - n) = unat (acc_balance f) - unat n"
    using f by (simp add: unat_sub word_less_nat_alt word_le_nat_alt)
  have add: "unat (acc_balance t) + unat n < 2 ^ 128 \<Longrightarrow>
      unat (acc_balance t + n) = unat (acc_balance t) + unat n"
    by (simp add: unat_word_ariths)
  show "a \<noteq> b \<Longrightarrow> balance_at L' a = balance_at L a - unat n"
    using run sub f' by auto
  show "a \<noteq> b \<Longrightarrow> balance_at L' b = balance_at L b + unat n"
    using run add t by auto
  show "c \<noteq> a \<Longrightarrow> c \<noteq> b \<Longrightarrow> l_account L' c = l_account L c"
    using run by auto
  show "a = b \<Longrightarrow> L' = L" using run by auto
  show "L' = L\<lparr>l_account := l_account L'\<rparr>" using run by (auto simp: set_account_def)
  show "total_supply L' = total_supply L"
  proof (cases "a = b")
    case False
    define L1 where "L1 = set_account a (f\<lparr>acc_balance := acc_balance f - n\<rparr>) L"
    have L': "L' = set_account b (t\<lparr>acc_balance := acc_balance t + n\<rparr>) L1"
      using run False L1_def by auto
    have 1: "total_supply L1 + unat (acc_balance f) =
               total_supply L + (unat (acc_balance f) - unat n)"
      using total_supply_set_account [of a "f\<lparr>acc_balance := acc_balance f - n\<rparr>" L] f' sub
      by (simp add: L1_def)
    have "balance_at L1 b = unat (acc_balance t)" using False t by (simp add: L1_def)
    then have 2: "total_supply L' + unat (acc_balance t) =
                    total_supply L1 + (unat (acc_balance t) + unat n)"
      using total_supply_set_account [of b "t\<lparr>acc_balance := acc_balance t + n\<rparr>" L1] add run False
      by (simp add: L')
    from 1 2 f' show ?thesis by simp
  qed (use run in auto)
qed

lemma transfer_spec_supply: "total_supply (snd (transfer_spec a b n L)) = total_supply L"
  using transfer_spec_ok(7) [of a b n L] transfer_spec_error [of a b n L]
  by (cases "transfer_spec a b n L"; cases "fst (transfer_spec a b n L)") auto

section \<open>Other balance and nonce operations\<close>

lemma increment_nonce_obs:
  "obs ledger_of (increment_nonce a) s =
     (case l_account (ledger_of s) a of
        Inl e \<Rightarrow> (Inl e, ledger_of s)
      | Inr v \<Rightarrow>
         (case checked_add (acc_nonce v) 1 of
            None \<Rightarrow> (Inl (NonceOverflow a (acc_nonce v)), ledger_of s)
          | Some n \<Rightarrow> (Inr (), set_account (acc_address v) (v\<lparr>acc_nonce := n\<rparr>) (ledger_of s))))"
  by (simp add: increment_nonce_def obs_simps acc.put_obs split: sum.splits option.splits)

lemma mint_obs:
  "obs ledger_of (mint amount a) s =
     (case l_account (ledger_of s) a of
        Inl e \<Rightarrow> (Inl e, ledger_of s)
      | Inr v \<Rightarrow>
         (case checked_add (acc_balance v) amount of
            None \<Rightarrow> (Inl (MintOverflow a (acc_balance v) amount), ledger_of s)
          | Some n \<Rightarrow> (Inr (), set_account (acc_address v) (v\<lparr>acc_balance := n\<rparr>) (ledger_of s))))"
  by (simp add: mint_def obs_simps acc.put_obs split: sum.splits option.splits)

lemma create_account_obs:
  "obs ledger_of (create_account v) s =
     (case l_account (ledger_of s) (acc_address v) of
        Inr _ \<Rightarrow> (Inl (AddressCollision (acc_address v)), ledger_of s)
      | Inl _ \<Rightarrow> (Inr (), set_account (acc_address v) v (ledger_of s)))"
  by (simp add: create_account_def is_valid_account_def obs_simps acc.put_obs split: sum.splits)

lemma total_supply_same_balance:
  assumes "l_account L a = Inr v" and "acc_balance w = acc_balance v"
  shows "total_supply (set_account a w L) = total_supply L"
  using total_supply_set_account [of a w L] assms by (simp add: balance_at_def)

section \<open>Descendants of a state\<close>

text \<open>
  \<open>grows s t\<close>: the state \<open>t\<close> came out of operations on \<open>s\<close>. It reads the same database and has
  a cache entry wherever \<open>s\<close> has one.
\<close>

definition nested_le :: "('i \<rightharpoonup> ('k \<rightharpoonup> 'a)) \<Rightarrow> ('i \<rightharpoonup> ('k \<rightharpoonup> 'a)) \<Rightarrow> bool" where
  "nested_le m m' \<longleftrightarrow>
     dom m \<subseteq> dom m' \<and> (\<forall>i inner inner'. m i = Some inner \<longrightarrow> m' i = Some inner' \<longrightarrow>
                         dom inner \<subseteq> dom inner')"

definition grows :: "updated_state \<Rightarrow> updated_state \<Rightarrow> bool" where
  "grows s t \<longleftrightarrow>
     db_channel t = db_channel s \<and>
     dom (accounts s) \<subseteq> dom (accounts t) \<and>
     dom (contracts s) \<subseteq> dom (contracts t) \<and>
     dom (contract_instances s) \<subseteq> dom (contract_instances t) \<and>
     nested_le (contract_states s) (contract_states t) \<and>
     dom (staking_pools s) \<subseteq> dom (staking_pools t) \<and>
     nested_le (staking_accounts s) (staking_accounts t)"

lemma nested_le_refl [simp]: "nested_le m m"
  by (auto simp: nested_le_def)

lemma nested_le_trans:
  assumes "nested_le m n" and "nested_le n k" shows "nested_le m k"
  unfolding nested_le_def
proof (intro conjI allI impI)
  show "dom m \<subseteq> dom k" using assms unfolding nested_le_def by (meson subset_trans)
  fix i a b assume a: "m i = Some a" and b: "k i = Some b"
  then obtain c where "n i = Some c" using assms(1) by (auto simp: nested_le_def)
  with a b assms show "dom a \<subseteq> dom b" unfolding nested_le_def by (meson subset_trans)
qed

lemma nested_le_put [simp]: "nested_le m (nested_put m i k v)"
  by (auto simp: nested_le_def nested_put_def split: option.splits if_splits)

interpretation gr: frame grows
proof
  show "grows s s" for s by (simp add: grows_def)
  show "grows s u" if "grows s t" "grows t u" for s t u
  proof -
    have "db_channel u = db_channel s" using that by (simp add: grows_def)
    with that show ?thesis unfolding grows_def by (meson nested_le_trans subset_trans)
  qed
qed

declare gr.keeps_rules [simp]

lemma map_add_dom: "dom m \<subseteq> dom m' \<Longrightarrow> m ++ m' = m'"
  by (rule ext) (auto simp: map_add_def dom_def split: option.splits)

lemma nested_merge_le: "nested_le m m' \<Longrightarrow> nested_merge m m' = m'"
proof (rule ext)
  fix i assume le: "nested_le m m'"
  show "nested_merge m m' i = m' i"
  proof (cases "m i")
    case None then show ?thesis by (simp add: nested_merge_def split: option.splits)
  next
    case (Some inner)
    with le obtain inner' where "m' i = Some inner'" "dom inner \<subseteq> dom inner'"
      by (auto simp: nested_le_def)
    with Some show ?thesis by (simp add: nested_merge_def map_add_dom)
  qed
qed

lemma merge_grows:
  assumes "grows s t" shows "merge s t = t"
  using assms by (simp add: merge_def grows_def map_add_dom nested_merge_le)

lemma keeps_get [simp]:
  "keeps grows (get_account a)"
  "keeps grows (get_contract a)"
  "keeps grows (get_contract_instance a)"
  "keeps grows (get_state_key_value a k)"
  "keeps grows (get_staking_pool a)"
  "keeps grows (get_staking_account a b)"
  by (auto simp: keeps_def grows_def get_account_def get_contract_def get_contract_instance_def
      get_state_key_value_def get_staking_pool_def get_staking_account_def
      up_contract.entry_vacant up_instance.entry_vacant up_value.nested_entry_vacant
      up_pool.entry_vacant up_staking.nested_entry_vacant split: option.splits sum.splits)

lemma keeps_put [simp]:
  "keeps grows (update_account v)"
  "keeps grows (store_contract c)"
  "keeps grows (store_contract_instance ci)"
  "keeps grows (store_state_key_value i k b)"
  "keeps grows (delete_state_key_value i k)"
  "keeps grows (update_staking_account w)"
  "keeps grows (put_pool p q)"
  "keeps grows (create_event e)"
  "keeps grows (store_transaction_metadata m)"
  by (auto simp: keeps_def grows_def modify_def update_account_def store_contract_def
      store_contract_instance_def store_state_key_value_def delete_state_key_value_def
      update_staking_account_def put_pool_def create_event_def store_transaction_metadata_def)

lemma keeps_modify_pool [simp]:
  "keeps grows (modify (\<lambda>s. s\<lparr>staking_pools := (staking_pools s)(p \<mapsto> q)\<rparr>))"
  by (auto simp: keeps_def grows_def modify_def)

lemma keeps_composed [simp]:
  "keeps grows (get_balance a)"
  "keeps grows (get_nonce a)"
  "keeps grows (increment_nonce a)"
  "keeps grows (mint n a)"
  "keeps grows (transfer a b n)"
  "keeps grows (create_account v)"
  "keeps grows (create_system_account a)"
  "keeps grows (get_contract_owner a)"
  "keeps grows (is_valid_contract_instance a)"
  "keeps grows (update_staking_pool_block_number p bn)"
  by (simp_all add: get_balance_def get_nonce_def increment_nonce_def mint_def transfer_def Let_def
      create_system_account_def create_account_def is_valid_account_def get_contract_owner_def
      is_valid_contract_instance_def update_staking_pool_block_number_def)

lemma keeps_staking [simp]:
  "keeps grows (stake p a bn n)"
  "keeps grows (un_stake p a bn n)"
  "keeps grows (update_contract ci p bn)"
  "keeps grows (insert_staking_pool pool)"
  "keeps grows (insert_staking_account a p b)"
  "keeps grows (create_pool X a c n bn cio mns mxs mnp mxp per)"
  by (simp_all add: stake_def un_stake_def update_contract_def insert_staking_pool_def
      insert_staking_account_def create_pool_def Let_def split: prod.split)


section \<open>Properties\<close>

definition demo_db :: db where
  "demo_db =
     \<lparr>db_get_account = (\<lambda>a. if a = 1 then Inr ((account_new 1)\<lparr>acc_balance := 100\<rparr>)
                            else if a = 2 then Inr ((account_new 2)\<lparr>acc_balance := 5\<rparr>)
                            else Inl (DbError ''account does not exist'')),
      db_get_contract = (\<lambda>a. if a = 7 then Inr \<lparr>con_address = 7, con_access = 0, con_type = 0,
                                 con_code = [1], con_owner = 1\<rparr>
                             else Inl (DbError ''contract'')),
      db_get_contract_instance = (\<lambda>a. Inl (DbError ''contract instance'')),
      db_get_contract_instance_value = (\<lambda>i k. Inr None),
      db_get_staking_pool = (\<lambda>p. if p = 2
         then Inr (staking_pool_new 2 1 None 0 0 (Some 10) None None (Some 50) None)
         else Inl (DbError ''pool'')),
      db_get_staking_account = (\<lambda>p a. Inl (DbError ''staking account''))\<rparr>"

definition demo_state :: updated_state where
  "demo_state = updated_state_new demo_db"

lemma demo_ledger:
  "l_account (ledger_of demo_state) = db_get_account demo_db"
  "l_contract (ledger_of demo_state) = db_get_contract demo_db"
  "l_pool (ledger_of demo_state) = db_get_staking_pool demo_db"
  "l_stake (ledger_of demo_state) = (\<lambda>(a, p). db_get_staking_account demo_db p a)"
  by (auto simp: ledger_of_def demo_state_def updated_state_new_def nested_get_def fun_eq_iff)

lemma demo_wf: "wf_ledger (ledger_of demo_state)"
  by (auto simp: wf_ledger_def demo_ledger demo_db_def account_new_def staking_pool_new_def
      split: if_splits)

lemma transfer_run:
  "wf_ledger (ledger_of s) \<Longrightarrow> transfer a b n s = (r, t) \<Longrightarrow>
     transfer_spec a b n (ledger_of s) = (r, ledger_of t)"
  using transfer_obs [of s a b n] by (simp add: obs_def)

text \<open>
  C9: \<^verbatim>\<open>UpdatedState::transfer\<close> refines the abstract transfer: on a well-formed ledger its result,
  errors included, and the ledger it leaves are those of \<open>transfer_spec\<close>, whatever the cache holds.
\<close>

theorem transfer_refines_spec:
  assumes "wf_ledger (ledger_of s)"
  shows "fst (transfer from_a to_a amount s) = fst (transfer_spec from_a to_a amount (ledger_of s)) \<and>
         ledger_of (snd (transfer from_a to_a amount s)) =
           snd (transfer_spec from_a to_a amount (ledger_of s))"
  using transfer_obs [OF assms, of from_a to_a amount] by (simp add: obs_def prod_eq_iff)

theorem transfer_refines_spec_witness:
  "fst (transfer 1 3 30 demo_state) = Inr () \<and>
   l_account (ledger_of (snd (transfer 1 3 30 demo_state))) 3 =
     Inr ((account_new 3)\<lparr>acc_balance := 30\<rparr>)"
  using transfer_refines_spec [OF demo_wf, of 1 3 30]
  by (simp add: transfer_spec_def demo_ledger demo_db_def account_new_def)

text \<open>
  The total supply, the sum of the balances of all addresses, is the same after a transfer,
  whether it succeeds or fails.
\<close>

theorem transfer_conserves_supply:
  assumes "wf_ledger (ledger_of s)" and "transfer from_a to_a amount s = (r, s')"
  shows "total_supply (ledger_of s') = total_supply (ledger_of s)"
  using transfer_run [OF assms] transfer_spec_supply [of from_a to_a amount "ledger_of s"] by simp

theorem transfer_conserves_supply_witness:
  "total_supply (ledger_of (snd (transfer 1 2 30 demo_state))) = total_supply (ledger_of demo_state)"
  by (rule transfer_conserves_supply [OF demo_wf prod.collapse [symmetric]])

text \<open>
  A transfer between two different accounts succeeds exactly when the sender exists with a
  balance of at least the amount and the recipient's balance does not overflow; it then moves
  exactly the amount and changes no other account.
\<close>

theorem transfer_moves:
  assumes "wf_ledger (ledger_of s)" and "from_a \<noteq> to_a"
    and "transfer from_a to_a amount s = (r, s')"
  shows "(r = Inr () \<longleftrightarrow>
            (\<exists>v. l_account (ledger_of s) from_a = Inr v) \<and>
            unat amount \<le> balance_at (ledger_of s) from_a \<and>
            balance_at (ledger_of s) to_a + unat amount < 2 ^ 128) \<and>
         (r = Inr () \<longrightarrow>
            balance_at (ledger_of s') from_a = balance_at (ledger_of s) from_a - unat amount \<and>
            balance_at (ledger_of s') to_a = balance_at (ledger_of s) to_a + unat amount \<and>
            (\<forall>c. c \<noteq> from_a \<longrightarrow> c \<noteq> to_a \<longrightarrow>
               l_account (ledger_of s') c = l_account (ledger_of s) c)) \<and>
         (r \<noteq> Inr () \<longrightarrow> ledger_of s' = ledger_of s)"
proof -
  let ?L = "ledger_of s"
  have run: "transfer_spec from_a to_a amount ?L = (r, ledger_of s')"
    by (rule transfer_run [OF assms(1,3)])
  have "(r = Inr () \<longleftrightarrow> (\<exists>v. l_account ?L from_a = Inr v) \<and>
           unat amount \<le> balance_at ?L from_a \<and> balance_at ?L to_a + unat amount < 2 ^ 128)"
    using run assms(2) balance_fresh [of ?L to_a]
    by (auto simp: transfer_spec_def Let_def balance_at_def [of _ from_a] word_less_nat_alt
        split: sum.splits if_splits)
  moreover have "r \<noteq> Inr () \<Longrightarrow> ledger_of s' = ?L"
    using run by (cases r) (auto dest: transfer_spec_error)
  moreover have "r = Inr () \<Longrightarrow>
      balance_at (ledger_of s') from_a = balance_at ?L from_a - unat amount \<and>
      balance_at (ledger_of s') to_a = balance_at ?L to_a + unat amount \<and>
      (\<forall>c. c \<noteq> from_a \<longrightarrow> c \<noteq> to_a \<longrightarrow> l_account (ledger_of s') c = l_account ?L c)"
    using transfer_spec_ok(2-4) [of from_a to_a amount ?L "()" "ledger_of s'"] run assms(2) by simp
  ultimately show ?thesis by blast
qed

theorem transfer_moves_witness:
  "balance_at (ledger_of (snd (transfer 1 2 30 demo_state))) 2 = 35"
proof -
  have "fst (transfer 1 2 30 demo_state) = Inr ()"
    using transfer_obs [OF demo_wf, of 1 2 30]
    by (simp add: obs_def transfer_spec_def demo_ledger demo_db_def account_new_def)
  moreover have "balance_at (ledger_of demo_state) 2 = 5"
    by (simp add: balance_at_def demo_ledger demo_db_def)
  ultimately show ?thesis
    using transfer_moves [OF demo_wf, of 1 2 30 "fst (transfer 1 2 30 demo_state)"
        "snd (transfer 1 2 30 demo_state)"] by simp
qed

text \<open>
  A contract that was read before it is stored keeps its old record: \<^verbatim>\<open>CachedStatus::update\<close>
  on a \<open>Cached\<close> entry overwrites the new value with the cached one.
\<close>

theorem store_contract_after_read_is_lost:
  assumes "contracts s (con_address c) = None"
    and "db_get_contract (db_channel s) (con_address c) = Inr old"
  shows "fst (and_then (get_contract (con_address c)) (\<lambda>_.
               and_then (store_contract c) (\<lambda>_. get_contract (con_address c))) s) = Inr old"
  using assms
  by (simp add: get_contract_def store_contract_def modify_def and_then_def up_contract.entry_vacant
      up_contract.update_read del: cs_update.simps)

theorem store_contract_after_read_is_lost_witness:
  "fst (and_then (get_contract 7) (\<lambda>_.
          and_then (store_contract \<lparr>con_address = 7, con_access = 0, con_type = 0,
              con_code = [2], con_owner = 1\<rparr>) (\<lambda>_. get_contract 7)) demo_state) =
     Inr \<lparr>con_address = 7, con_access = 0, con_type = 0, con_code = [1], con_owner = 1\<rparr>"
  using store_contract_after_read_is_lost [of demo_state "\<lparr>con_address = 7, con_access = 0,
      con_type = 0, con_code = [2], con_owner = 1\<rparr>"]
  by (simp add: demo_state_def updated_state_new_def demo_db_def)

end
