(* ===== verification/L1X_Staking.thy ===== *)
theory L1X_Staking
  imports L1X_Ledger
begin

text \<open>
  The staking operations of \<^verbatim>\<open>UpdatedState\<close> (\<^verbatim>\<open>stake\<close>, \<^verbatim>\<open>un_stake\<close>, \<^verbatim>\<open>create_pool\<close>) as functions
  on ledgers, and the solvency of a pool: the sum of the stakes recorded for a pool never exceeds
  the balance of the pool's account, so that a staker can always withdraw.
\<close>

section \<open>Specifications\<close>

definition stake_check :: "staking_pool \<Rightarrow> error + account \<Rightarrow> balance \<Rightarrow> error + unit" where
  "stake_check pool acct amount =
     (if (case sp_min_stake pool of None \<Rightarrow> False | Some m \<Rightarrow> m > amount)
      then Inl (BelowMinStake amount (the (sp_min_stake pool)))
      else if (case sp_max_stake pool of None \<Rightarrow> False | Some m \<Rightarrow> m < amount)
      then Inl (AboveMaxStake amount (the (sp_max_stake pool)))
      else case sp_max_pool_balance pool of
             None \<Rightarrow> Inr ()
           | Some m \<Rightarrow>
              (case acct of
                 Inl e \<Rightarrow> Inl e
               | Inr v \<Rightarrow>
                   if unat m - unat amount < unat (acc_balance v)
                   then Inl (MaxPoolBalance m (acc_balance v) amount) else Inr ()))"

definition staker :: "ledger \<Rightarrow> address \<Rightarrow> address \<Rightarrow> staking_account" where
  "staker L a p = (case l_stake L (a, p) of Inr v \<Rightarrow> v | Inl _ \<Rightarrow> staking_account_new a p)"

definition stake_spec ::
  "address \<Rightarrow> address \<Rightarrow> block_number \<Rightarrow> balance \<Rightarrow> ledger \<Rightarrow> (error + unit) \<times> ledger" where
  "stake_spec p a n amount L =
     (case l_pool L p of
        Inl e \<Rightarrow> (Inl e, L)
      | Inr pool \<Rightarrow>
         (case stake_check pool (l_account L p) amount of
            Inl e \<Rightarrow> (Inl e, L)
          | Inr _ \<Rightarrow>
             (case transfer_spec a p amount L of
                (Inl e, L1) \<Rightarrow> (Inl e, L1)
              | (Inr _, L1) \<Rightarrow>
                  let sa = staker L a p in
                  if unat (sa_balance sa) + unat amount < 2 ^ 128
                  then (Inr (), set_pool p (pool\<lparr>sp_updated_block_number := n\<rparr>)
                          (set_stake (a, p) (sa\<lparr>sa_balance := sa_balance sa + amount\<rparr>) L1))
                  else (Inl (StakeOverflow a (sa_balance sa) amount), L1))))"

definition un_stake_amount :: "staking_pool \<Rightarrow> balance \<Rightarrow> balance \<Rightarrow> balance" where
  "un_stake_amount pool staked amount =
     (case sp_min_stake pool of
        None \<Rightarrow> amount
      | Some m \<Rightarrow> if amount < staked \<and> staked - amount < m then staked else amount)"

definition un_stake_spec ::
  "address \<Rightarrow> address \<Rightarrow> block_number \<Rightarrow> balance \<Rightarrow> ledger \<Rightarrow> (error + unit) \<times> ledger" where
  "un_stake_spec p a n amount L =
     (case l_pool L p of
        Inl e \<Rightarrow> (Inl e, L)
      | Inr pool \<Rightarrow>
         (case l_stake L (a, p) of
            Inl e \<Rightarrow> (Inl e, L)
          | Inr sa \<Rightarrow>
             (if sa_balance sa < amount
              then (Inl (UnstakeInsufficient a (sa_balance sa) amount), L)
              else let out = un_stake_amount pool (sa_balance sa) amount in
                transfer_spec p a out
                  (set_pool p (pool\<lparr>sp_updated_block_number := n\<rparr>)
                    (set_stake (a, p) (sa\<lparr>sa_balance := sa_balance sa - out\<rparr>) L)))))"

section \<open>Refinement\<close>

declare pool.get_and_then [obs_simps] pool.get_attempt [obs_simps]
declare pool.get_transparent [simp]

lemma put_pool_transparent [simp]: "transparent ledger_of (put_pool p v)"
  using pool.put_transparent [of "(p, v)"] by simp

lemma put_pool_obs [simp]: "obs ledger_of (put_pool p v) s = (Inr (), set_pool p v (ledger_of s))"
  using pool.put_obs [of "(p, v)"] by simp

lemma stake_get_and_then [obs_simps]:
  "(\<And>x. transparent ledger_of (f x)) \<Longrightarrow>
     obs ledger_of (and_then (get_staking_account a p) f) s =
       (case l_stake (ledger_of s) (a, p) of
          Inl e \<Rightarrow> (Inl e, ledger_of s) | Inr x \<Rightarrow> obs ledger_of (f x) s)"
  using stk.get_and_then [of f "(a, p)"] by simp

lemma stake_get_attempt [obs_simps]:
  "(\<And>x. transparent ledger_of (f x)) \<Longrightarrow>
     obs ledger_of (attempt (get_staking_account a p) f) s =
       obs ledger_of (f (l_stake (ledger_of s) (a, p))) s"
  using stk.get_attempt [of f "(a, p)"] by simp

lemma stake_get_transparent [simp]: "transparent ledger_of (get_staking_account a p)"
  using stk.get_transparent [of "(a, p)"] by simp

declare stk.put_transparent [simp] stk.put_and_then [obs_simps]

lemma stake_put_snd [simp]:
  "ledger_of (snd (update_staking_account v s)) =
     set_stake (sa_account_address v, sa_pool_address v) v (ledger_of s)"
  by (rule stk.put_snd)

lemma pool_block_number_obs:
  "obs ledger_of (update_staking_pool_block_number p n) s =
     (case l_pool (ledger_of s) p of
        Inl e \<Rightarrow> (Inl e, ledger_of s)
      | Inr pool \<Rightarrow> (Inr (), set_pool p (pool\<lparr>sp_updated_block_number := n\<rparr>) (ledger_of s)))"
  by (simp add: update_staking_pool_block_number_def obs_simps split: sum.splits)

lemma transfer_transparent [simp]: "transparent ledger_of (transfer a b n)"
  by (simp add: transfer_def Let_def)

lemma pool_block_number_transparent [simp]:
  "transparent ledger_of (update_staking_pool_block_number p n)"
  by (simp add: update_staking_pool_block_number_def)

lemma staker_addresses:
  assumes "wf_ledger L"
  shows "sa_account_address (staker L a p) = a" "sa_pool_address (staker L a p) = p"
  using assms by (auto simp: staker_def staking_account_new_def dest: wf_stakeD split: sum.splits)

lemma saturating_less:
  "saturating_sub m n < b \<longleftrightarrow> unat m - unat n < unat b"
  by (simp add: word_less_nat_alt checked_simps)

lemma transfer_spec_frame:
  "transfer_spec a b n L = (r, L1) \<Longrightarrow> L1 = L\<lparr>l_account := l_account L1\<rparr>"
  by (cases r) (auto dest: transfer_spec_ok(6) transfer_spec_error)

lemma transfer_spec_same:
  assumes "transfer_spec a b n L = (r, L1)"
  shows "l_stake L1 = l_stake L" "l_pool L1 = l_pool L"
  using transfer_spec_frame [OF assms] by (metis ledger.select_convs ledger.surjective
    ledger.update_convs(1))+

text \<open>The part of \<^verbatim>\<open>stake\<close> that follows its three limits.\<close>

definition stake_deposit :: "address \<Rightarrow> address \<Rightarrow> block_number \<Rightarrow> balance \<Rightarrow> unit state_op" where
  "stake_deposit p a n amount =
     and_then (transfer a p amount) (\<lambda>_.
     and_then (attempt (get_staking_account a p) (\<lambda>r. ok (case r of
                 Inr acc \<Rightarrow> acc | Inl _ \<Rightarrow> staking_account_new a p))) (\<lambda>sa.
     and_then (ok_or (checked_add (sa_balance sa) amount)
                (StakeOverflow (sa_account_address sa) (sa_balance sa) amount)) (\<lambda>b.
     and_then (update_staking_account (sa\<lparr>sa_balance := b\<rparr>)) (\<lambda>_.
       update_staking_pool_block_number p n))))"

lemma stake_deposit_obs:
  assumes wf: "wf_ledger (ledger_of s)" and pool: "l_pool (ledger_of s) p = Inr pool"
  shows "obs ledger_of (stake_deposit p a n amount) s =
      (case transfer_spec a p amount (ledger_of s) of
         (Inl e, L1) \<Rightarrow> (Inl e, L1)
       | (Inr _, L1) \<Rightarrow>
           let sa = staker (ledger_of s) a p in
           if unat (sa_balance sa) + unat amount < 2 ^ 128
           then (Inr (), set_pool p (pool\<lparr>sp_updated_block_number := n\<rparr>)
                   (set_stake (a, p) (sa\<lparr>sa_balance := sa_balance sa + amount\<rparr>) L1))
           else (Inl (StakeOverflow a (sa_balance sa) amount), L1))"
proof -
  obtain r L1 where tr: "transfer_spec a p amount (ledger_of s) = (r, L1)" by fastforce
  have run: "fst (transfer a p amount s) = r" "ledger_of (snd (transfer a p amount s)) = L1"
    using transfer_obs [OF wf, of a p amount] tr by (simp_all add: obs_def)
  show ?thesis
    by (cases r)
      (simp_all add: stake_deposit_def obs_and_then [of _ "transfer a p amount"] tr run obs_simps
        staker_def [symmetric] Let_def checked_add_def pool_block_number_obs transfer_spec_same [OF tr] pool
        staker_addresses [OF wf])
qed

lemma stake_obs:
  assumes wf: "wf_ledger (ledger_of s)"
  shows "obs ledger_of (stake p a n amount) s = stake_spec p a n amount (ledger_of s)"
proof -
  have [simp]: "transparent ledger_of (stake_deposit p a n amount)"
    by (simp add: stake_deposit_def)
  have "obs ledger_of (stake p a n amount) s =
      (case l_pool (ledger_of s) p of
        Inl e \<Rightarrow> (Inl e, ledger_of s)
      | Inr pool \<Rightarrow>
         (case stake_check pool (l_account (ledger_of s) p) amount of
            Inl e \<Rightarrow> (Inl e, ledger_of s)
          | Inr _ \<Rightarrow> obs ledger_of (stake_deposit p a n amount) s))"
    unfolding stake_def stake_deposit_def [symmetric]
    by (auto simp: obs_simps get_balance_def stake_check_def saturating_less
        split: sum.splits option.splits)
  then show ?thesis
    by (simp add: stake_spec_def stake_deposit_obs [OF wf] split: sum.splits)
qed

lemma un_stake_adjust:
  assumes "\<not> staked < amount"
  shows "un_stake_adjust pool staked amount (staked - amount) =
           (un_stake_amount pool staked amount, staked - un_stake_amount pool staked amount)"
proof -
  have "amount < staked \<longleftrightarrow> 0 < staked - amount"
    using assms by (auto simp: word_gt_0)
  then show ?thesis
    by (auto simp: un_stake_adjust_def un_stake_amount_def Let_def split: option.splits)
qed

lemma un_stake_obs:
  assumes wf: "wf_ledger (ledger_of s)"
  shows "obs ledger_of (un_stake p a n amount) s = un_stake_spec p a n amount (ledger_of s)"
proof -
  have sub: "\<not> b < amount \<Longrightarrow> checked_sub b amount = Some (b - amount)"
    "b < amount \<Longrightarrow> checked_sub b amount = None" for b
    by (simp_all add: checked_sub_def word_less_nat_alt)
  have pay: "obs ledger_of (and_then (update_staking_account (sa\<lparr>sa_balance := b\<rparr>)) (\<lambda>_.
        and_then (update_staking_pool_block_number p n) (\<lambda>_. transfer p a out))) s =
      transfer_spec p a out (set_pool p (pool\<lparr>sp_updated_block_number := n\<rparr>)
        (set_stake (a, p) (sa\<lparr>sa_balance := b\<rparr>) (ledger_of s)))"
    if pool: "l_pool (ledger_of s) p = Inr pool" and sa: "l_stake (ledger_of s) (a, p) = Inr sa"
    for pool sa b out
  proof -
    define t where "t = snd (update_staking_account (sa\<lparr>sa_balance := b\<rparr>) s)"
    have t: "ledger_of t = set_stake (a, p) (sa\<lparr>sa_balance := b\<rparr>) (ledger_of s)"
      using wf_stakeD [OF wf sa] by (simp add: t_def)
    define u where "u = snd (update_staking_pool_block_number p n t)"
    have u: "fst (update_staking_pool_block_number p n t) = Inr ()"
      "ledger_of u = set_pool p (pool\<lparr>sp_updated_block_number := n\<rparr>) (ledger_of t)"
      using pool_block_number_obs [of p n t] pool by (simp_all add: t u_def obs_def)
    have "wf_ledger (ledger_of u)"
      using wf wf_stakeD [OF wf sa] wf_poolD [OF wf pool] by (simp add: u t)
    then show ?thesis
      using transfer_obs [of u p a out]
      by (simp add: obs_simps t_def [symmetric] obs_and_then [of _ "update_staking_pool_block_number p n"]
          u u_def [symmetric] t)
  qed
  show ?thesis
    by (auto simp: un_stake_def un_stake_spec_def obs_simps Let_def sub un_stake_adjust pay
        simp del: stk.put_and_then split: sum.splits)
qed

section \<open>Solvency of pools\<close>

definition solvent :: "address \<Rightarrow> ledger \<Rightarrow> bool" where
  "solvent p L \<longleftrightarrow> pool_stake L p \<le> balance_at L p"

lemma staked_at_staker: "staked_at L a p = unat (sa_balance (staker L a p))"
  by (simp add: staked_at_def staker_def staking_account_new_def split: sum.splits)

lemma pool_stake_set_other_pool:
  "q \<noteq> p \<Longrightarrow> pool_stake (set_stake (a, p) x L) q = pool_stake L q"
  by (simp add: pool_stake_def)

lemma transfer_spec_pool_stake:
  "transfer_spec a b n L = (r, L') \<Longrightarrow> pool_stake L' q = pool_stake L q"
  by (drule transfer_spec_same(1)) (simp add: pool_stake_def staked_at_def)

lemma transfer_spec_balance_mono:
  assumes "transfer_spec a b n L = (r, L')" and "q \<noteq> a"
  shows "balance_at L q \<le> balance_at L' q"
proof (cases r)
  case (Inl e)
  with assms show ?thesis by (auto dest: transfer_spec_error)
next
  case (Inr u)
  with assms have tr: "transfer_spec a b n L = (Inr (), L')" by simp
  show ?thesis
    using transfer_spec_ok(3,4,5) [OF tr] assms(2)
    by (cases "a = b"; cases "q = b") (auto simp: balance_at_def)
qed

lemma stake_spec_solvent:
  assumes "stake_spec p a n amount L = (r, L')" and "solvent q L" and "a \<noteq> q"
  shows "solvent q L'"
proof (cases "l_pool L p")
  case (Inl e) with assms show ?thesis by (simp add: stake_spec_def)
next
  case pool: (Inr pool)
  obtain r1 L1 where tr: "transfer_spec a p amount L = (r1, L1)" by fastforce
  have L1: "pool_stake L1 q = pool_stake L q" "balance_at L q \<le> balance_at L1 q"
    using transfer_spec_pool_stake [OF tr] transfer_spec_balance_mono [OF tr, of q] assms(3)
    by auto
  then have base: "solvent q L1" using assms(2) by (simp add: solvent_def)
  define sa where "sa = staker L a p"
  define new where "new = sa\<lparr>sa_balance := sa_balance sa + amount\<rparr>"
  consider "L' = L" | "L' = L1"
    | (full) "r1 = Inr ()" "unat (sa_balance sa) + unat amount < 2 ^ 128"
       "L' = set_pool p (pool\<lparr>sp_updated_block_number := n\<rparr>) (set_stake (a, p) new L1)"
    using assms(1) tr pool
    by (auto simp: stake_spec_def Let_def sa_def [symmetric] new_def split: sum.splits if_splits)
  then show ?thesis
  proof cases
    case full
    have "unat (sa_balance new) = staked_at L a p + unat amount"
      using full(2) by (simp add: new_def staked_at_staker sa_def unat_word_ariths)
    moreover have "staked_at L1 a p = staked_at L a p"
      by (simp add: staked_at_def transfer_spec_same [OF tr])
    ultimately have ps: "pool_stake (set_stake (a, p) new L1) p = pool_stake L1 p + unat amount"
      using pool_stake_set_stake [of a p new L1] by simp
    have "balance_at L1 p = balance_at L p + unat amount" if "q = p"
      using transfer_spec_ok(3) [of a p amount L "()" L1] tr full(1) assms(3) that by simp
    then show ?thesis
      using base ps assms(2) L1(1) full(3) pool_stake_set_other_pool [of q p a new L1]
      by (cases "q = p") (auto simp: solvent_def)
  qed (use assms(2) base in auto)
qed

lemma un_stake_amount_bounds:
  assumes "\<not> staked < amount"
  shows "unat (un_stake_amount pool staked amount) \<le> unat staked"
    and "unat amount \<le> unat (un_stake_amount pool staked amount)"
    and "sp_min_stake pool = Some m \<Longrightarrow>
           staked - un_stake_amount pool staked amount = 0 \<or>
           m \<le> staked - un_stake_amount pool staked amount"
proof -
  have "amount \<le> staked" using assms by simp
  then have sub: "unat (staked - amount) = unat staked - unat amount" "unat amount \<le> unat staked"
    by (simp_all add: unat_sub word_le_nat_alt)
  then show "unat (un_stake_amount pool staked amount) \<le> unat staked"
    and "unat amount \<le> unat (un_stake_amount pool staked amount)"
    by (simp_all add: un_stake_amount_def split: option.splits)
  show "staked - un_stake_amount pool staked amount = 0 \<or>
          m \<le> staked - un_stake_amount pool staked amount" if "sp_min_stake pool = Some m"
    using that sub
    by (auto simp: un_stake_amount_def word_less_nat_alt word_le_nat_alt unat_eq_zero [symmetric]
        simp del: right_minus_eq)
qed

lemma un_stake_spec_cases:
  assumes "un_stake_spec p a n amount L = (r, L')"
  obtains "L' = L"
  | pool sa out L1 where "l_pool L p = Inr pool" "l_stake L (a, p) = Inr sa"
      "\<not> sa_balance sa < amount" "out = un_stake_amount pool (sa_balance sa) amount"
      "L1 = set_pool p (pool\<lparr>sp_updated_block_number := n\<rparr>)
              (set_stake (a, p) (sa\<lparr>sa_balance := sa_balance sa - out\<rparr>) L)"
      "transfer_spec p a out L1 = (r, L')"
  using assms by (auto simp: un_stake_spec_def Let_def split: sum.splits if_splits)

lemma un_stake_spec_solvent:
  assumes "un_stake_spec p a n amount L = (r, L')" and "solvent q L" and "a \<noteq> q"
  shows "solvent q L'"
  using assms(1)
proof (cases rule: un_stake_spec_cases)
  case 1 with assms(2) show ?thesis by simp
next
  case (2 pool sa out L1)
  have le: "unat out \<le> unat (sa_balance sa)"
    using un_stake_amount_bounds(1) [OF 2(3)] 2(4) by simp
  then have out: "unat (sa_balance sa - out) = unat (sa_balance sa) - unat out"
    by (simp add: unat_sub word_le_nat_alt)
  have sa: "staked_at L a p = unat (sa_balance sa)" by (simp add: staked_at_def 2)
  have ps: "pool_stake L1 p + unat out = pool_stake L p"
    using pool_stake_set_stake [of a p "sa\<lparr>sa_balance := sa_balance sa - out\<rparr>" L] out le sa
    by (simp add: 2(5))
  have tr: "pool_stake L' q = pool_stake L1 q" by (rule transfer_spec_pool_stake [OF 2(6)])
  show ?thesis
  proof (cases "q = p")
    case True
    have "balance_at L p \<le> balance_at L' p + unat out"
    proof (cases r)
      case (Inl e) with 2(5,6) show ?thesis by (auto dest: transfer_spec_error)
    next
      case (Inr u)
      then show ?thesis
        using transfer_spec_ok(1,2) [of p a out L1 u L'] 2(5,6) assms(3) True by simp
    qed
    with ps tr assms(2) True show ?thesis by (simp add: solvent_def)
  next
    case False
    have "balance_at L q \<le> balance_at L' q"
      using transfer_spec_balance_mono [OF 2(6) False] by (simp add: 2(5))
    moreover have "pool_stake L' q = pool_stake L q"
      using tr False by (simp add: 2(5) pool_stake_set_other_pool)
    ultimately show ?thesis using assms(2) by (simp add: solvent_def)
  qed
qed

lemma stake_run:
  "wf_ledger (ledger_of s) \<Longrightarrow> stake p a n m s = (r, t) \<Longrightarrow>
     stake_spec p a n m (ledger_of s) = (r, ledger_of t)"
  using stake_obs [of s p a n m] by (simp add: obs_def)

lemma un_stake_run:
  "wf_ledger (ledger_of s) \<Longrightarrow> un_stake p a n m s = (r, t) \<Longrightarrow>
     un_stake_spec p a n m (ledger_of s) = (r, ledger_of t)"
  using un_stake_obs [of s p a n m] by (simp add: obs_def)

section \<open>Properties\<close>

lemma demo_solvent: "solvent 2 (ledger_of demo_state)"
  by (simp add: solvent_def pool_stake_def staked_at_def demo_ledger demo_db_def)

text \<open>
  C18: \<^verbatim>\<open>UpdatedState::stake\<close> and \<^verbatim>\<open>UpdatedState::un_stake\<close> refine their abstract specifications on
  every branch: the same result, errors included, and the same ledger.
\<close>

theorem staking_refines_spec:
  assumes "wf_ledger (ledger_of s)"
  shows "obs ledger_of (stake p a n amount) s = stake_spec p a n amount (ledger_of s) \<and>
         obs ledger_of (un_stake p a n amount) s = un_stake_spec p a n amount (ledger_of s)"
  using stake_obs [OF assms] un_stake_obs [OF assms] by simp

theorem staking_refines_spec_witness:
  "fst (stake 2 1 7 20 demo_state) = Inr () \<and>
   fst (un_stake 2 1 7 20 demo_state) = Inl (DbError ''staking account'')"
  using staking_refines_spec [OF demo_wf, of 2 1 7 20]
  by (simp add: obs_def stake_spec_def un_stake_spec_def stake_check_def transfer_spec_def staker_def
      staking_account_new_def demo_ledger demo_db_def staking_pool_new_def account_new_def prod_eq_iff)

text \<open>
  A successful \<^verbatim>\<open>un_stake\<close> pays out exactly what it takes off the stake, never less than the
  amount asked for, and leaves a stake that is empty or at least the pool's minimum.
\<close>

theorem un_stake_leaves_no_dust:
  assumes "wf_ledger (ledger_of s)" and "a \<noteq> p" and "un_stake p a n amount s = (Inr (), s')"
  shows "\<exists>out. unat amount \<le> out \<and>
           staked_at (ledger_of s) a p = staked_at (ledger_of s') a p + out \<and>
           balance_at (ledger_of s') a = balance_at (ledger_of s) a + out \<and>
           balance_at (ledger_of s) p = balance_at (ledger_of s') p + out \<and>
           (\<forall>pool m. l_pool (ledger_of s) p = Inr pool \<longrightarrow> sp_min_stake pool = Some m \<longrightarrow>
              staked_at (ledger_of s') a p = 0 \<or> unat m \<le> staked_at (ledger_of s') a p)"
proof -
  let ?L = "ledger_of s" and ?L' = "ledger_of s'"
  obtain pool sa where pool: "l_pool ?L p = Inr pool" and sa: "l_stake ?L (a, p) = Inr sa"
    and enough: "\<not> sa_balance sa < amount"
    and tr: "transfer_spec p a (un_stake_amount pool (sa_balance sa) amount)
        (set_pool p (pool\<lparr>sp_updated_block_number := n\<rparr>) (set_stake (a, p)
          (sa\<lparr>sa_balance := sa_balance sa - un_stake_amount pool (sa_balance sa) amount\<rparr>) ?L)) =
        (Inr (), ?L')"
    using un_stake_run [OF assms(1,3)]
    by (auto simp: un_stake_spec_def Let_def split: sum.splits if_splits)
  define out where "out = un_stake_amount pool (sa_balance sa) amount"
  note bounds = un_stake_amount_bounds [OF enough, of pool, folded out_def]
  have left: "unat (sa_balance sa - out) = unat (sa_balance sa) - unat out"
    using bounds(1) by (simp add: unat_sub word_le_nat_alt)
  have st: "staked_at ?L' a p = unat (sa_balance sa - out)"
    using transfer_spec_same(1) [OF tr] by (simp add: staked_at_def out_def)
  note mv = transfer_spec_ok(1-3) [OF tr, folded out_def]
  show ?thesis
  proof (intro exI conjI allI impI)
    show "unat amount \<le> unat out" by (rule bounds)
    show "staked_at ?L a p = staked_at ?L' a p + unat out"
      using bounds(1) by (simp add: st left) (simp add: staked_at_def sa)
    show "balance_at ?L' a = balance_at ?L a + unat out" using mv(3) assms(2) by simp
    show "balance_at ?L p = balance_at ?L' p + unat out" using mv(1,2) assms(2) by simp
    fix pool' m assume "l_pool ?L p = Inr pool'" "sp_min_stake pool' = Some m"
    then show "staked_at ?L' a p = 0 \<or> unat m \<le> staked_at ?L' a p"
      using bounds(3) [of m] pool st by (auto simp: word_le_nat_alt)
  qed
qed


definition demo_staked :: updated_state where
  "demo_staked = snd (stake 2 1 7 20 demo_state)"

lemma demo_staked_ledger:
  "ledger_of demo_staked =
     set_pool 2 ((staking_pool_new 2 1 None 0 0 (Some 10) None None (Some 50) None)
                   \<lparr>sp_updated_block_number := 7\<rparr>)
      (set_stake (1, 2) \<lparr>sa_account_address = 1, sa_pool_address = 2, sa_balance = 20\<rparr>
        (set_account 2 ((account_new 2)\<lparr>acc_balance := 25\<rparr>)
          (set_account 1 ((account_new 1)\<lparr>acc_balance := 80\<rparr>) (ledger_of demo_state))))"
  using stake_obs [OF demo_wf, of 2 1 7 20]
  by (simp add: obs_def demo_staked_def stake_spec_def stake_check_def transfer_spec_def staker_def
      staking_account_new_def demo_ledger demo_db_def staking_pool_new_def account_new_def
      prod_eq_iff)

lemma demo_staked_wf: "wf_ledger (ledger_of demo_staked)"
  by (simp add: demo_staked_ledger demo_wf staking_pool_new_def account_new_def)

lemma demo_un_stake: "un_stake 2 1 8 15 demo_staked = (Inr (), snd (un_stake 2 1 8 15 demo_staked))"
  using un_stake_obs [OF demo_staked_wf, of 2 1 8 15]
  by (simp add: obs_def un_stake_spec_def demo_staked_ledger un_stake_amount_def staking_pool_new_def
      transfer_spec_def account_new_def prod_eq_iff)

theorem un_stake_leaves_no_dust_witness:
  "\<exists>out \<ge> 15. staked_at (ledger_of demo_staked) 1 2 =
     staked_at (ledger_of (snd (un_stake 2 1 8 15 demo_staked))) 1 2 + out"
  using un_stake_leaves_no_dust [OF demo_staked_wf _ demo_un_stake] by auto

text \<open>
  C35: A staker can always withdraw: if the pool is solvent and exists, its account exists, the
  amount is at most the stake and the payout cannot overflow the staker's balance, \<^verbatim>\<open>un_stake\<close>
  succeeds.
\<close>

theorem un_stake_succeeds:
  assumes "wf_ledger (ledger_of s)" and "solvent p (ledger_of s)" and "a \<noteq> p"
    and "l_pool (ledger_of s) p = Inr pool" and "l_account (ledger_of s) p = Inr v"
    and "l_stake (ledger_of s) (a, p) = Inr sa" and "amount \<le> sa_balance sa"
    and "balance_at (ledger_of s) a + unat (sa_balance sa) < 2 ^ 128"
  shows "fst (un_stake p a n amount s) = Inr ()"
proof -
  let ?L = "ledger_of s"
  define out where "out = un_stake_amount pool (sa_balance sa) amount"
  have enough: "\<not> sa_balance sa < amount" using assms(7) by simp
  have out: "unat out \<le> unat (sa_balance sa)"
    using un_stake_amount_bounds(1) [OF enough] by (simp add: out_def)
  have "staked_at ?L a p \<le> pool_stake ?L p"
    unfolding pool_stake_def by (rule member_le_sum) auto
  then have "unat (sa_balance sa) \<le> balance_at ?L p"
    using assms(2,6) by (simp add: solvent_def staked_at_def)
  with out have "\<not> acc_balance v < out"
    using assms(5) by (simp add: balance_at_def word_less_nat_alt)
  moreover have "unat (acc_balance (case l_account ?L a of Inr t \<Rightarrow> t | Inl _ \<Rightarrow> account_new a)) +
      unat out < 2 ^ 128"
    using out assms(8) balance_fresh [of ?L a] by simp
  ultimately show ?thesis
    using un_stake_obs [OF assms(1), of p a n amount] assms(3-6) enough
    by (simp add: obs_def un_stake_spec_def Let_def out_def [symmetric] transfer_spec_def prod_eq_iff)
qed

theorem un_stake_succeeds_witness: "fst (un_stake 2 1 8 15 demo_staked) = Inr ()"
proof (rule un_stake_succeeds [OF demo_staked_wf, where
      sa = "\<lparr>sa_account_address = 1, sa_pool_address = 2, sa_balance = 20\<rparr>"])
  show "solvent 2 (ledger_of demo_staked)"
    using stake_spec_solvent [OF stake_run [OF demo_wf prod.collapse [symmetric]] demo_solvent, of 1]
    by (simp add: demo_staked_def)
qed (simp_all add: demo_staked_ledger staking_pool_new_def account_new_def balance_at_def)

text \<open>
  The limit checks of \<^verbatim>\<open>stake\<close>. A stake that succeeds lies within the pool's minimum and
  maximum stake; with a maximal pool balance the new balance stays within it, except when the pool
  was empty: \<^verbatim>\<open>max_pool_balance.saturating_sub(amount) < pool_balance\<close> is false for a pool without
  funds whatever the amount, so such a stake exceeds the maximum.
\<close>

theorem stake_respects_limits_except_first:
  assumes "wf_ledger (ledger_of s)" and "a \<noteq> p" and "l_pool (ledger_of s) p = Inr pool"
    and "stake p a n amount s = (Inr (), s')"
  shows "(\<forall>m. sp_min_stake pool = Some m \<longrightarrow> m \<le> amount) \<and>
         (\<forall>m. sp_max_stake pool = Some m \<longrightarrow> amount \<le> m) \<and>
         (\<forall>m. sp_max_pool_balance pool = Some m \<longrightarrow>
            balance_at (ledger_of s') p \<le> unat m \<or>
            (balance_at (ledger_of s) p = 0 \<and> balance_at (ledger_of s') p = unat amount))"
proof -
  let ?L = "ledger_of s"
  obtain L1 where chk: "stake_check pool (l_account ?L p) amount = Inr ()"
    and tr: "transfer_spec a p amount ?L = (Inr (), L1)"
    and L1: "ledger_of s' = set_pool p (pool\<lparr>sp_updated_block_number := n\<rparr>) (set_stake (a, p)
      ((staker ?L a p)\<lparr>sa_balance := sa_balance (staker ?L a p) + amount\<rparr>) L1)"
    using stake_run [OF assms(1,4)] assms(3)
    by (auto simp: stake_spec_def Let_def split: sum.splits if_splits prod.splits)
  have bal: "balance_at (ledger_of s') p = balance_at ?L p + unat amount"
    using transfer_spec_ok(3) [OF tr assms(2)] L1 by simp
  show ?thesis
    using chk bal
    by (auto simp: stake_check_def balance_at_def [of ?L p] word_less_nat_alt word_le_nat_alt
        split: if_splits option.splits sum.splits)
qed

theorem stake_respects_limits_except_first_witness:
  "balance_at (ledger_of (snd (stake 2 1 7 20 demo_state))) 2 \<le> 50"
proof -
  have "stake 2 1 7 20 demo_state = (Inr (), snd (stake 2 1 7 20 demo_state))"
    using stake_obs [OF demo_wf, of 2 1 7 20]
    by (simp add: obs_def stake_spec_def stake_check_def transfer_spec_def staker_def
        staking_account_new_def demo_ledger demo_db_def staking_pool_new_def account_new_def
        prod_eq_iff)
  moreover have "l_pool (ledger_of demo_state) 2 =
      Inr (staking_pool_new 2 1 None 0 0 (Some 10) None None (Some 50) None)"
    by (simp add: demo_ledger demo_db_def)
  moreover have "balance_at (ledger_of demo_state) 2 = 5"
    by (simp add: balance_at_def demo_ledger demo_db_def)
  ultimately show ?thesis
    using stake_respects_limits_except_first [OF demo_wf, of 1 2
        "staking_pool_new 2 1 None 0 0 (Some 10) None None (Some 50) None" 7 20
        "snd (stake 2 1 7 20 demo_state)"]
    by (simp add: staking_pool_new_def)
qed

end
