(* ===== verification/L1X_Storage.thy ===== *)
theory L1X_Storage
  imports L1X_Staking
begin

text \<open>
  The PostgreSQL backend of the chain state and \<^verbatim>\<open>UpdatedState::commit\<close>. The tables are those of
  \<^verbatim>\<open>db/src/postgres/schema.rs\<close>, a map per primary key with the nullable columns as options; hex
  encoded addresses, hashes and byte strings stand for themselves, numeric columns hold the
  integers. An \<^verbatim>\<open>INSERT\<close> without \<^verbatim>\<open>ON CONFLICT\<close> fails on a duplicate key. Connection errors are
  not modelled.

  The theory shows what a fresh state reads after a commit, that the order in which the hash maps
  are enumerated does not matter, and that the limits of a staking pool do not survive the round
  trip through the table.
\<close>

section \<open>Tables\<close>

record account_row =
  ar_account_type :: "account_type option"
  ar_balance :: "balance option"
  ar_nonce :: "nonce option"

record contract_row =
  cr_access :: "8 word option"
  cr_code :: "bytes option"
  cr_owner_address :: "address option"
  cr_type :: "8 word option"

record code_map_row =
  cm_instance_address :: address
  cm_contract_address :: address
  cm_owner_address :: "address option"

text \<open>
  The column \<^verbatim>\<open>contract_instance_address\<close> holds the hex encoded address or the empty string
  (here \<open>Some None\<close>); the column \<^verbatim>\<open>staking_period\<close> holds a decimal numeral or the empty string.
\<close>

record staking_pool_row =
  spr_cluster_address :: "address option"
  spr_contract_instance_address :: "address option option"
  spr_created_block_number :: "block_number option"
  spr_max_pool_balance :: "balance option"
  spr_max_stake :: "balance option"
  spr_min_pool_balance :: "balance option"
  spr_min_stake :: "balance option"
  spr_pool_owner :: "address option"
  spr_staking_period :: "string option"
  spr_updated_block_number :: "block_number option"

record event_row =
  er_transaction_hash :: transaction_hash
  er_timestamp :: timestamp
  er_block_number :: block_number
  er_contract_address :: address
  er_event_data :: bytes
  er_event_type :: "8 word"
  er_topics :: "256 word option list"
    \<comment> \<open>the four topic columns, \<open>None\<close> for the empty string\<close>

record database =
  dev_mode :: bool
  t_account :: "address \<rightharpoonup> account_row"
  t_contract :: "address \<rightharpoonup> contract_row"
  t_code_map :: "code_map_row list"
  t_contract_instance :: "address \<times> bytes \<rightharpoonup> bytes option"
  t_event :: "event_row list"
  t_staking_pool :: "address \<rightharpoonup> staking_pool_row"
  t_staking_account :: "address \<times> address \<rightharpoonup> balance option"
    \<comment> \<open>primary key: pool address, account address\<close>
  t_transaction_metadata :: "transaction_hash \<rightharpoonup> transaction_metadata"

type_synonym 'a db_op = "(database, error, 'a) op"

abbreviation duplicate_key :: error where
  "duplicate_key \<equiv> DbError ''duplicate key value violates unique constraint''"

section \<open>Accounts (account/src/state\_pg.rs)\<close>

definition pg_is_valid_account :: "address \<Rightarrow> bool db_op" where
  "pg_is_valid_account a = gets (\<lambda>d. t_account d a \<noteq> None)"

definition pg_create_account :: "account \<Rightarrow> unit db_op" where
  "pg_create_account acc = modify (\<lambda>d.
     case t_account d (acc_address acc) of
       Some _ \<Rightarrow> d
     | None \<Rightarrow> d\<lparr>t_account := (t_account d)(acc_address acc \<mapsto>
                 \<lparr>ar_account_type = Some (acc_type acc), ar_balance = Some (acc_balance acc),
                  ar_nonce = Some (acc_nonce acc)\<rparr>)\<rparr>)"

definition pg_update_row :: "address \<Rightarrow> (account_row \<Rightarrow> account_row) \<Rightarrow> unit db_op" where
  "pg_update_row a f = modify (\<lambda>d. d\<lparr>t_account :=
     (\<lambda>b. if b = a then map_option f (t_account d b) else t_account d b)\<rparr>)"

definition pg_update_account :: "account \<Rightarrow> unit db_op" where
  "pg_update_account acc =
     and_then (pg_is_valid_account (acc_address acc)) (\<lambda>valid.
       if \<not> valid then pg_create_account acc
       else pg_update_row (acc_address acc)
              (\<lambda>r. r\<lparr>ar_balance := Some (acc_balance acc), ar_nonce := Some (acc_nonce acc)\<rparr>))"

definition pg_update_balance :: "account \<Rightarrow> unit db_op" where
  "pg_update_balance acc =
     and_then (pg_is_valid_account (acc_address acc)) (\<lambda>valid.
       if \<not> valid then pg_create_account acc
       else pg_update_row (acc_address acc) (\<lambda>r. r\<lparr>ar_balance := Some (acc_balance acc)\<rparr>))"

definition pg_get_nonce :: "address \<Rightarrow> nonce db_op" where
  "pg_get_nonce a =
     and_then (pg_is_valid_account a) (\<lambda>valid.
       if \<not> valid then ok 0
       else (\<lambda>d. case t_account d a of
                   Some r \<Rightarrow> (case ar_nonce r of
                                Some n \<Rightarrow> (Inr n, d)
                              | None \<Rightarrow> (Inl (DbError ''Nonce is None''), d))
                 | None \<Rightarrow> (Inl (DbError ''Account not found''), d)))"

definition pg_increment_nonce :: "address \<Rightarrow> unit db_op" where
  "pg_increment_nonce a =
     and_then (pg_get_nonce a) (\<lambda>n. pg_update_row a (\<lambda>r. r\<lparr>ar_nonce := Some (n + 1)\<rparr>))"

definition pg_get_account :: "address \<Rightarrow> account db_op" where
  "pg_get_account a = (\<lambda>d.
     case t_account d a of
       None \<Rightarrow> (Inl (DbError ''account does not exist''), d)
     | Some r \<Rightarrow>
        (case ar_account_type r of
           None \<Rightarrow> (Inl (DbError ''acc_type does not exist''), d)
         | Some ty \<Rightarrow>
            (case (ar_balance r, ar_nonce r) of
               (Some b, Some n) \<Rightarrow>
                 (Inr \<lparr>acc_address = a, acc_balance = b, acc_nonce = n, acc_type = ty\<rparr>, d)
             | _ \<Rightarrow> (Inl Panic, d))))"

definition pg_get_balance :: "address \<Rightarrow> balance db_op" where
  "pg_get_balance a = (\<lambda>d.
     case t_account d a of
       Some r \<Rightarrow> (case ar_balance r of
                    Some b \<Rightarrow> (Inr b, d)
                  | None \<Rightarrow> (Inl (DbError ''Balance is None''), d))
     | None \<Rightarrow> (Inl (DbError ''Account not found''), d))"

section \<open>Contracts and instances (contract/src/state\_pg.rs, contract\_instance/src/state\_pg.rs)\<close>

definition pg_create_contract :: "contract \<Rightarrow> unit db_op" where
  "pg_create_contract c = (\<lambda>d.
     if t_contract d (con_address c) \<noteq> None then (Inl duplicate_key, d)
     else (Inr (), d\<lparr>t_contract := (t_contract d)(con_address c \<mapsto>
             \<lparr>cr_access = Some (con_access c), cr_code = Some (con_code c),
              cr_owner_address = Some (con_owner c), cr_type = Some (con_type c)\<rparr>)\<rparr>))"

definition pg_update_contract_code :: "contract \<Rightarrow> unit db_op" where
  "pg_update_contract_code c = modify (\<lambda>d. d\<lparr>t_contract :=
     (\<lambda>b. if b = con_address c then map_option (\<lambda>r. r\<lparr>cr_code := Some (con_code c)\<rparr>) (t_contract d b)
          else t_contract d b)\<rparr>)"

definition pg_get_contract :: "address \<Rightarrow> contract db_op" where
  "pg_get_contract a = (\<lambda>d.
     case t_contract d a of
       None \<Rightarrow> (Inl (DbError ''No matching records found for contract address''), d)
     | Some r \<Rightarrow>
        (case (cr_owner_address r, cr_code r, cr_access r, cr_type r) of
           (Some own, Some code, Some acc, Some ty) \<Rightarrow>
             (Inr \<lparr>con_address = a, con_access = acc, con_type = ty, con_code = code,
                   con_owner = own\<rparr>, d)
         | _ \<Rightarrow> (Inl Panic, d)))"

definition pg_get_contract_owner :: "address \<Rightarrow> (8 word \<times> address) db_op" where
  "pg_get_contract_owner a = (\<lambda>d.
     case t_contract d a of
       None \<Rightarrow> (Inl (DbError ''Diesel query failed''), d)
     | Some r \<Rightarrow>
        (case (cr_owner_address r, cr_access r) of
           (Some own, Some acc) \<Rightarrow> (Inr (acc, own), d)
         | _ \<Rightarrow> (Inl Panic, d)))"

definition pg_is_valid_contract :: "address \<Rightarrow> bool db_op" where
  "pg_is_valid_contract a = gets (\<lambda>d. t_contract d a \<noteq> None)"

definition pg_create_contract_instance :: "contract_instance \<Rightarrow> unit db_op" where
  "pg_create_contract_instance ci = (\<lambda>d.
     let row = \<lparr>cm_instance_address = ci_instance_address ci,
                cm_contract_address = ci_contract_address ci,
                cm_owner_address = Some (ci_owner_address ci)\<rparr>;
         same = (\<lambda>r. cm_instance_address r = ci_instance_address ci \<and>
                     cm_contract_address r = ci_contract_address ci)
     in if list_ex same (t_code_map d) then
          (if dev_mode d
           then (Inr (), d\<lparr>t_code_map := map (\<lambda>r. if same r then row else r) (t_code_map d)\<rparr>)
           else (Inl duplicate_key, d))
        else (Inr (), d\<lparr>t_code_map := t_code_map d @ [row]\<rparr>))"

definition pg_get_contract_instance :: "address \<Rightarrow> contract_instance db_op" where
  "pg_get_contract_instance a = (\<lambda>d.
     case filter (\<lambda>r. cm_instance_address r = a) (t_code_map d) of
       [] \<Rightarrow> (Inl (DbError ''No matching records found for contract address''), d)
     | r # _ \<Rightarrow> (Inr \<lparr>ci_instance_address = cm_instance_address r,
                       ci_contract_address = cm_contract_address r,
                       ci_owner_address = (case cm_owner_address r of Some own \<Rightarrow> own | None \<Rightarrow> 0)\<rparr>, d))"

definition pg_store_state_key_value :: "address \<Rightarrow> bytes \<Rightarrow> bytes \<Rightarrow> unit db_op" where
  "pg_store_state_key_value i k v =
     modify (\<lambda>d. d\<lparr>t_contract_instance := (t_contract_instance d)((i, k) \<mapsto> Some v)\<rparr>)"

definition pg_delete_state_key_value :: "address \<Rightarrow> bytes \<Rightarrow> unit db_op" where
  "pg_delete_state_key_value i k =
     modify (\<lambda>d. d\<lparr>t_contract_instance := (t_contract_instance d)((i, k) := None)\<rparr>)"

definition pg_get_state_key_value :: "address \<Rightarrow> bytes \<Rightarrow> bytes option db_op" where
  "pg_get_state_key_value i k = (\<lambda>d.
     case t_contract_instance d (i, k) of
       Some (Some v) \<Rightarrow> (Inr (Some v), d)
     | Some None \<Rightarrow> (Inl Panic, d)
     | None \<Rightarrow> (Inr None, d))"

section \<open>Events (event/src/state\_pg.rs)\<close>

definition pg_create_event :: "timestamp \<Rightarrow> event \<Rightarrow> unit db_op" where
  "pg_create_event now e = modify (\<lambda>d. d\<lparr>t_event := t_event d @
     [\<lparr>er_transaction_hash = ev_transaction_hash e, er_timestamp = now,
       er_block_number = ev_block_number e, er_contract_address = ev_contract_address e,
       er_event_data = ev_data e, er_event_type = ev_type e,
       er_topics = (let ts = (case ev_topics e of None \<Rightarrow> [] | Some ts \<Rightarrow> ts)
                    in map (\<lambda>i. if i < length ts then Some (ts ! i) else None) [0..<4])\<rparr>]\<rparr>)"

section \<open>Staking (staking/src/state\_pg.rs)\<close>

definition or_zero :: "balance option \<Rightarrow> balance option" where
  "or_zero b = (case b of Some v \<Rightarrow> Some v | None \<Rightarrow> Some 0)"

definition pg_create_staking_pool :: "staking_pool \<Rightarrow> unit db_op" where
  "pg_create_staking_pool pool = (\<lambda>d.
     if t_staking_pool d (sp_pool_address pool) \<noteq> None then (Inl duplicate_key, d)
     else (Inr (), d\<lparr>t_staking_pool := (t_staking_pool d)(sp_pool_address pool \<mapsto>
       \<lparr>spr_cluster_address = Some (sp_cluster_address pool),
        spr_contract_instance_address = Some (sp_contract_instance_address pool),
        spr_created_block_number = Some (sp_created_block_number pool),
        spr_max_pool_balance = or_zero (sp_max_pool_balance pool),
        spr_max_stake = or_zero (sp_max_stake pool),
        spr_min_pool_balance = or_zero (sp_min_pool_balance pool),
        spr_min_stake = or_zero (sp_min_stake pool),
        spr_pool_owner = Some (sp_pool_owner pool),
        spr_staking_period = Some (case sp_staking_period pool of
                                     Some n \<Rightarrow> to_string n | None \<Rightarrow> ''''),
        spr_updated_block_number = Some (sp_updated_block_number pool)\<rparr>)\<rparr>))"

definition pg_is_staking_account_exists :: "address \<Rightarrow> address \<Rightarrow> bool db_op" where
  "pg_is_staking_account_exists a p = gets (\<lambda>d. t_staking_account d (p, a) \<noteq> None)"

definition pg_is_staking_pool_exists :: "address \<Rightarrow> bool db_op" where
  "pg_is_staking_pool_exists p = gets (\<lambda>d. t_staking_pool d p \<noteq> None)"

definition pg_update_pool_row ::
  "address \<Rightarrow> (staking_pool_row \<Rightarrow> staking_pool_row) \<Rightarrow> unit db_op" where
  "pg_update_pool_row p f = modify (\<lambda>d. d\<lparr>t_staking_pool :=
     (\<lambda>q. if q = p then map_option f (t_staking_pool d q) else t_staking_pool d q)\<rparr>)"

definition pg_update_staking_pool_block_number :: "address \<Rightarrow> block_number \<Rightarrow> unit db_op" where
  "pg_update_staking_pool_block_number p n =
     pg_update_pool_row p (\<lambda>r. r\<lparr>spr_updated_block_number := Some n\<rparr>)"

definition pg_update_contract :: "address \<Rightarrow> address \<Rightarrow> block_number \<Rightarrow> unit db_op" where
  "pg_update_contract ci p n =
     pg_update_pool_row p (\<lambda>r. r\<lparr>spr_updated_block_number := Some n,
                                 spr_contract_instance_address := Some (Some ci)\<rparr>)"

text \<open>\<^verbatim>\<open>u128::from_str_radix(s, 10)\<close>: an optional sign and at least one digit, below \<^verbatim>\<open>2^128\<close>.\<close>

definition digit_value :: "char \<Rightarrow> nat option" where
  "digit_value c = (let n = of_char c in if 48 \<le> n \<and> n \<le> 57 then Some (n - 48) else None)"

fun parse_digits :: "nat \<Rightarrow> string \<Rightarrow> nat option" where
  "parse_digits acc [] = Some acc"
| "parse_digits acc (c # cs) =
     (case digit_value c of None \<Rightarrow> None | Some v \<Rightarrow> parse_digits (acc * 10 + v) cs)"

definition parse_u128 :: "string \<Rightarrow> 128 word option" where
  "parse_u128 s =
     (let ds = (case s of c # cs \<Rightarrow> if c = CHR ''+'' then cs else s | [] \<Rightarrow> s)
      in if ds = [] then None
         else case parse_digits 0 ds of
                None \<Rightarrow> None
              | Some n \<Rightarrow> if n < 2 ^ 128 then Some (word_of_nat n) else None)"

definition pg_get_staking_pool :: "address \<Rightarrow> staking_pool db_op" where
  "pg_get_staking_pool p = (\<lambda>d.
     case t_staking_pool d p of
       None \<Rightarrow> (Inl (DbError ''Failed to get staking_pool''), d)
     | Some r \<Rightarrow>
        (case spr_pool_owner r of
           None \<Rightarrow> (Inl (DbError ''pool_owner not found''), d)
         | Some own \<Rightarrow>
            (case spr_cluster_address r of
               None \<Rightarrow> (Inl (DbError ''cluster_address not found''), d)
             | Some cluster \<Rightarrow>
                (Inr \<lparr>sp_pool_address = p, sp_pool_owner = own,
                  sp_contract_instance_address = None, sp_cluster_address = cluster,
                  sp_created_block_number =
                    (case spr_created_block_number r of None \<Rightarrow> 0 | Some n \<Rightarrow> n),
                  sp_updated_block_number =
                    (case spr_updated_block_number r of None \<Rightarrow> 0 | Some n \<Rightarrow> n),
                  sp_min_stake = spr_min_stake r, sp_max_stake = spr_max_stake r,
                  sp_min_pool_balance = spr_min_pool_balance r,
                  sp_max_pool_balance = spr_max_pool_balance r,
                  sp_staking_period = map_option
                    (\<lambda>v. case parse_u128 v of Some n \<Rightarrow> n | None \<Rightarrow> 0) (spr_staking_period r)\<rparr>, d))))"

definition pg_insert_staking_account :: "address \<Rightarrow> address \<Rightarrow> balance \<Rightarrow> unit db_op" where
  "pg_insert_staking_account a p b = (\<lambda>d.
     if t_staking_account d (p, a) \<noteq> None then (Inl duplicate_key, d)
     else (Inr (), d\<lparr>t_staking_account := (t_staking_account d)((p, a) \<mapsto> Some b)\<rparr>))"

definition pg_update_staking_account :: "staking_account \<Rightarrow> unit db_op" where
  "pg_update_staking_account sa = modify (\<lambda>d. d\<lparr>t_staking_account :=
     (\<lambda>k. if k = (sa_pool_address sa, sa_account_address sa)
          then map_option (\<lambda>_. Some (sa_balance sa)) (t_staking_account d k)
          else t_staking_account d k)\<rparr>)"

definition pg_get_staking_account :: "address \<Rightarrow> address \<Rightarrow> staking_account db_op" where
  "pg_get_staking_account a p = (\<lambda>d.
     case t_staking_account d (p, a) of
       None \<Rightarrow> (Inl (DbError ''Failed to insert new node info''), d)
     | Some None \<Rightarrow> (Inl (DbError ''Block number is None''), d)
     | Some (Some b) \<Rightarrow>
         (Inr \<lparr>sa_account_address = a, sa_pool_address = p, sa_balance = b\<rparr>, d))"

section \<open>Transaction metadata (block/src/state\_pg.rs)\<close>

definition pg_store_transaction_metadata :: "transaction_metadata \<Rightarrow> unit db_op" where
  "pg_store_transaction_metadata m = modify (\<lambda>d.
     case t_transaction_metadata d (tm_transaction_hash m) of
       Some _ \<Rightarrow> d
     | None \<Rightarrow> d\<lparr>t_transaction_metadata :=
                   (t_transaction_metadata d)(tm_transaction_hash m \<mapsto> m)\<rparr>)"

definition pg_load_transaction_metadata :: "transaction_hash \<Rightarrow> transaction_metadata db_op" where
  "pg_load_transaction_metadata h = (\<lambda>d.
     case t_transaction_metadata d h of
       Some m \<Rightarrow> (Inr m, d)
     | None \<Rightarrow> (Inl (DbError ''transaction_metadata: diesel query failed''), d))"

section \<open>The request handler and commit\<close>

text \<open>
  \<^verbatim>\<open>db_request_handler\<close>: each request is answered by the corresponding query.
\<close>

definition pg_channel :: "database \<Rightarrow> db" where
  "pg_channel d =
     \<lparr>db_get_account = (\<lambda>a. fst (pg_get_account a d)),
      db_get_contract = (\<lambda>a. fst (pg_get_contract a d)),
      db_get_contract_instance = (\<lambda>a. fst (pg_get_contract_instance a d)),
      db_get_contract_instance_value = (\<lambda>i k. fst (pg_get_state_key_value i k d)),
      db_get_staking_pool = (\<lambda>p. fst (pg_get_staking_pool p d)),
      db_get_staking_account = (\<lambda>p a. fst (pg_get_staking_account a p d))\<rparr>"

text \<open>
  The hash maps are enumerated in an order that the standard library leaves open: it is the
  argument \<open>ord\<close> of \<open>commit\<close>, valid for a state when it lists the keys of each map once.
\<close>

record commit_order =
  o_accounts :: "address list"
  o_contracts :: "address list"
  o_instances :: "address list"
  o_values :: "(address \<times> bytes) list"
  o_pools :: "address list"
  o_stakes :: "(address \<times> address) list"
    \<comment> \<open>pool address, account address\<close>

definition enumerates :: "commit_order \<Rightarrow> updated_state \<Rightarrow> bool" where
  "enumerates ord s \<longleftrightarrow>
     distinct (o_accounts ord) \<and> set (o_accounts ord) = dom (accounts s) \<and>
     distinct (o_contracts ord) \<and> set (o_contracts ord) = dom (contracts s) \<and>
     distinct (o_instances ord) \<and> set (o_instances ord) = dom (contract_instances s) \<and>
     distinct (o_values ord) \<and>
     set (o_values ord) = {(i, k). nested_get (contract_states s) i k \<noteq> None} \<and>
     distinct (o_pools ord) \<and> set (o_pools ord) = dom (staking_pools s) \<and>
     distinct (o_stakes ord) \<and>
     set (o_stakes ord) = {(p, a). nested_get (staking_accounts s) p a \<noteq> None}"

definition commit_account :: "updated_state \<Rightarrow> address \<Rightarrow> unit db_op" where
  "commit_account s a =
     (case accounts s a of
        Some (Updated (Some account)) \<Rightarrow> pg_update_account account
      | Some (Updated None) \<Rightarrow> fail (ShouldNeverHappen ''Account is None'')
      | _ \<Rightarrow> ok ())"

definition commit_contract :: "updated_state \<Rightarrow> address \<Rightarrow> unit db_op" where
  "commit_contract s a =
     (case contracts s a of
        Some (Updated (Some c)) \<Rightarrow> pg_create_contract (updated_contract_into c)
      | Some (Updated None) \<Rightarrow> fail (ShouldNeverHappen ''Contract is None'')
      | _ \<Rightarrow> ok ())"

definition commit_instance :: "updated_state \<Rightarrow> address \<Rightarrow> unit db_op" where
  "commit_instance s a =
     (case contract_instances s a of
        Some (Updated (Some c)) \<Rightarrow> pg_create_contract_instance (updated_contract_instance_into c)
      | Some (Updated None) \<Rightarrow> fail (ShouldNeverHappen ''ContractInstance is None'')
      | _ \<Rightarrow> ok ())"

definition commit_value :: "updated_state \<Rightarrow> address \<times> bytes \<Rightarrow> unit db_op" where
  "commit_value s ik =
     (case nested_get (contract_states s) (fst ik) (snd ik) of
        Some (Updated (Some (Some v))) \<Rightarrow> pg_store_state_key_value (fst ik) (snd ik) v
      | Some (Updated (Some None)) \<Rightarrow> pg_delete_state_key_value (fst ik) (snd ik)
      | Some (Updated None) \<Rightarrow> pg_delete_state_key_value (fst ik) (snd ik)
      | _ \<Rightarrow> ok ())"

definition commit_event :: "timestamp \<Rightarrow> event cached_status \<Rightarrow> unit db_op" where
  "commit_event now c = (case c of Updated (Some e) \<Rightarrow> pg_create_event now e | _ \<Rightarrow> ok ())"

definition commit_pool :: "updated_state \<Rightarrow> address \<Rightarrow> unit db_op" where
  "commit_pool s p =
     (case staking_pools s p of
        Some (Updated (Some pool)) \<Rightarrow>
          and_then (pg_is_staking_pool_exists p) (\<lambda>ex.
            if ex then
              and_then (pg_update_staking_pool_block_number p (sp_updated_block_number pool)) (\<lambda>_.
                case sp_contract_instance_address pool of
                  Some ci \<Rightarrow> pg_update_contract ci p (sp_updated_block_number pool)
                | None \<Rightarrow> ok ())
            else pg_create_staking_pool pool)
      | _ \<Rightarrow> ok ())"

definition commit_stake :: "updated_state \<Rightarrow> address \<times> address \<Rightarrow> unit db_op" where
  "commit_stake s pa =
     (case nested_get (staking_accounts s) (fst pa) (snd pa) of
        Some (Updated (Some sa)) \<Rightarrow>
          and_then (pg_is_staking_account_exists (sa_account_address sa) (sa_pool_address sa)) (\<lambda>ex.
            if ex then pg_update_staking_account sa
            else pg_insert_staking_account (sa_account_address sa) (sa_pool_address sa)
                   (sa_balance sa))
      | _ \<Rightarrow> ok ())"

definition commit_metadata :: "transaction_metadata cached_status \<Rightarrow> unit db_op" where
  "commit_metadata c =
     (case c of Updated (Some m) \<Rightarrow> pg_store_transaction_metadata m | _ \<Rightarrow> ok ())"

definition commit :: "commit_order \<Rightarrow> timestamp \<Rightarrow> updated_state \<Rightarrow> unit db_op" where
  "commit ord now s =
     and_then (for_each (commit_account s) (o_accounts ord)) (\<lambda>_.
     and_then (for_each (commit_contract s) (o_contracts ord)) (\<lambda>_.
     and_then (for_each (commit_instance s) (o_instances ord)) (\<lambda>_.
     and_then (for_each (commit_value s) (o_values ord)) (\<lambda>_.
     and_then (for_each (commit_event now) (contract_events s)) (\<lambda>_.
     and_then (for_each (commit_pool s) (o_pools ord)) (\<lambda>_.
     and_then (for_each (commit_stake s) (o_stakes ord)) (\<lambda>_.
       for_each commit_metadata (transaction_metadatas s))))))))"

section \<open>The cache and the database\<close>

text \<open>
  The invariant of the cache: an unmodified entry is what the database holds, a modified one is
  stored under its own key, and accounts and staking accounts are never removed.
\<close>

definition cache_ok :: "updated_state \<Rightarrow> bool" where
  "cache_ok s \<longleftrightarrow>
     (\<forall>a v. accounts s a = Some (Cached v) \<longrightarrow> db_get_account (db_channel s) a = Inr v) \<and>
     (\<forall>a v. accounts s a = Some (Updated v) \<longrightarrow> (\<exists>acc. v = Some acc \<and> acc_address acc = a)) \<and>
     (\<forall>p a v. nested_get (staking_accounts s) p a = Some (Cached v) \<longrightarrow>
        db_get_staking_account (db_channel s) p a = Inr v) \<and>
     (\<forall>p a v. nested_get (staking_accounts s) p a = Some (Updated v) \<longrightarrow>
        (\<exists>sa. v = Some sa \<and> sa_pool_address sa = p \<and> sa_account_address sa = a)) \<and>
     (\<forall>i k v. nested_get (contract_states s) i k = Some (Cached v) \<longrightarrow>
        db_get_contract_instance_value (db_channel s) i k = Inr v)"

definition keeps_cache :: "updated_state \<Rightarrow> updated_state \<Rightarrow> bool" where
  "keeps_cache s t \<longleftrightarrow> (cache_ok s \<longrightarrow> cache_ok t)"

interpretation ck: frame keeps_cache
  by unfold_locales (auto simp: keeps_cache_def)

declare ck.keeps_rules [simp]

lemma cache_get [simp]:
  "keeps keeps_cache (get_account a)"
  "keeps keeps_cache (get_contract a)"
  "keeps keeps_cache (get_contract_instance a)"
  "keeps keeps_cache (get_state_key_value a k)"
  "keeps keeps_cache (get_staking_pool a)"
  "keeps keeps_cache (get_staking_account a b)"
  by (auto simp: keeps_def keeps_cache_def cache_ok_def get_account_def get_contract_def
      get_contract_instance_def get_state_key_value_def get_staking_pool_def get_staking_account_def
      up_contract.entry_vacant up_instance.entry_vacant up_value.nested_entry_vacant
      up_pool.entry_vacant up_staking.nested_entry_vacant split: option.splits sum.splits)

lemma cache_put [simp]:
  "keeps keeps_cache (update_account v)"
  "keeps keeps_cache (store_contract c)"
  "keeps keeps_cache (store_contract_instance ci)"
  "keeps keeps_cache (store_state_key_value i k b)"
  "keeps keeps_cache (delete_state_key_value i k)"
  "keeps keeps_cache (update_staking_account w)"
  "keeps keeps_cache (put_pool p q)"
  "keeps keeps_cache (create_event e)"
  "keeps keeps_cache (store_transaction_metadata m)"
  by (auto simp: keeps_def keeps_cache_def cache_ok_def modify_def update_account_def
      store_contract_def store_contract_instance_def store_state_key_value_def
      delete_state_key_value_def update_staking_account_def put_pool_def create_event_def
      store_transaction_metadata_def new_updated_def split: if_splits)

lemma cache_composed [simp]:
  "keeps keeps_cache (increment_nonce a)"
  "keeps keeps_cache (mint n a)"
  "keeps keeps_cache (get_balance a)"
  "keeps keeps_cache (transfer a b n)"
  "keeps keeps_cache (update_staking_pool_block_number p bn)"
  by (simp_all add: increment_nonce_def mint_def get_balance_def transfer_def Let_def
      update_staking_pool_block_number_def)

lemma cache_staking [simp]:
  "keeps keeps_cache (stake p a bn n)"
  "keeps keeps_cache (un_stake p a bn n)"
  by (simp_all add: stake_def un_stake_def Let_def split: prod.split)

lemma cache_new [simp]: "cache_ok (updated_state_new c)"
  by (simp add: cache_ok_def updated_state_new_def nested_get_def)

section \<open>What a commit writes\<close>

definition same_accounts :: "database \<Rightarrow> database \<Rightarrow> bool" where
  "same_accounts d e \<longleftrightarrow> t_account e = t_account d"

definition same_stakes :: "database \<Rightarrow> database \<Rightarrow> bool" where
  "same_stakes d e \<longleftrightarrow> t_staking_account e = t_staking_account d"

definition same_values :: "database \<Rightarrow> database \<Rightarrow> bool" where
  "same_values d e \<longleftrightarrow> t_contract_instance e = t_contract_instance d"

interpretation sa: frame same_accounts by unfold_locales (auto simp: same_accounts_def)
interpretation ss: frame same_stakes by unfold_locales (auto simp: same_stakes_def)
interpretation sv: frame same_values by unfold_locales (auto simp: same_values_def)

lemmas pg_write_defs =
  pg_is_valid_account_def pg_create_account_def pg_update_row_def pg_update_account_def
  pg_create_contract_def pg_create_contract_instance_def pg_store_state_key_value_def
  pg_delete_state_key_value_def pg_create_event_def pg_create_staking_pool_def
  pg_is_staking_account_exists_def pg_is_staking_pool_exists_def pg_update_pool_row_def
  pg_update_staking_pool_block_number_def pg_update_contract_def pg_insert_staking_account_def
  pg_update_staking_account_def pg_store_transaction_metadata_def

lemma commit_same_accounts:
  "keeps same_accounts (commit_contract s x)" "keeps same_accounts (commit_instance s x)"
  "keeps same_accounts (commit_value s ik)" "keeps same_accounts (commit_event now ev)"
  "keeps same_accounts (commit_pool s x)" "keeps same_accounts (commit_stake s pa)"
  "keeps same_accounts (commit_metadata m)"
  by (auto simp: keeps_def same_accounts_def commit_contract_def commit_instance_def
      commit_value_def commit_event_def commit_pool_def commit_stake_def commit_metadata_def
      pg_write_defs op_simps and_then_def Let_def split: option.splits cached_status.splits)

lemma commit_same_stakes:
  "keeps same_stakes (commit_account s x)"
  "keeps same_stakes (commit_contract s x)" "keeps same_stakes (commit_instance s x)"
  "keeps same_stakes (commit_value s ik)" "keeps same_stakes (commit_event now ev)"
  "keeps same_stakes (commit_pool s x)" "keeps same_stakes (commit_metadata m)"
  by (auto simp: keeps_def same_stakes_def commit_account_def commit_contract_def
      commit_instance_def commit_value_def commit_event_def commit_pool_def commit_metadata_def
      pg_write_defs op_simps and_then_def Let_def split: option.splits cached_status.splits)

lemma commit_same_values:
  "keeps same_values (commit_account s x)"
  "keeps same_values (commit_contract s x)" "keeps same_values (commit_instance s x)"
  "keeps same_values (commit_event now ev)"
  "keeps same_values (commit_pool s x)" "keeps same_values (commit_stake s pa)"
  "keeps same_values (commit_metadata m)"
  by (auto simp: keeps_def same_values_def commit_account_def commit_contract_def
      commit_instance_def commit_event_def commit_pool_def commit_stake_def commit_metadata_def
      pg_write_defs op_simps and_then_def Let_def split: option.splits cached_status.splits)

definition account_written :: "updated_account cached_status option \<Rightarrow> account_row option \<Rightarrow> account_row option" where
  "account_written c old =
     (case c of
        Some (Updated (Some v)) \<Rightarrow>
          Some (case old of
                  None \<Rightarrow> \<lparr>ar_account_type = Some (acc_type v), ar_balance = Some (acc_balance v),
                           ar_nonce = Some (acc_nonce v)\<rparr>
                | Some r \<Rightarrow> r\<lparr>ar_balance := Some (acc_balance v), ar_nonce := Some (acc_nonce v)\<rparr>)
      | _ \<Rightarrow> old)"

definition stake_written :: "updated_staking_account cached_status option \<Rightarrow> balance option option \<Rightarrow> balance option option" where
  "stake_written c old =
     (case c of Some (Updated (Some v)) \<Rightarrow> Some (Some (sa_balance v)) | _ \<Rightarrow> old)"

definition value_written :: "bytes option cached_status option \<Rightarrow> bytes option option \<Rightarrow> bytes option option" where
  "value_written c old =
     (case c of
        Some (Updated (Some (Some v))) \<Rightarrow> Some (Some v)
      | Some (Updated (Some None)) \<Rightarrow> None
      | Some (Updated None) \<Rightarrow> None
      | _ \<Rightarrow> old)"

lemma commit_account_writes:
  assumes "cache_ok s" and "commit_account s a d = (Inr (), e)"
  shows "t_account e = (t_account d)(a := account_written (accounts s a) (t_account d a))"
proof (cases "accounts s a")
  case None
  with assms(2) show ?thesis by (simp add: commit_account_def account_written_def ok_def)
next
  case (Some c)
  show ?thesis
  proof (cases c)
    case (Cached v)
    with Some assms(2) show ?thesis by (simp add: commit_account_def account_written_def ok_def)
  next
    case (Updated v)
    then obtain acc where v: "v = Some acc" and a: "acc_address acc = a"
      using assms(1) Some unfolding cache_ok_def by metis
    with Some Updated assms(2) show ?thesis
      by (auto simp: commit_account_def account_written_def pg_write_defs op_simps and_then_def
          fun_eq_iff split: if_splits option.splits)
  qed
qed

lemma commit_stake_writes:
  assumes "cache_ok s" and "commit_stake s pa d = (Inr (), e)"
  shows "t_staking_account e = (t_staking_account d)(pa :=
           stake_written (nested_get (staking_accounts s) (fst pa) (snd pa)) (t_staking_account d pa))"
proof (cases "nested_get (staking_accounts s) (fst pa) (snd pa)")
  case None
  with assms(2) show ?thesis by (simp add: commit_stake_def stake_written_def ok_def)
next
  case (Some c)
  show ?thesis
  proof (cases c)
    case (Cached v)
    with Some assms(2) show ?thesis by (simp add: commit_stake_def stake_written_def ok_def)
  next
    case (Updated v)
    then obtain sa where v: "v = Some sa" and pa: "pa = (sa_pool_address sa, sa_account_address sa)"
      using assms(1) Some unfolding cache_ok_def by (metis prod.collapse)
    have "nested_get (staking_accounts s) (sa_pool_address sa) (sa_account_address sa) =
        Some (Updated (Some sa))"
      using Some Updated v pa by simp
    with assms(2) show ?thesis
      by (auto simp: pa commit_stake_def stake_written_def pg_write_defs op_simps and_then_def
          fun_eq_iff split: if_splits)
  qed
qed

lemma commit_value_writes:
  assumes "commit_value s ik d = (Inr (), e)"
  shows "t_contract_instance e = (t_contract_instance d)(ik :=
           value_written (nested_get (contract_states s) (fst ik) (snd ik)) (t_contract_instance d ik))"
  using assms
  by (cases ik)
    (auto simp: commit_value_def value_written_def pg_write_defs op_simps
      split: option.splits cached_status.splits if_splits)


lemma commit_phases:
  assumes "commit ord now s d = (Inr (), e)"
  obtains d1 d2 d3 d4 d5 d6 d7 where
    "for_each (commit_account s) (o_accounts ord) d = (Inr (), d1)"
    "for_each (commit_contract s) (o_contracts ord) d1 = (Inr (), d2)"
    "for_each (commit_instance s) (o_instances ord) d2 = (Inr (), d3)"
    "for_each (commit_value s) (o_values ord) d3 = (Inr (), d4)"
    "for_each (commit_event now) (contract_events s) d4 = (Inr (), d5)"
    "for_each (commit_pool s) (o_pools ord) d5 = (Inr (), d6)"
    "for_each (commit_stake s) (o_stakes ord) d6 = (Inr (), d7)"
    "for_each commit_metadata (transaction_metadatas s) d7 = (Inr (), e)"
  using assms by (auto simp: commit_def and_then_Inr)

lemma commit_tables:
  assumes ck: "cache_ok s" and en: "enumerates ord s" and run: "commit ord now s d = (Inr (), e)"
  shows "t_account e a = account_written (accounts s a) (t_account d a)"
    and "t_staking_account e (p, b) =
           stake_written (nested_get (staking_accounts s) p b) (t_staking_account d (p, b))"
    and "t_contract_instance e (i, k) =
           value_written (nested_get (contract_states s) i k) (t_contract_instance d (i, k))"
proof -
  obtain d1 d2 d3 d4 d5 d6 d7 where
    1: "for_each (commit_account s) (o_accounts ord) d = (Inr (), d1)"
    and 2: "for_each (commit_contract s) (o_contracts ord) d1 = (Inr (), d2)"
    and 3: "for_each (commit_instance s) (o_instances ord) d2 = (Inr (), d3)"
    and 4: "for_each (commit_value s) (o_values ord) d3 = (Inr (), d4)"
    and 5: "for_each (commit_event now) (contract_events s) d4 = (Inr (), d5)"
    and 6: "for_each (commit_pool s) (o_pools ord) d5 = (Inr (), d6)"
    and 7: "for_each (commit_stake s) (o_stakes ord) d6 = (Inr (), d7)"
    and 8: "for_each commit_metadata (transaction_metadatas s) d7 = (Inr (), e)"
    using run by (rule commit_phases)
  note loop = keepsD [OF sa.keeps_for_each] keepsD [OF ss.keeps_for_each] keepsD [OF sv.keeps_for_each]
  have "t_account e = t_account d1"
    using loop(1) [OF commit_same_accounts(1) 2] loop(1) [OF commit_same_accounts(2) 3]
      loop(1) [OF commit_same_accounts(3) 4] loop(1) [OF commit_same_accounts(4) 5]
      loop(1) [OF commit_same_accounts(5) 6] loop(1) [OF commit_same_accounts(6) 7]
      loop(1) [OF commit_same_accounts(7) 8] by (simp add: same_accounts_def)
  moreover have "t_account d1 a = (if a \<in> set (o_accounts ord)
      then account_written (accounts s a) (t_account d a) else t_account d a)"
    using 1 en by (intro for_each_table [where tab = t_account])
      (auto simp: enumerates_def intro: commit_account_writes [OF ck])
  ultimately show "t_account e a = account_written (accounts s a) (t_account d a)"
    using en by (auto simp: enumerates_def account_written_def split: option.splits)
  have "t_staking_account e = t_staking_account d7" "t_staking_account d6 = t_staking_account d"
    using loop(2) [OF commit_same_stakes(1) 1] loop(2) [OF commit_same_stakes(2) 2]
      loop(2) [OF commit_same_stakes(3) 3] loop(2) [OF commit_same_stakes(4) 4]
      loop(2) [OF commit_same_stakes(5) 5] loop(2) [OF commit_same_stakes(6) 6]
      loop(2) [OF commit_same_stakes(7) 8] by (simp_all add: same_stakes_def)
  moreover have "t_staking_account d7 (p, b) = (if (p, b) \<in> set (o_stakes ord)
      then stake_written (nested_get (staking_accounts s) (fst (p, b)) (snd (p, b)))
             (t_staking_account d6 (p, b)) else t_staking_account d6 (p, b))"
    using 7 en by (intro for_each_table [where tab = t_staking_account])
      (auto simp: enumerates_def simp del: fst_conv snd_conv intro: commit_stake_writes [OF ck])
  ultimately show "t_staking_account e (p, b) =
      stake_written (nested_get (staking_accounts s) p b) (t_staking_account d (p, b))"
    using en by (auto simp: enumerates_def stake_written_def split: option.splits)
  have "t_contract_instance e = t_contract_instance d4"
    "t_contract_instance d3 = t_contract_instance d"
    using loop(3) [OF commit_same_values(1) 1] loop(3) [OF commit_same_values(2) 2]
      loop(3) [OF commit_same_values(3) 3] loop(3) [OF commit_same_values(4) 5]
      loop(3) [OF commit_same_values(5) 6] loop(3) [OF commit_same_values(6) 7]
      loop(3) [OF commit_same_values(7) 8] by (simp_all add: same_values_def)
  moreover have "t_contract_instance d4 (i, k) = (if (i, k) \<in> set (o_values ord)
      then value_written (nested_get (contract_states s) (fst (i, k)) (snd (i, k)))
             (t_contract_instance d3 (i, k)) else t_contract_instance d3 (i, k))"
    using 4 en by (intro for_each_table [where tab = t_contract_instance])
      (auto simp: enumerates_def simp del: fst_conv snd_conv intro: commit_value_writes)
  ultimately show "t_contract_instance e (i, k) =
      value_written (nested_get (contract_states s) i k) (t_contract_instance d (i, k))"
    using en by (auto simp: enumerates_def value_written_def split: option.splits)
qed

section \<open>Decimal numerals\<close>

lemma digit_value_digit: "d < 10 \<Longrightarrow> digit_value (char_of (48 + d :: nat)) = Some d"
  by (simp add: digit_value_def Let_def)

lemma parse_digits_append:
  "parse_digits acc (xs @ ys) =
     (case parse_digits acc xs of None \<Rightarrow> None | Some n \<Rightarrow> parse_digits n ys)"
  by (induction xs arbitrary: acc) (auto split: option.splits)

lemma parse_dec_digits: "parse_digits 0 (dec_digits n) = Some n"
proof (induction n rule: dec_digits.induct)
  case (1 n)
  show ?case
  proof (cases "n < 10")
    case True
    then show ?thesis by (simp add: dec_digits.simps [of n] digit_value_digit)
  next
    case False
    then show ?thesis
      using 1 by (simp add: dec_digits.simps [of n] parse_digits_append digit_value_digit)
  qed
qed

lemma dec_digits_hd: "\<exists>d ds. d < 10 \<and> dec_digits n = char_of (48 + d :: nat) # ds"
proof (induction n rule: dec_digits.induct)
  case (1 n)
  show ?case
  proof (cases "n < 10")
    case True
    then show ?thesis by (auto simp: dec_digits.simps [of n])
  next
    case False
    with 1 obtain d ds where "d < 10" "dec_digits (n div 10) = char_of (48 + d :: nat) # ds"
      by auto
    with False show ?thesis
      by (intro exI [of _ d] exI [of _ "ds @ [char_of (48 + n mod 10 :: nat)]"])
        (simp add: dec_digits.simps [of n])
  qed
qed

lemma digit_not_plus: "d < 10 \<Longrightarrow> char_of (48 + d :: nat) \<noteq> CHR ''+''"
proof
  assume d: "d < 10" and "char_of (48 + d :: nat) = CHR ''+''"
  then have "of_char (char_of (48 + d :: nat)) = (of_char CHR ''+'' :: nat)" by simp
  with d show False by simp
qed

lemma parse_to_string: "parse_u128 (to_string (n :: 128 word)) = Some n"
proof -
  obtain d ds where "d < 10" "dec_digits (unat n) = char_of (48 + d :: nat) # ds"
    using dec_digits_hd by blast
  then have "(case dec_digits (unat n) of c # cs \<Rightarrow> if c = CHR ''+'' then cs else dec_digits (unat n)
      | [] \<Rightarrow> dec_digits (unat n)) = dec_digits (unat n)" "dec_digits (unat n) \<noteq> []"
    using digit_not_plus by auto
  then show ?thesis
    using unat_bounded [of n] by (simp add: parse_u128_def to_string_def parse_dec_digits)
qed

lemma pg_channel_select [simp]:
  "db_get_account (pg_channel d) a = fst (pg_get_account a d)"
  "db_get_contract_instance_value (pg_channel d) i k = fst (pg_get_state_key_value i k d)"
  "db_get_staking_account (pg_channel d) p a = fst (pg_get_staking_account a p d)"
  "db_get_staking_pool (pg_channel d) p = fst (pg_get_staking_pool p d)"
  by (simp_all add: pg_channel_def)

section \<open>Properties\<close>

definition rows_complete :: "database \<Rightarrow> bool" where
  "rows_complete d \<longleftrightarrow>
     (\<forall>a r. t_account d a = Some r \<longrightarrow>
        ar_account_type r \<noteq> None \<and> ar_balance r \<noteq> None \<and> ar_nonce r \<noteq> None)"

definition nonce_at :: "ledger \<Rightarrow> address \<Rightarrow> nat" where
  "nonce_at L a = (case l_account L a of Inr v \<Rightarrow> unat (acc_nonce v) | Inl _ \<Rightarrow> 0)"

lemma l_account_fresh:
  "l_account (ledger_of (updated_state_new (pg_channel d))) a = fst (pg_get_account a d)"
  by (simp add: ledger_of_def updated_state_new_def pg_channel_def)

lemma l_stake_fresh:
  "l_stake (ledger_of (updated_state_new (pg_channel d))) (a, p) = fst (pg_get_staking_account a p d)"
  by (simp add: ledger_of_def updated_state_new_def pg_channel_def nested_get_def)

lemma l_value_fresh:
  "l_value (ledger_of (updated_state_new (pg_channel d))) (i, k) =
     fst (pg_get_state_key_value i k d)"
  by (simp add: ledger_of_def updated_state_new_def pg_channel_def nested_get_def)

lemma committed_account:
  assumes "cache_ok s" and "db_channel s = pg_channel d" and "rows_complete d"
    and "t_account e a = account_written (accounts s a) (t_account d a)"
  shows "balance_at (ledger_of (updated_state_new (pg_channel e))) a = balance_at (ledger_of s) a"
    and "nonce_at (ledger_of (updated_state_new (pg_channel e))) a = nonce_at (ledger_of s) a"
proof -
  let ?new = "fst (pg_get_account a e)" and ?old = "l_account (ledger_of s) a"
  have "?new = ?old \<or> (\<exists>v w. ?new = Inr v \<and> ?old = Inr w \<and> acc_balance v = acc_balance w \<and>
      acc_nonce v = acc_nonce w)"
  proof (cases "accounts s a")
    case None
    with assms(2,4) show ?thesis
      by (auto simp: account_written_def ledger_of_def pg_channel_def pg_get_account_def
          split: option.splits)
  next
    case (Some c)
    show ?thesis
    proof (cases c)
      case (Cached v)
      with Some assms(1,2) have "fst (pg_get_account a d) = Inr v"
        by (auto simp: cache_ok_def pg_channel_def)
      with Some Cached assms(4) show ?thesis
        by (auto simp: account_written_def ledger_of_def pg_get_account_def split: option.splits)
    next
      case (Updated v)
      with Some assms(1) obtain acc where "v = Some acc" unfolding cache_ok_def by metis
      with Some Updated assms(3,4) show ?thesis
        by (auto simp: account_written_def ledger_of_def pg_get_account_def rows_complete_def
            split: option.splits)
    qed
  qed
  then show "balance_at (ledger_of (updated_state_new (pg_channel e))) a = balance_at (ledger_of s) a"
    and "nonce_at (ledger_of (updated_state_new (pg_channel e))) a = nonce_at (ledger_of s) a"
    by (auto simp: balance_at_def nonce_at_def l_account_fresh)
qed

lemma committed_stake:
  assumes "cache_ok s" and "db_channel s = pg_channel d"
    and "t_staking_account e (p, a) =
           stake_written (nested_get (staking_accounts s) p a) (t_staking_account d (p, a))"
  shows "staked_at (ledger_of (updated_state_new (pg_channel e))) a p = staked_at (ledger_of s) a p"
proof (cases "nested_get (staking_accounts s) p a")
  case None
  with assms(2,3) show ?thesis
    by (simp add: staked_at_def l_stake_fresh stake_written_def ledger_of_def [of s] 
        pg_get_staking_account_def split: option.splits)
next
  case (Some c)
  show ?thesis
  proof (cases c)
    case (Cached v)
    with Some assms(1,2) have "fst (pg_get_staking_account a p d) = Inr v"
      by (auto simp: cache_ok_def)
    with Some Cached assms(3) show ?thesis
      by (auto simp: staked_at_def l_stake_fresh stake_written_def ledger_of_def [of s]
          pg_get_staking_account_def split: option.splits)
  next
    case (Updated v)
    with Some assms(1) obtain sa where "v = Some sa" unfolding cache_ok_def by metis
    with Some Updated assms(3) show ?thesis
      by (simp add: staked_at_def l_stake_fresh stake_written_def ledger_of_def [of s]
          pg_get_staking_account_def)
  qed
qed

lemma committed_value:
  assumes "cache_ok s" and "db_channel s = pg_channel d"
    and "t_contract_instance e (i, k) =
           value_written (nested_get (contract_states s) i k) (t_contract_instance d (i, k))"
  shows "l_value (ledger_of (updated_state_new (pg_channel e))) (i, k) = l_value (ledger_of s) (i, k)"
proof (cases "nested_get (contract_states s) i k")
  case None
  with assms(2,3) show ?thesis
    by (simp add: l_value_fresh value_written_def ledger_of_def [of s] 
        pg_get_state_key_value_def split: option.splits)
next
  case (Some c)
  show ?thesis
  proof (cases c)
    case (Cached v)
    with Some assms(1,2) have "fst (pg_get_state_key_value i k d) = Inr v"
      by (auto simp: cache_ok_def)
    with Some Cached assms(3) show ?thesis
      by (auto simp: l_value_fresh value_written_def ledger_of_def [of s]
          pg_get_state_key_value_def split: option.splits)
  next
    case (Updated v)
    with Some assms(3) show ?thesis
      by (cases v; cases "the v")
        (simp_all add: l_value_fresh value_written_def ledger_of_def [of s]
          pg_get_state_key_value_def)
  qed
qed

text \<open>
  C8: What was executed is what is stored. After \<^verbatim>\<open>commit\<close> a new state over the database reads, for
  every address, pool and contract key, the balance, nonce, stake and contract value that the
  committed state showed, whatever the order in which the hash maps were enumerated.
\<close>

theorem commit_then_read:
  assumes "cache_ok s" and "db_channel s = pg_channel d" and "rows_complete d"
    and "enumerates ord s" and "commit ord now s d = (Inr (), e)"
  shows "balance_at (ledger_of (updated_state_new (pg_channel e))) a = balance_at (ledger_of s) a \<and>
         nonce_at (ledger_of (updated_state_new (pg_channel e))) a = nonce_at (ledger_of s) a \<and>
         staked_at (ledger_of (updated_state_new (pg_channel e))) a p = staked_at (ledger_of s) a p \<and>
         l_value (ledger_of (updated_state_new (pg_channel e))) (i, k) =
           l_value (ledger_of s) (i, k)"
proof -
  note tabs = commit_tables [OF assms(1,4,5)]
  show ?thesis
    using committed_account [OF assms(1-3) tabs(1)] committed_stake [OF assms(1,2) tabs(2)]
      committed_value [OF assms(1,2) tabs(3)] by blast
qed

definition demo_database :: database where
  "demo_database =
     \<lparr>dev_mode = False,
      t_account = [1 \<mapsto> \<lparr>ar_account_type = Some User, ar_balance = Some 100, ar_nonce = Some 3\<rparr>],
      t_contract = Map.empty, t_code_map = [], t_contract_instance = Map.empty, t_event = [],
      t_staking_pool = Map.empty, t_staking_account = Map.empty,
      t_transaction_metadata = Map.empty\<rparr>"

definition demo_run :: updated_state where
  "demo_run = snd (transfer 1 2 30 (updated_state_new (pg_channel demo_database)))"

definition demo_order :: commit_order where
  "demo_order = \<lparr>o_accounts = [2, 1], o_contracts = [], o_instances = [], o_values = [],
                 o_pools = [], o_stakes = []\<rparr>"

lemma demo_run_accounts:
  "demo_run = (updated_state_new (pg_channel demo_database))\<lparr>accounts :=
     [1 \<mapsto> Updated (Some \<lparr>acc_address = 1, acc_balance = 70, acc_nonce = 3, acc_type = User\<rparr>),
      2 \<mapsto> Updated (Some \<lparr>acc_address = 2, acc_balance = 30, acc_nonce = 0, acc_type = User\<rparr>)]\<rparr>"
  by (simp add: demo_run_def transfer_def get_account_def update_account_def updated_state_new_def
      pg_channel_def pg_get_account_def demo_database_def op_simps and_then_def attempt_def Let_def
      checked_add_def checked_sub_def)

theorem commit_then_read_witness:
  "balance_at (ledger_of (updated_state_new (pg_channel (snd (commit demo_order 0 demo_run
      demo_database))))) 2 = 30"
proof -
  have c: "commit demo_order 0 demo_run demo_database =
      (Inr (), snd (commit demo_order 0 demo_run demo_database))"
    by (simp add: commit_def demo_order_def demo_run_accounts updated_state_new_def op_simps
        and_then_def commit_account_def pg_write_defs demo_database_def)
  have "cache_ok demo_run" "enumerates demo_order demo_run" "rows_complete demo_database"
    "db_channel demo_run = pg_channel demo_database"
    by (auto simp: cache_ok_def enumerates_def rows_complete_def demo_run_accounts demo_order_def
        updated_state_new_def nested_get_def demo_database_def split: if_splits)
  from commit_then_read [OF this(1,4,3,2) c, of 2]
  have "balance_at (ledger_of (updated_state_new (pg_channel (snd (commit demo_order 0 demo_run
      demo_database))))) 2 = balance_at (ledger_of demo_run) 2" by blast
  also have "\<dots> = 30" by (simp add: balance_at_def ledger_of_def demo_run_accounts)
  finally show ?thesis .
qed

text \<open>
  The limits of a staking pool do not survive the table. A pool created without a maximal stake
  is written with the numeral 0 in that column and read back with a maximal stake of 0, so once
  the pool is read from the database every stake of a positive amount is refused.
\<close>

theorem unlimited_pool_closed_after_commit:
  assumes "t_staking_pool d (sp_pool_address pool) = None" and "sp_max_stake pool = None"
    and "case sp_min_stake pool of None \<Rightarrow> True | Some m \<Rightarrow> m \<le> amount" and "0 < amount"
  shows "fst (stake (sp_pool_address pool) a n amount
           (updated_state_new (pg_channel (snd (pg_create_staking_pool pool d))))) =
         Inl (AboveMaxStake amount 0)"
proof -
  let ?s = "updated_state_new (pg_channel (snd (pg_create_staking_pool pool d)))"
  obtain q where q: "fst (pg_get_staking_pool (sp_pool_address pool) (snd (pg_create_staking_pool pool d))) = Inr q"
    "sp_max_stake q = Some 0" "\<forall>m. sp_min_stake q = Some m \<longrightarrow> \<not> amount < m"
    using assms
    by (auto simp: pg_get_staking_pool_def pg_create_staking_pool_def or_zero_def split: option.splits)
  then have "fst (get_staking_pool (sp_pool_address pool) ?s) = Inr q"
    by (simp add: get_staking_pool_def updated_state_new_def pg_channel_def up_pool.entry_vacant)
  then show ?thesis
    using q assms(4)
    by (cases "get_staking_pool (sp_pool_address pool) ?s")
      (auto simp: stake_def op_simps split: option.splits)
qed

theorem unlimited_pool_closed_after_commit_witness:
  "fst (stake 9 1 5 20 (updated_state_new (pg_channel (snd (pg_create_staking_pool
      (staking_pool_new 9 1 None 0 0 None None None None None) demo_database))))) =
    Inl (AboveMaxStake 20 0)"
  using unlimited_pool_closed_after_commit [of demo_database
      "staking_pool_new 9 1 None 0 0 None None None None None" 20 1 5]
  by (simp add: staking_pool_new_def demo_database_def)

text \<open>
  A state can be committed when the contracts and instances it creates are new to the database and
  its pools are stored under their own address.
\<close>

definition committable :: "database \<Rightarrow> updated_state \<Rightarrow> bool" where
  "committable d s \<longleftrightarrow>
     (\<forall>a x. contracts s a = Some (Updated x) \<longrightarrow>
        (\<exists>c. x = Some c \<and> uc_address c = a) \<and> t_contract d a = None) \<and>
     (\<forall>a x. contract_instances s a = Some (Updated x) \<longrightarrow>
        (\<exists>c. x = Some c \<and> uci_instance_address c = a) \<and>
        a \<notin> cm_instance_address ` set (t_code_map d)) \<and>
     (\<forall>p pool. staking_pools s p = Some (Updated (Some pool)) \<longrightarrow> sp_pool_address pool = p)"

lemma commit_account_succeeds:
  assumes "cache_ok s"
  shows "\<exists>e. commit_account s a d = (Inr (), e) \<and> t_contract e = t_contract d \<and>
           t_code_map e = t_code_map d"
proof (cases "accounts s a")
  case (Some c)
  then show ?thesis
  proof (cases c)
    case (Updated v)
    with Some assms obtain acc where "v = Some acc" unfolding cache_ok_def by metis
    with Some Updated show ?thesis
      by (auto simp: commit_account_def pg_write_defs op_simps and_then_def split: option.splits)
  qed (simp add: commit_account_def Some ok_def)
qed (simp add: commit_account_def ok_def)

lemma commit_contract_succeeds:
  assumes "\<And>x. contracts s a = Some (Updated x) \<Longrightarrow>
             (\<exists>c. x = Some c \<and> uc_address c = a) \<and> t_contract d a = None"
  shows "\<exists>e. commit_contract s a d = (Inr (), e) \<and> t_code_map e = t_code_map d \<and>
           (\<forall>b. b \<noteq> a \<longrightarrow> t_contract e b = t_contract d b)"
  using assms
  by (cases "contracts s a"; cases "the (contracts s a)")
    (auto simp: commit_contract_def pg_create_contract_def updated_contract_into_def ok_def)

lemma commit_instance_succeeds:
  assumes "\<And>x. contract_instances s a = Some (Updated x) \<Longrightarrow>
             (\<exists>c. x = Some c \<and> uci_instance_address c = a) \<and>
             a \<notin> cm_instance_address ` set (t_code_map d)"
  shows "\<exists>e. commit_instance s a d = (Inr (), e) \<and>
           cm_instance_address ` set (t_code_map e) \<subseteq>
             insert a (cm_instance_address ` set (t_code_map d))"
proof (cases "contract_instances s a")
  case (Some c)
  then show ?thesis
  proof (cases c)
    case (Updated x)
    with Some assms obtain ci where ci: "x = Some ci" "uci_instance_address ci = a"
      and new: "a \<notin> cm_instance_address ` set (t_code_map d)" by metis
    from new have "\<not> list_ex (\<lambda>r. cm_instance_address r = a \<and> P r) (t_code_map d)" for P
      by (auto simp: list_ex_iff)
    with Some Updated ci show ?thesis
      by (auto simp: commit_instance_def pg_create_contract_instance_def Let_def
          updated_contract_instance_into_def)
  qed (auto simp: commit_instance_def ok_def)
qed (auto simp: commit_instance_def ok_def)

lemma commit_value_succeeds: "\<exists>e. commit_value s ik d = (Inr (), e)"
  by (auto simp: commit_value_def pg_write_defs op_simps split: option.splits cached_status.splits)

lemma commit_event_succeeds: "\<exists>e. commit_event now c d = (Inr (), e)"
  by (auto simp: commit_event_def pg_write_defs op_simps split: option.splits cached_status.splits)

lemma commit_metadata_succeeds: "\<exists>e. commit_metadata c d = (Inr (), e)"
  by (auto simp: commit_metadata_def pg_write_defs op_simps split: option.splits cached_status.splits)

lemma commit_pool_succeeds:
  assumes "\<And>pool. staking_pools s p = Some (Updated (Some pool)) \<Longrightarrow> sp_pool_address pool = p"
  shows "\<exists>e. commit_pool s p d = (Inr (), e)"
  using assms
  by (auto simp: commit_pool_def pg_write_defs op_simps and_then_def
      split: option.splits cached_status.splits)

lemma commit_stake_succeeds: "\<exists>e. commit_stake s pa d = (Inr (), e)"
  by (auto simp: commit_stake_def pg_write_defs op_simps and_then_def
      split: option.splits cached_status.splits)

lemma for_each_total:
  assumes "\<And>x d. \<exists>e. f x d = (Inr (), e)"
  shows "\<exists>e. for_each f xs d = (Inr (), e)"
  using for_each_succeeds [of "\<lambda>_ _. True" xs d f] assms by blast

lemma accounts_loop:
  assumes "cache_ok s"
  shows "\<exists>e. for_each (commit_account s) ks d = (Inr (), e) \<and> t_contract e = t_contract d \<and>
           t_code_map e = t_code_map d"
proof (rule for_each_succeeds [where I = "\<lambda>_ e. t_contract e = t_contract d \<and> t_code_map e = t_code_map d"])
  fix x :: address and ys :: "address list" and t :: database
  assume t: "t_contract t = t_contract d \<and> t_code_map t = t_code_map d"
  obtain e where "commit_account s x t = (Inr (), e)" "t_contract e = t_contract t"
    "t_code_map e = t_code_map t"
    using commit_account_succeeds [OF assms] by blast
  with t show "\<exists>t'. commit_account s x t = (Inr (), t') \<and>
      t_contract t' = t_contract d \<and> t_code_map t' = t_code_map d" by auto
qed simp

lemma contracts_loop:
  assumes "distinct ks"
    and "\<And>a x. contracts s a = Some (Updated x) \<Longrightarrow>
           (\<exists>c. x = Some c \<and> uc_address c = a) \<and> t_contract d a = None"
  shows "\<exists>e. for_each (commit_contract s) ks d = (Inr (), e) \<and> t_code_map e = t_code_map d"
proof -
  let ?I = "\<lambda>ys (e :: database). distinct ys \<and>
      (\<forall>a\<in>set ys. \<forall>x. contracts s a = Some (Updated x) \<longrightarrow> t_contract e a = None) \<and>
      t_code_map e = t_code_map d"
  have "\<exists>e. for_each (commit_contract s) ks d = (Inr (), e) \<and> ?I [] e"
  proof (rule for_each_succeeds [where I = ?I])
    fix x ys and t :: database assume I: "?I (x # ys) t"
    obtain e where "commit_contract s x t = (Inr (), e)" "t_code_map e = t_code_map t"
      "\<forall>b. b \<noteq> x \<longrightarrow> t_contract e b = t_contract t b"
      using commit_contract_succeeds [of s x t] assms(2) I by auto
    moreover have "\<forall>a\<in>set ys. a \<noteq> x" using I by auto
    ultimately show "\<exists>t'. commit_contract s x t = (Inr (), t') \<and> ?I ys t'" using I by auto
  qed (use assms in auto)
  then show ?thesis by blast
qed

lemma instances_loop:
  assumes "distinct ks"
    and "\<And>a x. contract_instances s a = Some (Updated x) \<Longrightarrow>
           (\<exists>c. x = Some c \<and> uci_instance_address c = a) \<and>
           a \<notin> cm_instance_address ` set (t_code_map d)"
  shows "\<exists>e. for_each (commit_instance s) ks d = (Inr (), e)"
proof -
  let ?I = "\<lambda>ys (e :: database). distinct ys \<and>
      (\<forall>a\<in>set ys. \<forall>x. contract_instances s a = Some (Updated x) \<longrightarrow>
         a \<notin> cm_instance_address ` set (t_code_map e))"
  have "\<exists>e. for_each (commit_instance s) ks d = (Inr (), e) \<and> ?I [] e"
  proof (rule for_each_succeeds [where I = ?I])
    fix x ys and t :: database assume I: "?I (x # ys) t"
    have "(\<exists>c. z = Some c \<and> uci_instance_address c = x) \<and>
        x \<notin> cm_instance_address ` set (t_code_map t)"
      if "contract_instances s x = Some (Updated z)" for z
      using that assms(2) [OF that] I by simp
    then obtain e where "commit_instance s x t = (Inr (), e)"
      and sub: "cm_instance_address ` set (t_code_map e) \<subseteq>
        insert x (cm_instance_address ` set (t_code_map t))"
      using commit_instance_succeeds [of s x t] by blast
    moreover have "\<forall>a\<in>set ys. a \<noteq> x" using I by auto
    with I sub have "?I ys e" by (auto dest!: subsetD [OF sub])
    ultimately show "\<exists>t'. commit_instance s x t = (Inr (), t') \<and> ?I ys t'" by blast
  qed (use assms in auto)
  then show ?thesis by blast
qed

text \<open>
  A commit succeeds whenever the contracts and contract instances written are new to the
  database and the pools are stored under their own address; in particular a state in which only
  balances, nonces, stakes and contract values changed can always be committed.
\<close>

theorem commit_succeeds:
  assumes "cache_ok s" and "enumerates ord s" and "committable d s"
  shows "fst (commit ord now s d) = Inr ()"
proof -
  obtain d1 where 1: "for_each (commit_account s) (o_accounts ord) d = (Inr (), d1)"
    and d1: "t_contract d1 = t_contract d" "t_code_map d1 = t_code_map d"
    using accounts_loop [OF assms(1)] by blast
  obtain d2 where 2: "for_each (commit_contract s) (o_contracts ord) d1 = (Inr (), d2)"
    and d2: "t_code_map d2 = t_code_map d"
    using contracts_loop [of "o_contracts ord" s d1] assms(2,3) d1
    by (auto simp: enumerates_def committable_def)
  obtain d3 where 3: "for_each (commit_instance s) (o_instances ord) d2 = (Inr (), d3)"
    using instances_loop [of "o_instances ord" s d2] assms(2,3) d2
    by (auto simp: enumerates_def committable_def)
  obtain d4 where 4: "for_each (commit_value s) (o_values ord) d3 = (Inr (), d4)"
    using for_each_total [of "commit_value s"] commit_value_succeeds by blast
  obtain d5 where 5: "for_each (commit_event now) (contract_events s) d4 = (Inr (), d5)"
    using for_each_total [of "commit_event now"] commit_event_succeeds by blast
  have "\<exists>e. commit_pool s p x = (Inr (), e)" for p x
    using assms(3) by (intro commit_pool_succeeds) (simp add: committable_def)
  then obtain d6 where 6: "for_each (commit_pool s) (o_pools ord) d5 = (Inr (), d6)"
    using for_each_total [of "commit_pool s"] by blast
  obtain d7 where 7: "for_each (commit_stake s) (o_stakes ord) d6 = (Inr (), d7)"
    using for_each_total [of "commit_stake s"] commit_stake_succeeds by blast
  obtain e where 8: "for_each commit_metadata (transaction_metadatas s) d7 = (Inr (), e)"
    using for_each_total [of commit_metadata] commit_metadata_succeeds by blast
  from 1 2 3 4 5 6 7 8 show ?thesis by (simp add: commit_def)
qed

theorem commit_succeeds_witness: "fst (commit demo_order 0 demo_run demo_database) = Inr ()"
proof (rule commit_succeeds)
  show "cache_ok demo_run" "enumerates demo_order demo_run" "committable demo_database demo_run"
    by (auto simp: cache_ok_def enumerates_def committable_def demo_run_accounts demo_order_def
        updated_state_new_def nested_get_def split: if_splits)
qed

end
