(* ===== verification/L1X_Commit_Order.thy ===== *)
theory L1X_Commit_Order
  imports L1X_Storage "HOL-Library.Multiset"
begin

text \<open>
  A commit enumerates six hash maps, in an order that the standard library leaves open. This theory shows
  that the order does not matter: the steps of each loop of \<^verbatim>\<open>UpdatedState::commit\<close>
  (\<^verbatim>\<open>state/src/updated_state.rs\<close>, modelled in the theory of the tables) can be exchanged.
\<close>

section \<open>Equivalent databases\<close>

text \<open>Databases that differ only in the order of the rows of the table of instances.\<close>

definition same_rows :: "database \<Rightarrow> database \<Rightarrow> bool" where
  "same_rows d e \<longleftrightarrow>
     (\<exists>rows. e = d\<lparr>t_code_map := rows\<rparr> \<and> mset rows = mset (t_code_map d))"

lemma same_rows_equiv: "transp same_rows" "reflp same_rows"
proof -
  show "transp same_rows" by (rule transpI) (auto simp: same_rows_def)
  have "same_rows d d" for d unfolding same_rows_def by (intro exI [of _ "t_code_map d"]) simp
  then show "reflp same_rows" by (simp add: reflp_def)
qed

text \<open>An operation that neither reads nor writes that table.\<close>

definition skips_rows :: "unit db_op \<Rightarrow> bool" where
  "skips_rows f \<longleftrightarrow> (\<forall>d rows. t_code_map (snd (f d)) = t_code_map d \<and>
     f (d\<lparr>t_code_map := rows\<rparr>) = (fst (f d), snd (f d)\<lparr>t_code_map := rows\<rparr>))"

lemma skips_rowsD:
  "skips_rows f \<Longrightarrow> f d = (r, e) \<Longrightarrow>
     t_code_map e = t_code_map d \<and> f (d\<lparr>t_code_map := rows\<rparr>) = (r, e\<lparr>t_code_map := rows\<rparr>)"
  by (auto simp: skips_rows_def dest!: spec [of _ d])

lemma simulates_skips: "skips_rows f \<Longrightarrow> simulates same_rows f"
  unfolding simulates_def same_rows_def by (metis skips_rowsD)

section \<open>The steps of a commit\<close>

lemmas commit_op_defs = commit_account_def commit_contract_def commit_value_def
  commit_event_def commit_pool_def commit_stake_def commit_metadata_def

lemma commit_skips:
  "skips_rows (commit_account s a)" "skips_rows (commit_contract s a)"
  "skips_rows (commit_value s ik)" "skips_rows (commit_event now ev)"
  "skips_rows (commit_pool s a)" "skips_rows (commit_stake s pa)"
  "skips_rows (commit_metadata m)"
  by (auto simp: skips_rows_def commit_op_defs pg_write_defs op_simps and_then_def cong: if_cong
      split: option.splits cached_status.splits)

lemma commit_instance_simulates: "simulates same_rows (commit_instance s a)"
  unfolding simulates_def
proof (intro allI impI)
  fix d e u assume "same_rows d e" and run: "commit_instance s a d = (Inr (), u)"
  then obtain rows where e: "e = d\<lparr>t_code_map := rows\<rparr>" and rows: "mset rows = mset (t_code_map d)"
    by (auto simp: same_rows_def)
  have ex: "list_ex P rows = list_ex P (t_code_map d)" for P
    using rows by (metis list_ex_iff set_mset_mset)
  have mp: "mset (map f rows) = mset (map f (t_code_map d))" for f
    using rows by simp
  show "\<exists>v. commit_instance s a e = (Inr (), v) \<and> same_rows u v"
    using run rows ex mp
    by (auto simp: e commit_instance_def pg_create_contract_instance_def op_simps Let_def same_rows_def
        split: option.splits cached_status.splits if_splits)
qed

lemma exchangesI:
  assumes "\<And>d u v. I d \<Longrightarrow> f d = (Inr (), u) \<Longrightarrow> g u = (Inr (), v) \<Longrightarrow>
      fst (g d) = Inr () \<and> fst (f (snd (g d))) = Inr () \<and> same_rows v (snd (f (snd (g d))))"
  shows "exchanges I same_rows f g"
  using assms unfolding exchanges_def by (metis prod.collapse)

lemma same_rows_refl: "same_rows d d"
  using same_rows_equiv(2) by (simp add: reflp_def)

lemma commit_account_eq:
  assumes "cache_ok s"
  shows "commit_account s a d =
    (Inr (), d\<lparr>t_account := (t_account d)(a := account_written (accounts s a) (t_account d a))\<rparr>)"
proof -
  have key: "\<exists>w. v = Some w \<and> acc_address w = a" if "accounts s a = Some (Updated v)" for v
    using assms that unfolding cache_ok_def by blast
  then show ?thesis
    by (auto simp: commit_account_def account_written_def pg_write_defs op_simps and_then_def fun_eq_iff
        intro!: arg_cong [of _ _ "\<lambda>t. d\<lparr>t_account := t\<rparr>"] split: option.splits cached_status.splits)
qed

lemma commit_value_eq:
  "commit_value s ik d =
    (Inr (), d\<lparr>t_contract_instance := (t_contract_instance d)(ik :=
       value_written (nested_get (contract_states s) (fst ik) (snd ik)) (t_contract_instance d ik))\<rparr>)"
  by (auto simp: commit_value_def value_written_def pg_write_defs op_simps
      split: option.splits cached_status.splits)

lemma commit_stake_eq:
  assumes "cache_ok s"
  shows "commit_stake s pa d =
    (Inr (), d\<lparr>t_staking_account := (t_staking_account d)(pa :=
       stake_written (nested_get (staking_accounts s) (fst pa) (snd pa)) (t_staking_account d pa))\<rparr>)"
proof -
  have key: "\<exists>w. v = Some w \<and> (sa_pool_address w, sa_account_address w) = pa"
    if "nested_get (staking_accounts s) (fst pa) (snd pa) = Some (Updated v)" for v
    using assms that unfolding cache_ok_def by (metis prod.collapse)
  then show ?thesis
    by (auto simp: commit_stake_def stake_written_def pg_write_defs op_simps and_then_def fun_eq_iff
        intro!: arg_cong [of _ _ "\<lambda>t. d\<lparr>t_staking_account := t\<rparr>"] split: option.splits cached_status.splits)
qed

lemma commit_pool_eq:
  assumes "\<And>v. staking_pools s p = Some (Updated (Some v)) \<Longrightarrow> sp_pool_address v = p"
  shows "\<exists>W. \<forall>d. commit_pool s p d =
    (Inr (), d\<lparr>t_staking_pool := (t_staking_pool d)(p := W (t_staking_pool d p))\<rparr>)"
proof (cases "\<exists>v. staking_pools s p = Some (Updated (Some v))")
  case False
  then have "commit_pool s p d = (Inr (), d\<lparr>t_staking_pool := (t_staking_pool d)(p := id (t_staking_pool d p))\<rparr>)" for d
    by (auto simp: commit_pool_def ok_def split: option.splits cached_status.splits)
  then show ?thesis by blast
next
  case True
  then obtain v where v: "staking_pools s p = Some (Updated (Some v))" "sp_pool_address v = p"
    using assms by blast
  obtain row where row: "\<And>d. pg_create_staking_pool v d =
      (if t_staking_pool d (sp_pool_address v) \<noteq> None then (Inl duplicate_key, d)
       else (Inr (), d\<lparr>t_staking_pool := (t_staking_pool d)(sp_pool_address v \<mapsto> row)\<rparr>))"
    unfolding pg_create_staking_pool_def by blast
  define W where "W = (\<lambda>old. Some (case old of None \<Rightarrow> row
    | Some r \<Rightarrow> (case sp_contract_instance_address v of
        None \<Rightarrow> r\<lparr>spr_updated_block_number := Some (sp_updated_block_number v)\<rparr>
      | Some ci \<Rightarrow> r\<lparr>spr_updated_block_number := Some (sp_updated_block_number v),
                      spr_contract_instance_address := Some (Some ci)\<rparr>)))"
  have "commit_pool s p d = (Inr (), d\<lparr>t_staking_pool := (t_staking_pool d)(p := W (t_staking_pool d p))\<rparr>)" for d
    using v(2)
    by (auto simp: commit_pool_def v(1) W_def row pg_is_staking_pool_exists_def pg_update_pool_row_def
        pg_update_staking_pool_block_number_def pg_update_contract_def op_simps and_then_def fun_eq_iff
        intro!: arg_cong [of _ _ "\<lambda>t. d\<lparr>t_staking_pool := t\<rparr>"] split: option.splits)
  then show ?thesis by blast
qed

lemma exchange_keyed:
  "cache_ok s \<Longrightarrow> b \<noteq> a \<Longrightarrow> exchanges I same_rows (commit_account s b) (commit_account s a)"
  "j \<noteq> i \<Longrightarrow> exchanges I same_rows (commit_value s j) (commit_value s i)"
  "cache_ok s \<Longrightarrow> q \<noteq> p \<Longrightarrow> exchanges I same_rows (commit_stake s q) (commit_stake s p)"
  by (rule exchangesI, auto simp: commit_account_eq commit_value_eq commit_stake_eq fun_upd_twist same_rows_refl)+

lemma exchange_pools:
  assumes key: "\<And>x v. staking_pools s x = Some (Updated (Some v)) \<Longrightarrow> sp_pool_address v = x" and "b \<noteq> a"
  shows "exchanges I same_rows (commit_pool s b) (commit_pool s a)"
proof -
  obtain W where W: "\<And>d. commit_pool s a d =
      (Inr (), d\<lparr>t_staking_pool := (t_staking_pool d)(a := W (t_staking_pool d a))\<rparr>)"
    using commit_pool_eq [of s a, OF key] by auto
  obtain V where V: "\<And>d. commit_pool s b d =
      (Inr (), d\<lparr>t_staking_pool := (t_staking_pool d)(b := V (t_staking_pool d b))\<rparr>)"
    using commit_pool_eq [of s b, OF key] by auto
  show ?thesis
    by (rule exchangesI) (use assms(2) in \<open>auto simp: W V fun_upd_twist same_rows_refl\<close>)
qed

lemma exchange_contracts: "exchanges I same_rows (commit_contract s b) (commit_contract s a)"
  by (rule exchangesI)
    (auto simp: commit_contract_def pg_write_defs op_simps fun_upd_twist same_rows_refl
        split: option.splits cached_status.splits if_splits)

lemma same_rows_update:
  "mset rows = mset rows' \<Longrightarrow> same_rows (d\<lparr>t_code_map := rows\<rparr>) (d\<lparr>t_code_map := rows'\<rparr>)"
  by (auto simp: same_rows_def)

lemma exchange_instances:
  "exchanges (\<lambda>d. \<not> dev_mode d) same_rows (commit_instance s b) (commit_instance s a)"
  by (rule exchangesI)
    (auto simp: commit_instance_def pg_create_contract_instance_def op_simps Let_def
        intro!: same_rows_refl same_rows_update split: option.splits cached_status.splits if_splits)

lemma commit_mode:
  "commit_account s a d = (r, e) \<Longrightarrow> dev_mode e = dev_mode d"
  "commit_contract s a d = (r, e) \<Longrightarrow> dev_mode e = dev_mode d"
  "commit_instance s a d = (r, e) \<Longrightarrow> dev_mode e = dev_mode d"
  by (auto simp: commit_op_defs commit_instance_def pg_write_defs op_simps and_then_def Let_def
      split: option.splits cached_status.splits if_splits)

lemmas rows_any_order = for_each_any_order [OF same_rows_equiv]
lemmas rows_loop = simulatesD [OF simulates_for_each]

text \<open>
  C30: The order in which the hash maps are enumerated does not matter. When the commit of a state
  succeeds in one order, it succeeds in every other, and the two databases hold the same rows in every
  table: accounts, contracts, instances, contract values, events, staking pools, staking accounts and
  transaction metadata. Only the positions of the rows of the table of instances may differ. The
  development mode, in which an instance can replace another one, is excluded.
\<close>

theorem commit_order_irrelevant:
  assumes ck: "cache_ok s" and wf: "wf_ledger (ledger_of s)" and "\<not> dev_mode d"
    and en: "enumerates ord1 s" "enumerates ord2 s" and run: "commit ord1 now s d = (Inr (), e1)"
  shows "\<exists>e2. commit ord2 now s d = (Inr (), e2) \<and> same_rows e1 e2"
proof -
  let ?I = "\<lambda>d. \<not> dev_mode d"
  have key: "sp_pool_address v = x" if "staking_pools s x = Some (Updated (Some v))" for x v
    using wf_poolD [OF wf, of x v] that by (simp add: ledger_of_def)
  obtain d1 d2 d3 d4 d5 d6 d7 where
    1: "for_each (commit_account s) (o_accounts ord1) d = (Inr (), d1)"
    and 2: "for_each (commit_contract s) (o_contracts ord1) d1 = (Inr (), d2)"
    and 3: "for_each (commit_instance s) (o_instances ord1) d2 = (Inr (), d3)"
    and 4: "for_each (commit_value s) (o_values ord1) d3 = (Inr (), d4)"
    and 5: "for_each (commit_event now) (contract_events s) d4 = (Inr (), d5)"
    and 6: "for_each (commit_pool s) (o_pools ord1) d5 = (Inr (), d6)"
    and 7: "for_each (commit_stake s) (o_stakes ord1) d6 = (Inr (), d7)"
    and 8: "for_each commit_metadata (transaction_metadatas s) d7 = (Inr (), e1)"
    using run by (rule commit_phases)
  note skip = simulates_skips [OF commit_skips(1)] simulates_skips [OF commit_skips(2)]
    simulates_skips [OF commit_skips(3)] simulates_skips [OF commit_skips(5)] simulates_skips [OF commit_skips(6)]
  have m: "?I d1" "?I d2"
    using for_each_invariant [of ?I, OF _ assms(3) 1] for_each_invariant [of ?I, OF _ _ 2]
    by (auto dest: commit_mode)
  have lists: "set (o_accounts ord2) = set (o_accounts ord1)" "set (o_contracts ord2) = set (o_contracts ord1)"
    "set (o_instances ord2) = set (o_instances ord1)" "set (o_values ord2) = set (o_values ord1)"
    "set (o_pools ord2) = set (o_pools ord1)" "set (o_stakes ord2) = set (o_stakes ord1)"
    using en by (simp_all add: enumerates_def)
  have dist: "distinct (o_accounts ord)" "distinct (o_contracts ord)" "distinct (o_instances ord)"
    "distinct (o_values ord)" "distinct (o_pools ord)" "distinct (o_stakes ord)" if "enumerates ord s" for ord
    using that by (simp_all add: enumerates_def)
  obtain f1 where f1: "for_each (commit_account s) (o_accounts ord2) d = (Inr (), f1)" "same_rows d1 f1"
    using rows_any_order [where I = "\<lambda>_. True", OF skip(1) exchange_keyed(1) [OF ck] _ lists(1) dist(1) [OF en(1)]
        dist(1) [OF en(2)] same_rows_refl TrueI 1] by blast
  obtain f2 where f2: "for_each (commit_contract s) (o_contracts ord2) f1 = (Inr (), f2)" "same_rows d2 f2"
    using rows_any_order [where I = "\<lambda>_. True", OF skip(2) exchange_contracts _ lists(2) dist(2) [OF en(1)]
        dist(2) [OF en(2)] f1(2) TrueI 2] by blast
  obtain f3 where f3: "for_each (commit_instance s) (o_instances ord2) f2 = (Inr (), f3)" "same_rows d3 f3"
    using rows_any_order [OF commit_instance_simulates exchange_instances _ lists(3) dist(3) [OF en(1)]
        dist(3) [OF en(2)] f2(2) m(2) 3] commit_mode(3) by blast
  obtain f4 where f4: "for_each (commit_value s) (o_values ord2) f3 = (Inr (), f4)" "same_rows d4 f4"
    using rows_any_order [where I = "\<lambda>_. True", OF skip(3) exchange_keyed(2) _ lists(4) dist(4) [OF en(1)]
        dist(4) [OF en(2)] f3(2) TrueI 4] by blast
  obtain f5 where f5: "for_each (commit_event now) (contract_events s) f4 = (Inr (), f5)" "same_rows d5 f5"
    using rows_loop [OF simulates_skips [OF commit_skips(4)] f4(2) 5] by blast
  obtain f6 where f6: "for_each (commit_pool s) (o_pools ord2) f5 = (Inr (), f6)" "same_rows d6 f6"
    using rows_any_order [where I = "\<lambda>_. True", OF skip(4) exchange_pools [OF key] _ lists(5) dist(5) [OF en(1)]
        dist(5) [OF en(2)] f5(2) TrueI 6] by blast
  obtain f7 where f7: "for_each (commit_stake s) (o_stakes ord2) f6 = (Inr (), f7)" "same_rows d7 f7"
    using rows_any_order [where I = "\<lambda>_. True", OF skip(5) exchange_keyed(3) [OF ck] _ lists(6) dist(6) [OF en(1)]
        dist(6) [OF en(2)] f6(2) TrueI 7] by blast
  obtain f8 where f8: "for_each commit_metadata (transaction_metadatas s) f7 = (Inr (), f8)" "same_rows e1 f8"
    using rows_loop [OF simulates_skips [OF commit_skips(7)] f7(2) 8] by blast
  have "commit ord2 now s d = (Inr (), f8)"
    by (simp add: commit_def and_then_def f1 f2 f3 f4 f5 f6 f7 f8)
  with f8(2) show ?thesis by blast
qed

theorem commit_order_irrelevant_witness:
  "\<exists>e. commit (demo_order\<lparr>o_accounts := [1, 2]\<rparr>) 0 demo_run demo_database = (Inr (), e) \<and>
     same_rows (snd (commit demo_order 0 demo_run demo_database)) e"
proof (rule commit_order_irrelevant)
  show "commit demo_order 0 demo_run demo_database =
      (Inr (), snd (commit demo_order 0 demo_run demo_database))"
    by (simp add: commit_def demo_order_def demo_run_accounts updated_state_new_def op_simps
        and_then_def commit_account_def pg_write_defs demo_database_def)
  show "cache_ok demo_run" "enumerates demo_order demo_run" "\<not> dev_mode demo_database"
    "enumerates (demo_order\<lparr>o_accounts := [1, 2]\<rparr>) demo_run"
    by (auto simp: cache_ok_def enumerates_def demo_run_accounts demo_order_def demo_database_def
        updated_state_new_def nested_get_def split: if_splits)
  show "wf_ledger (ledger_of demo_run)"
    by (auto simp: wf_ledger_def ledger_of_def demo_run_accounts updated_state_new_def nested_get_def
        demo_database_def pg_channel_def pg_get_account_def pg_get_staking_pool_def pg_get_staking_account_def
        split: option.splits if_splits)
qed

end
