(* ===== verification/L1X_VM.thy ===== *)
theory L1X_VM
  imports L1X_System "HOL-Library.Signed_Division"
begin

text \<open>
  The host side of the L1X virtual machine (\<^verbatim>\<open>vm/l1x-ebpf-runtime/src\<close>): the shared memory, the
  registers, the gas counter and the system calls through which an eBPF program reaches the chain
  (\<^verbatim>\<open>logic.rs\<close>, \<^verbatim>\<open>syscall_memory.rs\<close>, \<^verbatim>\<open>error.rs\<close>, the version checks of \<^verbatim>\<open>lib.rs\<close>), with
  \<^verbatim>\<open>RuntimeGas\<close> and the fee tables.

  The chain is the trait \<^verbatim>\<open>VMContractTrait\<close>: the record \<open>vm_api\<close> of operations on a host state of
  any type. The eBPF program itself is a \<open>vm_prog\<close>: the tree of the system calls it makes, with what
  it does to its memory and gas in between, for every answer it may receive. So the theorems hold
  for every program and do not depend on the instruction set; \<open>L1X_Ebpf\<close> builds the tree of a
  program from its instructions. IEEE arithmetic is the parameter \<open>vx_float\<close>.

  Addresses and lengths are 64-bit \<^verbatim>\<open>usize\<close> values whose \<^verbatim>\<open>+\<close>, \<^verbatim>\<open>-\<close> and \<^verbatim>\<open>*\<close> wrap in a release build;
  an index or range that the standard library rejects with a panic is the error \<open>HostPanic\<close>.
\<close>

unbundle bit_operations_syntax

section \<open>Errors, gas and fees\<close>

datatype host_error =
    GuestPanic bytes
  | MemoryAccessViolation
  | InvalidRegisterId "64 word"
  | StorageError error
  | ReadonlyCall
  | InvalidAddress
  | InvalidArgument
  | MemorySyscallError "64 word" "64 word" "64 word"
  | OutOfMemoryLimit "64 word" "64 word" "64 word"
  | OutOfGas
  | ContractCallGasLimit gas gas
  | NotSupported
  | UnknownMemoryOp "64 word"
  | MathError "64 word"
  | HostPanic

record runtime_gas =
  rg_gas_limit :: gas
  rg_burnt_gas :: gas

definition runtime_gas_new :: "gas \<Rightarrow> runtime_gas" where
  "runtime_gas_new limit = \<lparr>rg_gas_limit = limit, rg_burnt_gas = 0\<rparr>"

definition burn :: "gas \<Rightarrow> runtime_gas \<Rightarrow> runtime_gas" where
  "burn g rg = rg\<lparr>rg_burnt_gas :=
     (case checked_add (rg_burnt_gas rg) g of Some x \<Rightarrow> x | None \<Rightarrow> - 1)\<rparr>"

definition gas_left :: "runtime_gas \<Rightarrow> gas" where
  "gas_left rg = saturating_sub (rg_gas_limit rg) (rg_burnt_gas rg)"

record vm_execution_fees =
  vf_basic_instruction :: gas
  vf_api_call :: gas
  vf_cross_contract_call :: gas
  vf_storage_write :: gas
  vf_storage_write_per_byte :: gas
  vf_storage_remove :: gas
  vf_token_transfer :: gas
  vf_crate_staking_pool :: gas
  vf_stake :: gas
  vf_unstake :: gas
  vf_emit_event :: gas
  vf_emit_event_per_bytes :: gas

definition create_basic_config :: vm_execution_fees where
  "create_basic_config =
     \<lparr>vf_basic_instruction = 1, vf_api_call = 1, vf_cross_contract_call = 1, vf_storage_write = 1,
      vf_storage_write_per_byte = 0, vf_storage_remove = 1, vf_token_transfer = 1,
      vf_crate_staking_pool = 1, vf_stake = 1, vf_unstake = 1, vf_emit_event = 1, vf_emit_event_per_bytes = 0\<rparr>"

definition CURRENT_RUNTIME_VERSION :: "64 word" where
  "CURRENT_RUNTIME_VERSION = 4"

definition RUNTIME_VERSION_DEPOSIT_FEATURE :: "64 word" where
  "RUNTIME_VERSION_DEPOSIT_FEATURE = 5"

definition CURRENT_OBJECT_VERSION :: "64 word" where
  "CURRENT_OBJECT_VERSION = 1"

record ebpf_object_version =
  ov_object_version :: "64 word"
  ov_expected_rutime_version :: "64 word"

definition verify_version :: "ebpf_object_version \<Rightarrow> error + unit" where
  "verify_version v =
     (if ov_object_version v \<noteq> CURRENT_OBJECT_VERSION
      then Inl (Failed ''Unsupported version of the object'')
      else if ov_expected_rutime_version v = 0 \<or> ov_expected_rutime_version v > CURRENT_RUNTIME_VERSION
      then Inl (Failed ''Unsupported version of the runtime'')
      else Inr ())"

definition is_allowed_syscall :: "ebpf_object_version \<Rightarrow> string \<Rightarrow> error + unit" where
  "is_allowed_syscall v name =
     (if ov_expected_rutime_version v \<ge> RUNTIME_VERSION_DEPOSIT_FEATURE \<and>
         name = ''env_transfer_from_caller''
      then Inl (Failed ''env_transfer_from_caller is not allowed'')
      else Inr ())"

section \<open>Shared memory\<close>

record vm_memory =
  mem_max_pages :: "64 word"
  mem_buffer :: bytes

definition WASM_PAGE_SIZE :: "64 word" where
  "WASM_PAGE_SIZE = 65536"

definition read_bytes :: "nat \<Rightarrow> vm_memory \<Rightarrow> 64 word \<Rightarrow> bytes option" where
  "read_bytes n mem offset =
     (let upto = offset + of_nat n in
      if offset \<le> upto \<and> unat upto \<le> length (mem_buffer mem)
      then Some (take n (drop (unat offset) (mem_buffer mem))) else None)"

text \<open>\<^verbatim>\<open>splice\<close> panics on a range that starts behind its end.\<close>

definition write_bytes :: "bytes \<Rightarrow> 64 word \<Rightarrow> vm_memory \<Rightarrow> (host_error + unit) \<times> vm_memory" where
  "write_bytes data offset mem =
     (let upto = offset + usize_len data in
      if usize_len (mem_buffer mem) < upto then (Inl MemoryAccessViolation, mem)
      else if upto < offset then (Inl HostPanic, mem)
      else (Inr (), mem\<lparr>mem_buffer := take (unat offset) (mem_buffer mem) @ data @
                                     drop (unat upto) (mem_buffer mem)\<rparr>))"

text \<open>
  \<^verbatim>\<open>reserve_exact\<close> panics on a capacity above \<^verbatim>\<open>isize::MAX\<close>; the range of the loop is empty when its
  end has wrapped around. A smaller capacity is taken to be available: that the allocator cannot serve
  it, and aborts the process, depends on the machine, and concerns only slices whose end wraps.
\<close>

definition mem_view :: "vm_memory \<Rightarrow> 64 word \<Rightarrow> 64 word \<Rightarrow> host_error + bytes" where
  "mem_view mem addr len =
     (if unat (addr + len) \<ge> length (mem_buffer mem) then Inl MemoryAccessViolation
      else if unat len \<ge> 2 ^ 63 then Inl HostPanic
      else Inr (map (\<lambda>i. mem_buffer mem ! i) [unat addr ..< unat (addr + len)]))"

definition mem_write :: "64 word \<Rightarrow> bytes \<Rightarrow> vm_memory \<Rightarrow> (host_error + unit) \<times> vm_memory" where
  "mem_write offset data mem =
     (if usize_len data > usize_len (mem_buffer mem) - offset then (Inl MemoryAccessViolation, mem)
      else if unat offset > length (mem_buffer mem) then (Inl HostPanic, mem)
      else (Inr (), mem\<lparr>mem_buffer := take (unat offset) (mem_buffer mem) @ data @
                                     drop (unat offset + length data) (mem_buffer mem)\<rparr>))"

section \<open>The host interface and the state of a call\<close>

text \<open>\<^verbatim>\<open>VMContractTrait\<close>; \<open>api_call_contract\<close> takes instance, function, arguments, gas limit,
  deposit and the read-only flag.\<close>

record 'h vm_api =
  api_contract_instance_owner_address_of :: "address \<Rightarrow> ('h, error, address) op"
  api_contract_code_owner_address_of :: "address \<Rightarrow> ('h, error, address) op"
  api_contract_code_address_of :: "address \<Rightarrow> ('h, error, address) op"
  api_storage_read :: "bytes \<Rightarrow> ('h, error, bytes option) op"
  api_storage_remove :: "bytes \<Rightarrow> ('h, error, unit) op"
  api_storage_write :: "bytes \<Rightarrow> bytes \<Rightarrow> ('h, error, unit) op"
  api_get_balance :: "address \<Rightarrow> ('h, error, balance) op"
  api_transfer_token :: "address \<Rightarrow> address \<Rightarrow> balance \<Rightarrow> ('h, error, unit) op"
  api_call_contract ::
    "address \<Rightarrow> bytes \<Rightarrow> bytes \<Rightarrow> gas \<Rightarrow> balance \<Rightarrow> bool \<Rightarrow> ('h, error, bytes \<times> gas) op"
  api_emit_event :: "bytes \<Rightarrow> ('h, error, unit) op"

record vm_logic =
  vm_registers :: "64 word \<rightharpoonup> bytes"
  vm_memory :: vm_memory
  vm_caller_address :: address
  vm_contract_code_address :: address
  vm_contract_instance_address :: address
  vm_contract_owner_address :: address
  vm_input :: bytes
  vm_return_data :: bytes
  vm_readonly :: bool
  vm_runtime_gas :: runtime_gas
  vm_execution_fees :: vm_execution_fees
  vm_object_version :: ebpf_object_version
  vm_block_number :: block_number
  vm_block_hash :: block_hash
  vm_block_timestamp :: block_timestamp
  vm_deposit :: balance

record contract_call =
  cc_contract_instance_address :: address
  cc_method_name :: bytes
  cc_args :: bytes
  cc_read_only :: bool
  cc_gas_limit :: gas
  cc_deposit :: balance

text \<open>
  Borsh decoding of the two call formats is a parameter: of the second one directly, of the first
  one with its 128-bit fee limit.
\<close>

record borsh =
  borsh_call_v1 :: "bytes \<Rightarrow> (address \<times> bytes \<times> bytes \<times> bool \<times> balance) option"
  borsh_call_v2 :: "bytes \<Rightarrow> (address \<times> bytes \<times> bytes \<times> bool \<times> gas) option"
  borsh_call_v3 :: "bytes \<Rightarrow> (address \<times> bytes \<times> bytes \<times> bool \<times> gas \<times> balance) option"

datatype contract_call_version = CallV1 | CallV2 | CallV3

type_synonym ('h, 'a) vm_op = "(vm_logic \<times> 'h, host_error, 'a) op"

definition on_vm :: "(vm_logic, host_error, 'a) op \<Rightarrow> ('h, 'a) vm_op" where
  "on_vm m = (\<lambda>(vm, h). case m vm of (r, vm') \<Rightarrow> (r, (vm', h)))"

text \<open>A call of the interface sees every result but a panic, which unwinds.\<close>

definition on_host :: "('h, error, 'a) op \<Rightarrow> (error + 'a \<Rightarrow> ('h, 'b) vm_op) \<Rightarrow> ('h, 'b) vm_op" where
  "on_host m k = (\<lambda>(vm, h). case m h of (r, h') \<Rightarrow>
     (case r of
        Inl e \<Rightarrow> if e = Panic then (Inl HostPanic, (vm, h')) else k (Inl e) (vm, h')
      | Inr x \<Rightarrow> k (Inr x) (vm, h')))"

text \<open>\<open>api_or m f\<close> is \<^verbatim>\<open>self.api.m().map_err(f)?\<close>.\<close>

definition api_or :: "('h, error, 'a) op \<Rightarrow> (error \<Rightarrow> host_error) \<Rightarrow> ('h, 'a) vm_op" where
  "api_or m f = on_host m (\<lambda>r. case r of Inl e \<Rightarrow> fail (f e) | Inr x \<Rightarrow> ok x)"

definition or_err :: "host_error + 'a \<Rightarrow> (vm_logic, host_error, 'a) op" where
  "or_err r = (case r of Inl e \<Rightarrow> fail e | Inr x \<Rightarrow> ok x)"

section \<open>VMLogic\<close>

definition write_perm :: "(vm_logic, host_error, unit) op" where
  "write_perm = (\<lambda>vm. if vm_readonly vm then (Inl ReadonlyCall, vm) else (Inr (), vm))"

definition try_burn_gas :: "gas \<Rightarrow> (vm_logic, host_error, unit) op" where
  "try_burn_gas g = (\<lambda>vm.
     let vm' = vm\<lparr>vm_runtime_gas := burn g (vm_runtime_gas vm)\<rparr> in
     if gas_left (vm_runtime_gas vm') = 0 then (Inl OutOfGas, vm') else (Inr (), vm'))"

definition view :: "64 word \<Rightarrow> 64 word \<Rightarrow> (vm_logic, host_error, bytes) op" where
  "view addr len = (\<lambda>vm. (mem_view (vm_memory vm) addr len, vm))"

definition store :: "64 word \<Rightarrow> bytes \<Rightarrow> (vm_logic, host_error, unit) op" where
  "store addr data = (\<lambda>vm. case mem_write addr data (vm_memory vm) of
     (r, mem) \<Rightarrow> (r, vm\<lparr>vm_memory := mem\<rparr>))"

definition set_register :: "64 word \<Rightarrow> bytes \<Rightarrow> (vm_logic, host_error, unit) op" where
  "set_register r data = modify (\<lambda>vm. vm\<lparr>vm_registers := (vm_registers vm)(r \<mapsto> data)\<rparr>)"

definition read_l1x_address :: "64 word \<Rightarrow> 64 word \<Rightarrow> (vm_logic, host_error, address) op" where
  "read_l1x_address ptr len =
     and_then (view ptr len) (\<lambda>bs.
       if length bs = 20 then ok (le_word (rev bs)) else fail InvalidAddress)"

definition read_balance :: "64 word \<Rightarrow> 64 word \<Rightarrow> (vm_logic, host_error, balance) op" where
  "read_balance ptr len =
     and_then (view ptr len) (\<lambda>bs.
       if length bs = 16 then ok (le_word bs) else fail InvalidArgument)"

definition vm_panic :: "64 word \<Rightarrow> 64 word \<Rightarrow> (vm_logic, host_error, unit) op" where
  "vm_panic ptr len =
     (if len > 0 then and_then (view ptr len) (\<lambda>msg. fail (GuestPanic msg))
      else fail (GuestPanic []))"

definition read_register :: "64 word \<Rightarrow> 64 word \<Rightarrow> (vm_logic, host_error, unit) op" where
  "read_register r addr =
     and_then (gets vm_registers) (\<lambda>regs.
       case regs r of Some data \<Rightarrow> store addr data | None \<Rightarrow> fail (InvalidRegisterId r))"

definition register_len :: "64 word \<Rightarrow> (vm_logic, host_error, 64 word) op" where
  "register_len r = gets (\<lambda>vm.
     case vm_registers vm r of Some data \<Rightarrow> usize_len data | None \<Rightarrow> - 1)"

definition write_register :: "64 word \<Rightarrow> 64 word \<Rightarrow> 64 word \<Rightarrow> (vm_logic, host_error, unit) op" where
  "write_register r addr len = and_then (view addr len) (set_register r)"

definition vm_storage_read ::
  "'h vm_api \<Rightarrow> 64 word \<Rightarrow> 64 word \<Rightarrow> 64 word \<Rightarrow> ('h, 64 word) vm_op" where
  "vm_storage_read api key_addr key_len r =
     and_then (on_vm (view key_addr key_len)) (\<lambda>key.
     and_then (api_or (api_storage_read api key) StorageError) (\<lambda>value.
       case value of
         Some v \<Rightarrow> and_then (on_vm (set_register r v)) (\<lambda>_. ok 1)
       | None \<Rightarrow> ok 0))"

definition per_byte_gas :: "gas \<Rightarrow> gas \<Rightarrow> 'a list \<Rightarrow> gas option" where
  "per_byte_gas per_byte base data =
     Option.bind (checked_mul per_byte (usize_len data)) (\<lambda>x. checked_add base x)"

definition vm_storage_write ::
  "'h vm_api \<Rightarrow> 64 word \<Rightarrow> 64 word \<Rightarrow> 64 word \<Rightarrow> 64 word \<Rightarrow> 64 word \<Rightarrow> ('h, 64 word) vm_op" where
  "vm_storage_write api key_addr key_len value_addr value_len r =
     and_then (on_vm write_perm) (\<lambda>_.
     and_then (on_vm (view key_addr key_len)) (\<lambda>key.
     and_then (on_vm (view value_addr value_len)) (\<lambda>value.
     and_then (api_or (api_storage_read api key) StorageError) (\<lambda>evicted.
     and_then (api_or (api_storage_write api key value) StorageError) (\<lambda>_.
     and_then (on_vm (gets (\<lambda>vm. per_byte_gas (vf_storage_write_per_byte (vm_execution_fees vm))
                               (vf_storage_write (vm_execution_fees vm)) value))) (\<lambda>total.
     and_then (ok_or total InvalidArgument) (\<lambda>g.
     and_then (on_vm (try_burn_gas g)) (\<lambda>_.
       case evicted of
         Some v \<Rightarrow> and_then (on_vm (set_register r v)) (\<lambda>_. ok 1)
       | None \<Rightarrow> ok 0))))))))"

definition vm_storage_remove ::
  "'h vm_api \<Rightarrow> 64 word \<Rightarrow> 64 word \<Rightarrow> 64 word \<Rightarrow> ('h, 64 word) vm_op" where
  "vm_storage_remove api key_addr key_len r =
     and_then (on_vm write_perm) (\<lambda>_.
     and_then (on_vm (view key_addr key_len)) (\<lambda>key.
     and_then (api_or (api_storage_read api key) StorageError) (\<lambda>evicted.
     and_then (api_or (api_storage_remove api key) StorageError) (\<lambda>_.
     and_then (on_vm (gets (\<lambda>vm. vf_storage_remove (vm_execution_fees vm)))) (\<lambda>g.
     and_then (on_vm (try_burn_gas g)) (\<lambda>_.
       case evicted of
         Some v \<Rightarrow> and_then (on_vm (set_register r v)) (\<lambda>_. ok 1)
       | None \<Rightarrow> ok 0))))))"

definition storage_write_perm :: "(vm_logic, host_error, 64 word) op" where
  "storage_write_perm =
     attempt write_perm (\<lambda>r. ok (case r of Inr _ \<Rightarrow> 1 | Inl _ \<Rightarrow> 0))"

definition vm_input_call :: "64 word \<Rightarrow> (vm_logic, host_error, unit) op" where
  "vm_input_call r = and_then (gets vm_input) (set_register r)"

definition vm_output_call :: "64 word \<Rightarrow> 64 word \<Rightarrow> (vm_logic, host_error, unit) op" where
  "vm_output_call addr len =
     and_then (view addr len) (\<lambda>data. modify (\<lambda>vm. vm\<lparr>vm_return_data := data\<rparr>))"

definition caller_address :: "64 word \<Rightarrow> (vm_logic, host_error, unit) op" where
  "caller_address r =
     and_then (gets vm_caller_address) (\<lambda>a. set_register r (be_bytes 20 a))"

definition contract_owner_address :: "64 word \<Rightarrow> (vm_logic, host_error, unit) op" where
  "contract_owner_address r =
     and_then (gets vm_contract_owner_address) (\<lambda>a. set_register r (be_bytes 20 a))"

definition contract_owner_address_of ::
  "'h vm_api \<Rightarrow> 64 word \<Rightarrow> 64 word \<Rightarrow> 64 word \<Rightarrow> ('h, unit) vm_op" where
  "contract_owner_address_of api ptr len r =
     and_then (on_vm (read_l1x_address ptr len)) (\<lambda>inst.
     and_then (on_vm (gets (\<lambda>vm. (vm_contract_instance_address vm, vm_contract_owner_address vm))))
       (\<lambda>(self, owner).
     and_then (if inst = self then ok owner
               else api_or (api_contract_instance_owner_address_of api inst) (\<lambda>_. InvalidAddress))
       (\<lambda>a. on_vm (set_register r (be_bytes 20 a)))))"

definition vm_contract_instance_address_call :: "64 word \<Rightarrow> (vm_logic, host_error, unit) op" where
  "vm_contract_instance_address_call r =
     and_then (gets vm_contract_instance_address) (\<lambda>a. set_register r (be_bytes 20 a))"

definition contract_code_address_of ::
  "'h vm_api \<Rightarrow> 64 word \<Rightarrow> 64 word \<Rightarrow> 64 word \<Rightarrow> ('h, unit) vm_op" where
  "contract_code_address_of api ptr len r =
     and_then (on_vm (read_l1x_address ptr len)) (\<lambda>inst.
     and_then (on_vm (gets (\<lambda>vm. (vm_contract_instance_address vm, vm_contract_code_address vm))))
       (\<lambda>(self, code).
     and_then (if inst = self then ok code
               else api_or (api_contract_code_address_of api inst) (\<lambda>_. InvalidAddress))
       (\<lambda>a. on_vm (set_register r (be_bytes 20 a)))))"

definition contract_code_owner_address_of ::
  "'h vm_api \<Rightarrow> 64 word \<Rightarrow> 64 word \<Rightarrow> 64 word \<Rightarrow> ('h, unit) vm_op" where
  "contract_code_owner_address_of api ptr len r =
     and_then (on_vm (read_l1x_address ptr len)) (\<lambda>code.
     and_then (api_or (api_contract_code_owner_address_of api code) (\<lambda>_. InvalidAddress))
       (\<lambda>a. on_vm (set_register r (be_bytes 20 a))))"

definition vm_gas_limit :: "(vm_logic, host_error, gas) op" where
  "vm_gas_limit = gets (\<lambda>vm. rg_gas_limit (vm_runtime_gas vm))"

definition vm_gas_left :: "(vm_logic, host_error, gas) op" where
  "vm_gas_left = gets (\<lambda>vm. gas_left (vm_runtime_gas vm))"

definition store_sized :: "64 word \<Rightarrow> 64 word \<Rightarrow> bytes \<Rightarrow> (vm_logic, host_error, unit) op" where
  "store_sized addr len data =
     (if len \<noteq> usize_len data then fail MemoryAccessViolation else store addr data)"

definition vm_deposit_call :: "64 word \<Rightarrow> 64 word \<Rightarrow> (vm_logic, host_error, unit) op" where
  "vm_deposit_call addr len =
     and_then (gets vm_deposit) (\<lambda>d. store_sized addr len (le_bytes 16 d))"

definition address_balance ::
  "'h vm_api \<Rightarrow> 64 word \<Rightarrow> 64 word \<Rightarrow> 64 word \<Rightarrow> ('h, unit) vm_op" where
  "address_balance api ptr len r =
     and_then (on_vm (read_l1x_address ptr len)) (\<lambda>a.
     on_host (api_get_balance api a) (\<lambda>b.
       on_vm (set_register r (le_bytes 16 (case b of Inr x \<Rightarrow> x | Inl _ \<Rightarrow> 0)))))"

definition transfer_to ::
  "'h vm_api \<Rightarrow> 64 word \<Rightarrow> 64 word \<Rightarrow> 64 word \<Rightarrow> 64 word \<Rightarrow> ('h, 64 word) vm_op" where
  "transfer_to api to_ptr to_len amount_ptr amount_len =
     and_then (on_vm (read_l1x_address to_ptr to_len)) (\<lambda>to_a.
     and_then (on_vm (read_balance amount_ptr amount_len)) (\<lambda>amount.
     and_then (on_vm (gets vm_contract_instance_address)) (\<lambda>from_a.
     and_then (on_vm (gets (\<lambda>vm. vf_token_transfer (vm_execution_fees vm)))) (\<lambda>g.
     and_then (on_vm (try_burn_gas g)) (\<lambda>_.
     on_host (api_transfer_token api from_a to_a amount)
       (\<lambda>r. ok (case r of Inr _ \<Rightarrow> 1 | Inl _ \<Rightarrow> 0)))))))"

definition transfer_from_caller ::
  "'h vm_api \<Rightarrow> 64 word \<Rightarrow> 64 word \<Rightarrow> ('h, 64 word) vm_op" where
  "transfer_from_caller api amount_ptr amount_len =
     and_then (on_vm (gets (\<lambda>vm. ov_expected_rutime_version (vm_object_version vm)))) (\<lambda>version.
     and_then (require (\<not> version \<ge> RUNTIME_VERSION_DEPOSIT_FEATURE) NotSupported) (\<lambda>_.
     and_then (on_vm (read_balance amount_ptr amount_len)) (\<lambda>amount.
     and_then (on_vm (gets (\<lambda>vm. (vm_caller_address vm, vm_contract_instance_address vm))))
       (\<lambda>(from_a, to_a).
     and_then (on_vm (gets (\<lambda>vm. vf_token_transfer (vm_execution_fees vm)))) (\<lambda>g.
     and_then (on_vm (try_burn_gas g)) (\<lambda>_.
     and_then (on_vm (gets vm_deposit)) (\<lambda>d.
       if d > 0 then ok (if amount \<noteq> d then 0 else 1)
       else on_host (api_transfer_token api from_a to_a amount)
              (\<lambda>r. ok (case r of Inr _ \<Rightarrow> 1 | Inl _ \<Rightarrow> 0)))))))))"

definition vm_block_hash_call :: "64 word \<Rightarrow> 64 word \<Rightarrow> (vm_logic, host_error, unit) op" where
  "vm_block_hash_call addr len =
     and_then (gets vm_block_hash) (\<lambda>h. store_sized addr len (be_bytes 32 h))"

definition vm_block_number_call :: "64 word \<Rightarrow> 64 word \<Rightarrow> (vm_logic, host_error, unit) op" where
  "vm_block_number_call addr len =
     and_then (gets vm_block_number) (\<lambda>n. store_sized addr len (le_bytes 16 n))"

definition vm_block_timestamp_call :: "64 word \<Rightarrow> 64 word \<Rightarrow> (vm_logic, host_error, unit) op" where
  "vm_block_timestamp_call addr len =
     and_then (gets vm_block_timestamp) (\<lambda>t.
       store_sized addr len (le_bytes 16 ((ucast t :: 128 word) * 1000)))"

definition decode_call :: "borsh \<Rightarrow> contract_call_version \<Rightarrow> bytes \<Rightarrow> contract_call option" where
  "decode_call B version data =
     (case version of
        CallV1 \<Rightarrow>
          (case borsh_call_v1 B data of
             None \<Rightarrow> None
           | Some (a, m, args, ro, fee_limit) \<Rightarrow>
               if unat fee_limit < 2 ^ 64
               then Some \<lparr>cc_contract_instance_address = a, cc_method_name = m, cc_args = args,
                          cc_read_only = ro, cc_gas_limit = ucast fee_limit, cc_deposit = 0\<rparr>
               else None)
      | CallV2 \<Rightarrow>
          map_option (\<lambda>(a, m, args, ro, g).
            \<lparr>cc_contract_instance_address = a, cc_method_name = m, cc_args = args,
             cc_read_only = ro, cc_gas_limit = g, cc_deposit = 0\<rparr>) (borsh_call_v2 B data)
      | CallV3 \<Rightarrow>
          map_option (\<lambda>(a, m, args, ro, g, d).
            \<lparr>cc_contract_instance_address = a, cc_method_name = m, cc_args = args,
             cc_read_only = ro, cc_gas_limit = g, cc_deposit = d\<rparr>) (borsh_call_v3 B data))"

definition vm_call_contract ::
  "(error \<Rightarrow> bytes) \<Rightarrow> borsh \<Rightarrow> 'h vm_api \<Rightarrow> contract_call_version \<Rightarrow> 64 word \<Rightarrow> 64 word \<Rightarrow>
   64 word \<Rightarrow> ('h, 64 word) vm_op" where
  "vm_call_contract msg B api version addr len r =
     and_then (on_vm (view addr len)) (\<lambda>data.
     and_then (ok_or (decode_call B version data) InvalidArgument) (\<lambda>call.
     and_then (on_vm (gets vm_readonly)) (\<lambda>ro.
     and_then (require (\<not> (ro \<and> \<not> cc_read_only call)) ReadonlyCall) (\<lambda>_.
     and_then (on_vm (gets (\<lambda>vm. vf_cross_contract_call (vm_execution_fees vm)))) (\<lambda>g.
     and_then (on_vm (try_burn_gas g)) (\<lambda>_.
     and_then (on_vm vm_gas_left) (\<lambda>left_gas.
     and_then (require (\<not> left_gas < cc_gas_limit call)
                (ContractCallGasLimit left_gas (cc_gas_limit call))) (\<lambda>_.
     on_host (api_call_contract api (cc_contract_instance_address call) (cc_method_name call)
                (cc_args call) (cc_gas_limit call) (cc_deposit call) (cc_read_only call)) (\<lambda>res.
       case res of
         Inr (data, burnt) \<Rightarrow>
           and_then (on_vm (modify (\<lambda>vm. vm\<lparr>vm_runtime_gas := burn burnt (vm_runtime_gas vm)\<rparr>)))
             (\<lambda>_. and_then (on_vm (set_register r data)) (\<lambda>_. ok 1))
       | Inl e \<Rightarrow> and_then (on_vm (set_register r (msg e))) (\<lambda>_. ok 0))))))))))"

definition vm_emit_event :: "'h vm_api \<Rightarrow> 64 word \<Rightarrow> 64 word \<Rightarrow> ('h, 64 word) vm_op" where
  "vm_emit_event api addr len =
     and_then (on_vm write_perm) (\<lambda>_.
     and_then (on_vm (view addr len)) (\<lambda>data.
     and_then (on_vm (gets (\<lambda>vm. per_byte_gas (vf_emit_event_per_bytes (vm_execution_fees vm))
                               (vf_emit_event (vm_execution_fees vm)) data))) (\<lambda>total.
     and_then (ok_or total InvalidArgument) (\<lambda>g.
     and_then (on_vm (try_burn_gas g)) (\<lambda>_.
     on_host (api_emit_event api data) (\<lambda>r. ok (case r of Inr _ \<Rightarrow> 1 | Inl _ \<Rightarrow> 0)))))))"

section \<open>Memory system calls\<close>

datatype memory_op =
    I32Load | I32Load16S | I32Load16U | I32Load8S | I32Load8U | I64Load | I64Load32S | I64Load32U
  | I64Load16S | I64Load16U | I64Load8S | I64Load8U | F64Load | F32Load | I32Store | I32Store16
  | I32Store8 | I64Store | I64Store32 | I64Store16 | I64Store8 | F32Store | F64Store | MemoryGrow
  | MemorySize

definition memory_ops :: "memory_op list" where
  "memory_ops =
     [I32Load, I32Load16S, I32Load16U, I32Load8S, I32Load8U, I64Load, I64Load32S, I64Load32U,
      I64Load16S, I64Load16U, I64Load8S, I64Load8U, F64Load, F32Load, I32Store, I32Store16,
      I32Store8, I64Store, I64Store32, I64Store16, I64Store8, F32Store, F64Store, MemoryGrow,
      MemorySize]"

definition memory_op_from_u64 :: "64 word \<Rightarrow> memory_op option" where
  "memory_op_from_u64 op = (if 1 \<le> op \<and> op \<le> 25 then Some (memory_ops ! (unat op - 1)) else None)"

definition mem_load ::
  "64 word \<Rightarrow> 64 word \<Rightarrow> 64 word \<Rightarrow> nat \<Rightarrow> (bytes \<Rightarrow> 64 word) \<Rightarrow> (vm_logic, host_error, 64 word) op" where
  "mem_load op addr offset n f =
     and_then (gets vm_memory) (\<lambda>mem.
       case read_bytes n mem (addr + offset) of
         None \<Rightarrow> fail (MemorySyscallError op addr (addr + offset))
       | Some bs \<Rightarrow> ok (f bs))"

definition mem_store ::
  "64 word \<Rightarrow> 64 word \<Rightarrow> 64 word \<Rightarrow> bytes \<Rightarrow> (vm_logic, host_error, 64 word) op" where
  "mem_store op addr offset data = (\<lambda>vm.
     case write_bytes data (addr + offset) (vm_memory vm) of
       (Inr _, mem) \<Rightarrow> (Inr 0, vm\<lparr>vm_memory := mem\<rparr>)
     | (Inl e, mem) \<Rightarrow>
         (Inl (if e = HostPanic then HostPanic
               else MemorySyscallError op addr (addr + offset)), vm))"

definition memory_grow :: "64 word \<Rightarrow> (vm_logic, host_error, 64 word) op" where
  "memory_grow pages = (\<lambda>vm.
     let mem = vm_memory vm;
         old_size = usize_len (mem_buffer mem);
         out_of_limit =
           (Inl (OutOfMemoryLimit (mem_max_pages mem) (old_size div WASM_PAGE_SIZE) pages), vm)
     in case Option.bind (checked_mul pages WASM_PAGE_SIZE) (checked_add old_size) of
          None \<Rightarrow> out_of_limit
        | Some new_size \<Rightarrow>
            if new_size \<le> mem_max_pages mem * WASM_PAGE_SIZE
            then (Inr (old_size div WASM_PAGE_SIZE),
                  vm\<lparr>vm_memory := mem\<lparr>mem_buffer :=
                    mem_buffer mem @ replicate (unat new_size - length (mem_buffer mem)) 0\<rparr>\<rparr>)
            else out_of_limit)"

definition memory_size :: "(vm_logic, host_error, 64 word) op" where
  "memory_size = gets (\<lambda>vm. usize_len (mem_buffer (vm_memory vm)) div WASM_PAGE_SIZE)"

definition syscall_memory_op64 ::
  "64 word \<Rightarrow> 64 word \<Rightarrow> 64 word \<Rightarrow> 64 word \<Rightarrow> (vm_logic, host_error, 64 word) op" where
  "syscall_memory_op64 op addr offset number =
     (let load_u = (\<lambda>n. mem_load op addr offset n le_word);
          write = (\<lambda>n. mem_store op addr offset (le_bytes n number))
      in case memory_op_from_u64 op of
        None \<Rightarrow> fail (UnknownMemoryOp op)
      | Some MemoryGrow \<Rightarrow> memory_grow addr
      | Some MemorySize \<Rightarrow> memory_size
      | Some I32Load \<Rightarrow> load_u 4
      | Some I32Load16S \<Rightarrow> mem_load op addr offset 2 (\<lambda>bs. scast (le_word bs :: 16 word))
      | Some I32Load16U \<Rightarrow> load_u 2
      | Some I32Load8S \<Rightarrow> mem_load op addr offset 1 (\<lambda>bs. scast (le_word bs :: 8 word))
      | Some I32Load8U \<Rightarrow> load_u 1
      | Some I64Load \<Rightarrow> load_u 8
      | Some I64Load32S \<Rightarrow> mem_load op addr offset 4 (\<lambda>bs. scast (le_word bs :: 32 word))
      | Some I64Load32U \<Rightarrow> load_u 4
      | Some I64Load16S \<Rightarrow> mem_load op addr offset 2 (\<lambda>bs. scast (le_word bs :: 16 word))
      | Some I64Load16U \<Rightarrow> load_u 2
      | Some I64Load8S \<Rightarrow> mem_load op addr offset 1 (\<lambda>bs. scast (le_word bs :: 8 word))
      | Some I64Load8U \<Rightarrow> load_u 1
      | Some F64Load \<Rightarrow> load_u 8
      | Some F32Load \<Rightarrow> load_u 4
      | Some F64Store \<Rightarrow> write 8
      | Some I64Store \<Rightarrow> write 8
      | Some F32Store \<Rightarrow> write 4
      | Some I64Store32 \<Rightarrow> write 4
      | Some I32Store \<Rightarrow> write 4
      | Some I64Store16 \<Rightarrow> write 2
      | Some I32Store16 \<Rightarrow> write 2
      | Some I64Store8 \<Rightarrow> write 1
      | Some I32Store8 \<Rightarrow> write 1)"

section \<open>The system call table\<close>

text \<open>
  The helpers that \<^verbatim>\<open>run_internal\<close> registers, with the registers \<^verbatim>\<open>r1\<close> to \<^verbatim>\<open>r5\<close>.
\<close>

datatype syscall =
    EnvMsg | EnvPanic | EnvPanicMsg | EnvInput | EnvRegisterLen | EnvReadRegister
  | EnvWriteRegister | EnvOutput | EnvStorageWrite | EnvStorageRemove | EnvStorageRead
  | EnvStorageWritePerm | EnvCurrentRuntimeVersion | EnvCallerAddress | EnvContractOwnerAddress
  | EnvContractOwnerAddressOf | EnvContractInstanceAddress | EnvContractCodeAddressOf
  | EnvContractCodeOwnerAddressOf | EnvGasLimit | EnvGasLeft | EnvDeposit | EnvAddressBalance
  | EnvTransferTo | EnvTransferFromCaller | EnvBlockNumber | EnvBlockTimestamp | EnvBlockHash
  | EnvCallContract | EnvCallContract2 | EmitEventExperimental | SyscallMemoryOp64
  | SyscallMathOp64

type_synonym regs = "64 word \<times> 64 word \<times> 64 word \<times> 64 word \<times> 64 word"

record vm_ext =
  vx_borsh :: borsh
  vx_message :: "error \<Rightarrow> bytes"
  vx_float :: "64 word \<Rightarrow> 64 word \<Rightarrow> 64 word \<Rightarrow> 64 word option"

text \<open>
  \<^verbatim>\<open>syscall_math_op64\<close>, by the number of the operation (\<^verbatim>\<open>SyscallMathOp\<close>). The quotient of the smallest
  integer by \<^verbatim>\<open>-1\<close> panics in every build.
\<close>

definition leading_zeros :: "'a::len word \<Rightarrow> nat" where
  "leading_zeros w = length (takeWhile (\<lambda>i. \<not> bit w i) (rev [0..<LENGTH('a)]))"

definition trailing_zeros :: "'a::len word \<Rightarrow> nat" where
  "trailing_zeros w = length (takeWhile (\<lambda>i. \<not> bit w i) [0..<LENGTH('a)])"

definition signed_op ::
  "(int \<Rightarrow> int \<Rightarrow> int) \<Rightarrow> 64 word \<Rightarrow> 'a::len word \<Rightarrow> 'a word \<Rightarrow> host_error + 64 word" where
  "signed_op f op a b =
     (if b = 0 then Inl (MathError op)
      else if sint a = - (2 ^ (LENGTH('a) - 1)) \<and> sint b = - 1 then Inl HostPanic
      else Inr (of_int (f (sint a) (sint b))))"

definition syscall_math_op64 ::
  "vm_ext \<Rightarrow> 64 word \<Rightarrow> 64 word \<Rightarrow> 64 word \<Rightarrow> host_error + 64 word" where
  "syscall_math_op64 E op a b =
     (let a32 = ucast a :: 32 word; b32 = ucast b :: 32 word in
      if op = 8 then Inr (a XOR push_bit 63 1)
      else if op = 19 then Inr (ucast (a32 XOR push_bit 31 1))
      else if op = 24 then signed_op (sdiv) op a b
      else if op = 25 then signed_op (sdiv) op a32 b32
      else if op = 26 then signed_op (smod) op a b
      else if op = 27 then signed_op (smod) op a32 b32
      else if op = 28 then Inr (of_nat (leading_zeros a))
      else if op = 29 then Inr (of_nat (leading_zeros a32))
      else if op = 30 then Inr (of_nat (trailing_zeros a))
      else if op = 31 then Inr (of_nat (trailing_zeros a32))
      else if op = 34 then Inr (a AND mask 63)
      else if op = 35 then Inr (ucast (a32 AND mask 31))
      else if 1 \<le> op \<and> op \<le> 51
      then (case vx_float E op a b of Some r \<Rightarrow> Inr r | None \<Rightarrow> Inl (MathError op))
      else Inl (MathError op))"

definition returns_0 :: "('s, 'e, 'a) op \<Rightarrow> ('s, 'e, 64 word) op" where
  "returns_0 m = and_then m (\<lambda>_. ok 0)"

definition env_msg :: "64 word \<Rightarrow> 64 word \<Rightarrow> (vm_logic, host_error, 64 word) op" where
  "env_msg addr len =
     attempt (view addr len) (\<lambda>r. if r = Inl HostPanic then fail HostPanic else ok 0)"

fun env_call :: "vm_ext \<Rightarrow> 'h vm_api \<Rightarrow> syscall \<Rightarrow> regs \<Rightarrow> ('h, 64 word) vm_op" where
  "env_call E api EnvMsg (r1, r2, r3, r4, r5) = on_vm (env_msg r1 r2)"
| "env_call E api EnvPanic (r1, r2, r3, r4, r5) = on_vm (returns_0 (vm_panic 0 0))"
| "env_call E api EnvPanicMsg (r1, r2, r3, r4, r5) = on_vm (returns_0 (vm_panic r1 r2))"
| "env_call E api EnvInput (r1, r2, r3, r4, r5) = on_vm (returns_0 (vm_input_call r1))"
| "env_call E api EnvRegisterLen (r1, r2, r3, r4, r5) = on_vm (register_len r1)"
| "env_call E api EnvReadRegister (r1, r2, r3, r4, r5) = on_vm (returns_0 (read_register r1 r2))"
| "env_call E api EnvWriteRegister (r1, r2, r3, r4, r5) =
     on_vm (returns_0 (write_register r1 r2 r3))"
| "env_call E api EnvOutput (r1, r2, r3, r4, r5) = on_vm (returns_0 (vm_output_call r1 r2))"
| "env_call E api EnvStorageWrite (r1, r2, r3, r4, r5) = vm_storage_write api r1 r2 r3 r4 r5"
| "env_call E api EnvStorageRemove (r1, r2, r3, r4, r5) = vm_storage_remove api r1 r2 r3"
| "env_call E api EnvStorageRead (r1, r2, r3, r4, r5) = vm_storage_read api r1 r2 r3"
| "env_call E api EnvStorageWritePerm (r1, r2, r3, r4, r5) = on_vm storage_write_perm"
| "env_call E api EnvCurrentRuntimeVersion (r1, r2, r3, r4, r5) = ok CURRENT_RUNTIME_VERSION"
| "env_call E api EnvCallerAddress (r1, r2, r3, r4, r5) = on_vm (returns_0 (caller_address r1))"
| "env_call E api EnvContractOwnerAddress (r1, r2, r3, r4, r5) =
     on_vm (returns_0 (contract_owner_address r1))"
| "env_call E api EnvContractOwnerAddressOf (r1, r2, r3, r4, r5) =
     returns_0 (contract_owner_address_of api r1 r2 r3)"
| "env_call E api EnvContractInstanceAddress (r1, r2, r3, r4, r5) =
     on_vm (returns_0 (vm_contract_instance_address_call r1))"
| "env_call E api EnvContractCodeAddressOf (r1, r2, r3, r4, r5) =
     returns_0 (contract_code_address_of api r1 r2 r3)"
| "env_call E api EnvContractCodeOwnerAddressOf (r1, r2, r3, r4, r5) =
     returns_0 (contract_code_owner_address_of api r1 r2 r3)"
| "env_call E api EnvGasLimit (r1, r2, r3, r4, r5) = on_vm vm_gas_limit"
| "env_call E api EnvGasLeft (r1, r2, r3, r4, r5) = on_vm vm_gas_left"
| "env_call E api EnvDeposit (r1, r2, r3, r4, r5) = on_vm (returns_0 (vm_deposit_call r1 r2))"
| "env_call E api EnvAddressBalance (r1, r2, r3, r4, r5) =
     returns_0 (address_balance api r1 r2 r3)"
| "env_call E api EnvTransferTo (r1, r2, r3, r4, r5) = transfer_to api r1 r2 r3 r4"
| "env_call E api EnvTransferFromCaller (r1, r2, r3, r4, r5) = transfer_from_caller api r1 r2"
| "env_call E api EnvBlockHash (r1, r2, r3, r4, r5) = on_vm (returns_0 (vm_block_hash_call r1 r2))"
| "env_call E api EnvBlockNumber (r1, r2, r3, r4, r5) =
     on_vm (returns_0 (vm_block_number_call r1 r2))"
| "env_call E api EnvBlockTimestamp (r1, r2, r3, r4, r5) =
     on_vm (returns_0 (vm_block_timestamp_call r1 r2))"
| "env_call E api EnvCallContract (r1, r2, r3, r4, r5) =
     vm_call_contract (vx_message E) (vx_borsh E) api CallV1 r1 r2 r3"
| "env_call E api EnvCallContract2 (r1, r2, r3, r4, r5) =
     vm_call_contract (vx_message E) (vx_borsh E) api CallV2 r1 r2 r3"
| "env_call E api EmitEventExperimental (r1, r2, r3, r4, r5) = vm_emit_event api r1 r2"
| "env_call E api SyscallMemoryOp64 (r1, r2, r3, r4, r5) =
     on_vm (syscall_memory_op64 r1 r2 r3 r4)"
| "env_call E api SyscallMathOp64 (r1, r2, r3, r4, r5) =
     on_vm (\<lambda>vm. (syscall_math_op64 E r1 r2 r3, vm))"

text \<open>
  \<^verbatim>\<open>EbpfVmMbuff::check_mem\<close>: the bounds check of the load and store instructions, on the three
  regions of the program's own memory, each given by its base address and length.
\<close>

definition in_region :: "64 word \<times> 64 word \<Rightarrow> 64 word \<Rightarrow> 64 word \<Rightarrow> bool" where
  "in_region = (\<lambda>(base, size) addr len. base \<le> addr \<and> addr + len \<le> base + size)"

definition check_mem ::
  "64 word \<times> 64 word \<Rightarrow> 64 word \<times> 64 word \<Rightarrow> 64 word \<times> 64 word \<Rightarrow> 64 word \<Rightarrow> 64 word \<Rightarrow> bool" where
  "check_mem mbuff mem stack addr len \<longleftrightarrow>
     in_region mbuff addr len \<or> in_region mem addr len \<or> in_region stack addr len"

section \<open>Programs\<close>

text \<open>
  An eBPF program as the tree of its system calls. \<open>VmStep p\<close> is an instruction that touches
  neither the shared memory nor the chain, \<open>VmAbort\<close> an interpreter error, \<open>VmCrash\<close> an instruction on
  which the interpreter panics, \<open>VmLeave\<close> the panic after the loop when the program counter is out of
  the code, \<open>VmExit\<close> the final \<^verbatim>\<open>EXIT\<close>. The gas rules are those of \<^verbatim>\<open>execute_program\<close>: no instruction
  starts without gas left, each burns the basic fee, a system call the call fee too, and a failing
  system call stops the program. The shared memory is only reached through \<^verbatim>\<open>syscall_memory_op64\<close>.
\<close>

datatype vm_prog =
    VmExit "64 word"
  | VmAbort
  | VmCrash
  | VmLeave
  | VmStep vm_prog
  | VmSys syscall regs "64 word \<Rightarrow> vm_prog"

datatype vm_failure = VmOutOfGas | VmHostError host_error | VmInterpreterError

definition burn_instruction :: "vm_logic \<Rightarrow> vm_logic" where
  "burn_instruction vm =
     vm\<lparr>vm_runtime_gas := burn (vf_basic_instruction (vm_execution_fees vm)) (vm_runtime_gas vm)\<rparr>"

definition burn_api_call :: "vm_logic \<Rightarrow> vm_logic" where
  "burn_api_call vm =
     vm\<lparr>vm_runtime_gas := burn (vf_api_call (vm_execution_fees vm)) (vm_runtime_gas vm)\<rparr>"

primrec execute_program ::
  "vm_ext \<Rightarrow> 'h vm_api \<Rightarrow> vm_prog \<Rightarrow> (vm_logic \<times> 'h, vm_failure, 64 word) op" where
  "execute_program E api (VmExit r) = (\<lambda>(vm, h).
     if gas_left (vm_runtime_gas vm) = 0 then (Inl VmOutOfGas, (vm, h)) else (Inr r, (vm, h)))"
| "execute_program E api VmAbort = (\<lambda>(vm, h).
     if gas_left (vm_runtime_gas vm) = 0 then (Inl VmOutOfGas, (vm, h))
     else (Inl VmInterpreterError, (vm, h)))"
| "execute_program E api VmCrash = (\<lambda>(vm, h).
     if gas_left (vm_runtime_gas vm) = 0 then (Inl VmOutOfGas, (vm, h))
     else (Inl (VmHostError HostPanic), (vm, h)))"
| "execute_program E api VmLeave = (\<lambda>(vm, h). (Inl (VmHostError HostPanic), (vm, h)))"
| "execute_program E api (VmStep p) = (\<lambda>(vm, h).
     if gas_left (vm_runtime_gas vm) = 0 then (Inl VmOutOfGas, (vm, h))
     else execute_program E api p (burn_instruction vm, h))"
| "execute_program E api (VmSys c regs k) = (\<lambda>(vm, h).
     if gas_left (vm_runtime_gas vm) = 0 then (Inl VmOutOfGas, (vm, h))
     else case env_call E api c regs (vm, h) of
            (Inl e, st) \<Rightarrow> (Inl (VmHostError e), st)
          | (Inr r, (vm', h')) \<Rightarrow>
              execute_program E api (k r) (burn_instruction (burn_api_call vm'), h'))"

section \<open>What a system call leaves alone\<close>

definition vm_same :: "vm_logic \<Rightarrow> vm_logic \<Rightarrow> bool" where
  "vm_same vm vm' \<longleftrightarrow>
     vm_caller_address vm' = vm_caller_address vm \<and>
     vm_contract_instance_address vm' = vm_contract_instance_address vm \<and>
     vm_readonly vm' = vm_readonly vm \<and>
     vm_execution_fees vm' = vm_execution_fees vm \<and>
     rg_gas_limit (vm_runtime_gas vm') = rg_gas_limit (vm_runtime_gas vm) \<and>
     unat (rg_burnt_gas (vm_runtime_gas vm)) \<le> unat (rg_burnt_gas (vm_runtime_gas vm'))"

interpretation vms: frame vm_same
  by unfold_locales (auto simp: vm_same_def)

lemma keeps_math: "keeps vm_same (Pair (syscall_math_op64 E op a b))"
  by (simp add: keeps_def vm_same_def)

text \<open>
  The frame relation of a call: the context of the call stays, the host changes by \<open>W\<close>, and if
  the call is read-only also by \<open>P\<close>.
\<close>

definition vm_rel ::
  "('h \<Rightarrow> 'h \<Rightarrow> bool) \<Rightarrow> ('h \<Rightarrow> 'h \<Rightarrow> bool) \<Rightarrow> vm_logic \<times> 'h \<Rightarrow> vm_logic \<times> 'h \<Rightarrow> bool" where
  "vm_rel W P = (\<lambda>(vm, h) (vm', h').
     vm_same vm vm' \<and> W h h' \<and> (vm_readonly vm \<longrightarrow> P h h'))"

lemma unat_burn:
  "unat (rg_burnt_gas (burn g rg)) = min (2 ^ 64 - 1) (unat (rg_burnt_gas rg) + unat g)"
proof (cases "checked_add (rg_burnt_gas rg) g")
  case (Some x)
  then have "unat x = unat (rg_burnt_gas rg) + unat g" by (simp add: checked_simps)
  with Some show ?thesis using unat_bounded [of x] by (simp add: burn_def)
next
  case None
  then have "2 ^ 64 \<le> unat (rg_burnt_gas rg) + unat g" by (simp add: checked_simps)
  with None show ?thesis
    by (simp add: burn_def unsigned_minus_1_eq_mask mask_eq_exp_minus_1)
qed

lemma burn_limit [simp]: "rg_gas_limit (burn g rg) = rg_gas_limit rg"
  by (simp add: burn_def)

lemma burn_grows [simp]: "unat (rg_burnt_gas rg) \<le> unat (rg_burnt_gas (burn g rg))"
  using unat_bounded [of "rg_burnt_gas rg"] by (simp add: unat_burn)

lemma gas_left_0: "gas_left rg = 0 \<longleftrightarrow> unat (rg_gas_limit rg) \<le> unat (rg_burnt_gas rg)"
  by (simp add: unat_eq_zero [symmetric] gas_left_def checked_simps)

lemma keeps_vm_local [simp]:
  "keeps vm_same write_perm"
  "keeps vm_same (try_burn_gas g)"
  "keeps vm_same (view a l)"
  "keeps vm_same (store a data)"
  "keeps vm_same (set_register r data)"
  by (auto simp: keeps_def vm_same_def write_perm_def try_burn_gas_def Let_def view_def store_def
      set_register_def modify_def split: prod.splits)

lemma keeps_vm_modify:
  "keeps vm_same (modify (\<lambda>vm. vm\<lparr>vm_return_data := d\<rparr>))"
  "keeps vm_same (modify (\<lambda>vm. vm\<lparr>vm_runtime_gas := burn g (vm_runtime_gas vm)\<rparr>))"
  by (auto simp: keeps_def vm_same_def modify_def)

lemma keeps_memory_op [simp]:
  "keeps vm_same (mem_load op a off n f)"
  "keeps vm_same (mem_store op a off data)"
  "keeps vm_same (memory_grow pages)"
  "keeps vm_same memory_size"
  by (auto simp: keeps_def vm_same_def mem_load_def mem_store_def memory_grow_def memory_size_def
      and_then_gets Let_def gets_def ok_def fail_def split: prod.splits sum.splits option.splits)

lemma keeps_syscall_memory [simp]: "keeps vm_same (syscall_memory_op64 op a off n)"
  by (auto simp: syscall_memory_op64_def Let_def vms.keeps_fail split: option.split memory_op.split)

lemmas vm_local_defs =
  read_l1x_address_def read_balance_def vm_panic_def read_register_def register_len_def
  write_register_def storage_write_perm_def vm_input_call_def vm_output_call_def
  caller_address_def contract_owner_address_def vm_contract_instance_address_call_def
  vm_gas_limit_def vm_gas_left_def store_sized_def vm_deposit_call_def vm_block_hash_call_def
  vm_block_number_call_def vm_block_timestamp_call_def env_msg_def returns_0_def

lemma keeps_vm_derived [simp]:
  "keeps vm_same (read_l1x_address p l)"
  "keeps vm_same (read_balance p l)"
  "keeps vm_same (vm_panic p l)"
  "keeps vm_same (read_register r p)"
  "keeps vm_same (register_len r)"
  "keeps vm_same (write_register r p l)"
  "keeps vm_same storage_write_perm"
  "keeps vm_same (vm_input_call r)"
  "keeps vm_same (vm_output_call p l)"
  "keeps vm_same (caller_address r)"
  "keeps vm_same (contract_owner_address r)"
  "keeps vm_same (vm_contract_instance_address_call r)"
  "keeps vm_same vm_gas_limit"
  "keeps vm_same vm_gas_left"
  "keeps vm_same (vm_deposit_call p l)"
  "keeps vm_same (vm_block_hash_call p l)"
  "keeps vm_same (vm_block_number_call p l)"
  "keeps vm_same (vm_block_timestamp_call p l)"
  "keeps vm_same (env_msg p l)"
  by (auto simp: vm_local_defs keeps_vm_modify intro!: vms.keeps_rules)

lemma keeps_returns_0 [simp]: "keeps vm_same m \<Longrightarrow> keeps vm_same (returns_0 m)"
  by (auto simp: returns_0_def intro!: vms.keeps_rules)

text \<open>
  The contract of \<^verbatim>\<open>VMContractTrait\<close>: every operation changes the host by \<open>W\<close>; the reads, the token
  transfer and the read-only calls also by \<open>P\<close>.
\<close>

locale vm_host =
  fixes api :: "'h vm_api" and W P :: "'h \<Rightarrow> 'h \<Rightarrow> bool"
  assumes W_frame: "frame W" and P_frame: "frame P"
    and W_reads:
      "keeps W (api_contract_instance_owner_address_of api a)"
      "keeps W (api_contract_code_owner_address_of api a)"
      "keeps W (api_contract_code_address_of api a)"
      "keeps W (api_storage_read api key)"
      "keeps W (api_get_balance api a)"
    and P_reads:
      "keeps P (api_contract_instance_owner_address_of api a)"
      "keeps P (api_contract_code_owner_address_of api a)"
      "keeps P (api_contract_code_address_of api a)"
      "keeps P (api_storage_read api key)"
      "keeps P (api_get_balance api a)"
    and W_writes:
      "keeps W (api_storage_remove api key)"
      "keeps W (api_storage_write api key val)"
      "keeps W (api_emit_event api val)"
    and transfers:
      "keeps W (api_transfer_token api a b n)"
      "keeps P (api_transfer_token api a b n)"
    and calls:
      "keeps W (api_call_contract api a f args g n ro)"
      "keeps P (api_call_contract api a f args g n True)"
begin

abbreviation rel where "rel \<equiv> vm_rel W P"
abbreviation wrel where "wrel \<equiv> vm_rel W (\<lambda>_ _. True)"

lemma rel_frame: "frame rel"
  using W_frame P_frame by (auto simp: frame_def vm_rel_def vm_same_def)

lemma wrel_frame: "frame wrel"
  using W_frame by (auto simp: frame_def vm_rel_def vm_same_def)

lemma keeps_on_vm_gen:
  fixes Q :: "'h \<Rightarrow> 'h \<Rightarrow> bool"
  assumes "frame Q" and m: "keeps vm_same m"
  shows "keeps (vm_rel W Q) (on_vm m)"
proof (rule keepsI)
  fix st :: "vm_logic \<times> 'h" and r st' assume run: "on_vm m st = (r, st')"
  obtain vm h where st: "st = (vm, h)" by fastforce
  obtain x vm' where m1: "m vm = (x, vm')" by fastforce
  from run st m1 have "st' = (vm', h)" by (simp add: on_vm_def)
  with keepsD [OF m m1] st show "vm_rel W Q st st'"
    using frame.frame_refl [OF W_frame] frame.frame_refl [OF assms(1)] by (simp add: vm_rel_def)
qed

lemmas keeps_on_vm = keeps_on_vm_gen [OF P_frame]

lemma keeps_on_vm_w: "keeps vm_same m \<Longrightarrow> keeps wrel (on_vm m)"
  by (rule keeps_on_vm_gen) (simp_all add: frame_def)

lemma keeps_on_host_gen:
  assumes R: "frame (vm_rel W Q)" and m: "keeps W m" "keeps Q m"
    and k: "\<And>r. keeps (vm_rel W Q) (k r)"
  shows "keeps (vm_rel W Q) (on_host m k)"
proof (rule keepsI)
  fix st r st' assume run: "on_host m k st = (r, st')"
  obtain vm h where st: "st = (vm, h)" by fastforce
  obtain x h1 where m1: "m h = (x, h1)" by fastforce
  have 1: "vm_rel W Q (vm, h) (vm, h1)"
    using keepsD [OF m(1) m1] keepsD [OF m(2) m1] by (simp add: vm_rel_def vms.frame_refl)
  have "vm_rel W Q (vm, h1) st'"
  proof (cases "x = Inl Panic")
    case True
    with run st m1 have "st' = (vm, h1)" by (simp add: on_host_def)
    then show ?thesis using frame.frame_refl [OF R] by simp
  next
    case False
    with run st m1 have "k x (vm, h1) = (r, st')" by (auto simp: on_host_def split: sum.splits)
    then show ?thesis by (rule keepsD [OF k])
  qed
  with 1 show "vm_rel W Q st st'" using frame.frame_trans [OF R] st by blast
qed

lemmas keeps_on_host = keeps_on_host_gen [OF rel_frame]

lemma keeps_on_host_w: "keeps W m \<Longrightarrow> (\<And>r. keeps wrel (k r)) \<Longrightarrow> keeps wrel (on_host m k)"
  by (rule keeps_on_host_gen [OF wrel_frame]) (auto simp: keeps_def)

lemma keeps_write_guard:
  assumes "keeps wrel (k ())" shows "keeps rel (and_then (on_vm write_perm) k)"
proof (rule keepsI)
  fix st r st' assume run: "and_then (on_vm write_perm) k st = (r, st')"
  obtain vm h where st: "st = (vm, h)" by fastforce
  show "rel st st'"
  proof (cases "vm_readonly vm")
    case True
    with run st have "st' = st" by (simp add: on_vm_def write_perm_def)
    then show ?thesis by (simp add: frame.frame_refl [OF rel_frame])
  next
    case False
    with run st have "k () st = (r, st')" by (simp add: on_vm_def write_perm_def)
    from keepsD [OF assms this] False st show ?thesis by (auto simp: vm_rel_def)
  qed
qed

lemma keeps_call_guard:
  assumes "keeps wrel (k ())" and "c \<Longrightarrow> keeps rel (k ())"
  shows "keeps rel (and_then (on_vm (gets vm_readonly))
           (\<lambda>ro. and_then (require (\<not> (ro \<and> \<not> c)) e) k))"
proof (rule keepsI)
  fix st r st'
  assume run: "and_then (on_vm (gets vm_readonly))
                 (\<lambda>ro. and_then (require (\<not> (ro \<and> \<not> c)) e) k) st = (r, st')"
  obtain vm h where st: "st = (vm, h)" by fastforce
  have run': "and_then (require (\<not> (vm_readonly vm \<and> \<not> c)) e) k st = (r, st')"
    using run st by (simp add: on_vm_def gets_def)
  consider "vm_readonly vm" "\<not> c" | "c" | "\<not> vm_readonly vm" by blast
  then show "rel st st'"
  proof cases
    case 1
    with run' have "st' = st" by (simp add: require_def fail_def)
    then show ?thesis by (simp add: frame.frame_refl [OF rel_frame])
  next
    case 2
    with run' have "k () st = (r, st')" by (simp add: require_def ok_def)
    from keepsD [OF assms(2) this] 2 show ?thesis .
  next
    case 3
    with run' have "k () st = (r, st')" by (simp add: require_def ok_def)
    from keepsD [OF assms(1) this] 3 st show ?thesis by (auto simp: vm_rel_def)
  qed
qed

lemma keeps_api_or: "keeps W m \<Longrightarrow> keeps P m \<Longrightarrow> keeps rel (api_or m f)"
  unfolding api_or_def
  by (rule keeps_on_host) (auto intro!: frame.keeps_rules [OF rel_frame])

lemma keeps_api_or_w: "keeps W m \<Longrightarrow> keeps wrel (api_or m f)"
  unfolding api_or_def
  by (rule keeps_on_host_w) (auto intro!: frame.keeps_rules [OF wrel_frame])

lemmas vm_rules =
  frame.keeps_rules [OF rel_frame] keeps_on_vm keeps_api_or keeps_on_host keeps_vm_modify
  vms.keeps_gets

lemmas vm_rules_w =
  frame.keeps_rules [OF wrel_frame] keeps_on_vm_w keeps_api_or_w keeps_on_host_w keeps_vm_modify
  vms.keeps_gets

lemma keeps_storage_read: "keeps rel (vm_storage_read api a l r)"
  unfolding vm_storage_read_def by (auto intro!: vm_rules W_reads P_reads)

lemma keeps_storage_write: "keeps rel (vm_storage_write api a l va vl r)"
  unfolding vm_storage_write_def
  by (rule keeps_write_guard) (auto intro!: vm_rules_w W_reads W_writes)

lemma keeps_storage_remove: "keeps rel (vm_storage_remove api a l r)"
  unfolding vm_storage_remove_def
  by (rule keeps_write_guard) (auto intro!: vm_rules_w W_reads W_writes)

lemma keeps_emit_event: "keeps rel (vm_emit_event api a l)"
  unfolding vm_emit_event_def
  by (rule keeps_write_guard) (auto intro!: vm_rules_w W_writes)

lemma keeps_address_queries:
  "keeps rel (contract_owner_address_of api p l r)"
  "keeps rel (contract_code_address_of api p l r)"
  "keeps rel (contract_code_owner_address_of api p l r)"
  "keeps rel (address_balance api p l r)"
  unfolding contract_owner_address_of_def contract_code_address_of_def
    contract_code_owner_address_of_def address_balance_def
  by (auto intro!: vm_rules W_reads P_reads split: prod.splits)

lemma keeps_token_transfers:
  "keeps rel (transfer_to api p l q m)"
  "keeps rel (transfer_from_caller api q m)"
  unfolding transfer_to_def transfer_from_caller_def
  by (auto intro!: vm_rules transfers split: prod.splits)

lemma keeps_call_contract: "keeps rel (vm_call_contract msg B api v a l r)"
  unfolding vm_call_contract_def
  apply (rule frame.keeps_and_then [OF rel_frame])
   apply (simp add: keeps_on_vm)
  apply (rule frame.keeps_and_then [OF rel_frame])
   apply (rule frame.keeps_ok_or [OF rel_frame])
  apply (rule keeps_call_guard)
   apply (auto intro!: vm_rules_w calls split: prod.splits)[1]
  apply (simp, auto intro!: vm_rules calls split: prod.splits)
  done

lemma keeps_returns: "keeps rel m \<Longrightarrow> keeps rel (returns_0 m)"
  unfolding returns_0_def by (auto intro!: frame.keeps_rules [OF rel_frame])

theorem keeps_env_call: "keeps rel (env_call E api c regs)"
  by (cases "(E, api, c, regs)" rule: env_call.cases)
    (simp_all add: keeps_storage_read keeps_storage_write keeps_storage_remove keeps_emit_event
      keeps_address_queries keeps_token_transfers keeps_call_contract keeps_on_vm keeps_returns
      keeps_math frame.keeps_ok [OF rel_frame])

end

section \<open>Runs of a program\<close>

lemma vm_same_burn [simp]:
  "vm_same vm (burn_instruction vm)"
  "vm_same vm (burn_instruction (burn_api_call vm))"
proof -
  show "vm_same vm (burn_instruction vm)" by (simp add: vm_same_def burn_instruction_def)
  moreover have "vm_same v (burn_api_call v)" for v by (simp add: vm_same_def burn_api_call_def)
  moreover have "vm_same v (burn_instruction v)" for v
    by (simp add: vm_same_def burn_instruction_def)
  ultimately show "vm_same vm (burn_instruction (burn_api_call vm))"
    using vms.frame_trans by blast
qed

context vm_host
begin

lemma rel_local: "vm_same vm vm' \<Longrightarrow> rel (vm, h) (vm', h)"
  using frame.frame_refl [OF W_frame] frame.frame_refl [OF P_frame] by (simp add: vm_rel_def)

theorem keeps_execute_program: "keeps rel (execute_program E api p)"
proof (induction p)
  case (VmExit r)
  then show ?case by (auto simp: keeps_def intro: frame.frame_refl [OF rel_frame])
next
  case VmAbort
  then show ?case by (auto simp: keeps_def intro: frame.frame_refl [OF rel_frame])
next
  case VmCrash
  then show ?case by (auto simp: keeps_def intro: frame.frame_refl [OF rel_frame])
next
  case VmLeave
  then show ?case by (auto simp: keeps_def intro: frame.frame_refl [OF rel_frame])
next
  case (VmStep p)
  show ?case
  proof (rule keepsI)
    fix st r st' assume run: "execute_program E api (VmStep p) st = (r, st')"
    obtain vm h where st: "st = (vm, h)" by fastforce
    have "rel (vm, h) (burn_instruction vm, h)" by (simp add: rel_local)
    moreover have "st' = st \<or> execute_program E api p (burn_instruction vm, h) = (r, st')"
      using run st by (simp split: if_splits)
    ultimately show "rel st st'"
      using VmStep keepsD frame.frame_refl [OF rel_frame] frame.frame_trans [OF rel_frame] st
      by metis
  qed
next
  case (VmSys c regs k)
  show ?case
  proof (rule keepsI)
    fix st r st' assume run: "execute_program E api (VmSys c regs k) st = (r, st')"
    obtain vm h where st: "st = (vm, h)" by fastforce
    obtain x vm1 h1 where call: "env_call E api c regs (vm, h) = (x, (vm1, h1))"
      by (metis prod.exhaust)
    have 1: "rel (vm, h) (vm1, h1)" using keepsD [OF keeps_env_call call] .
    consider "st' = st" | "st' = (vm1, h1)"
      | y where "x = Inr y"
        "execute_program E api (k y) (burn_instruction (burn_api_call vm1), h1) = (r, st')"
      using run st call by (auto split: if_splits sum.splits)
    then show "rel st st'"
    proof cases
      case 3
      have "rel (vm1, h1) (burn_instruction (burn_api_call vm1), h1)" by (simp add: rel_local)
      moreover have "rel (burn_instruction (burn_api_call vm1), h1) st'"
        using keepsD [OF VmSys 3(2)] by simp
      ultimately show ?thesis using 1 st frame.frame_trans [OF rel_frame] by blast
    qed (use 1 st frame.frame_refl [OF rel_frame] in auto)
  qed
qed

end

interpretation any_host: vm_host api "\<lambda>_ _. True" "\<lambda>_ _. True" for api
  by unfold_locales (auto simp: keeps_def)

lemma execute_program_same:
  "execute_program E api p (vm, h) = (r, (vm', h')) \<Longrightarrow> vm_same vm vm'"
  using keepsD [OF any_host.keeps_execute_program] by (fastforce simp: vm_rel_def)

lemma execute_program_exit_gas:
  "execute_program E api p st = (Inr r, (vm', h')) \<Longrightarrow> gas_left (vm_runtime_gas vm') \<noteq> 0"
proof (induction p arbitrary: st)
  case (VmSys c regs k)
  then show ?case by (fastforce split: prod.splits sum.splits if_splits)
qed (auto split: prod.splits if_splits)

text \<open>
  A program that returns has burnt strictly less gas than its limit, whatever it called, and
  the gas burnt never decreases during a run.
\<close>

theorem program_returns_below_gas_limit:
  assumes "execute_program E api p (vm, h) = (Inr r, (vm', h'))"
  shows "rg_burnt_gas (vm_runtime_gas vm') < rg_gas_limit (vm_runtime_gas vm) \<and>
         rg_burnt_gas (vm_runtime_gas vm) \<le> rg_burnt_gas (vm_runtime_gas vm')"
  using execute_program_same [OF assms] execute_program_exit_gas [OF assms]
  by (simp add: vm_same_def gas_left_0 word_less_nat_alt word_le_nat_alt)

section \<open>Shared memory\<close>

lemma unat_add_no_wrap:
  "unat (a :: 64 word) + unat b < 2 ^ 64 \<Longrightarrow> unat (a + b) = unat a + unat b"
  by (simp add: unat_word_ariths)

lemma unat_usize_len: "length xs < 2 ^ 64 \<Longrightarrow> unat (usize_len xs) = length xs"
  by (simp add: usize_len_def unsigned_of_nat take_bit_nat_eq_self)

lemma mem_view_inside:
  assumes "length (mem_buffer mem) < 2 ^ 63" and "unat a + unat l < length (mem_buffer mem)"
  shows "mem_view mem a l = Inr (take (unat l) (drop (unat a) (mem_buffer mem)))"
proof -
  have "unat (a + l) = unat a + unat l" using assms by (intro unat_add_no_wrap) simp
  moreover have "map (\<lambda>i. mem_buffer mem ! i) [unat a ..< unat a + unat l] =
      take (unat l) (drop (unat a) (mem_buffer mem))"
    using assms by (intro nth_equalityI) auto
  ultimately show ?thesis using assms by (simp add: mem_view_def)
qed

lemma mem_view_slices_parts:
  assumes "length (mem_buffer mem) < 2 ^ 63"
  shows "unat a + unat l < length (mem_buffer mem) \<Longrightarrow>
           mem_view mem a l = Inr (take (unat l) (drop (unat a) (mem_buffer mem)))"
    and "unat a + unat l = length (mem_buffer mem) \<Longrightarrow>
           mem_view mem a l = Inl MemoryAccessViolation"
proof -
  show "mem_view mem a l = Inr (take (unat l) (drop (unat a) (mem_buffer mem)))"
    if "unat a + unat l < length (mem_buffer mem)"
    using assms that by (rule mem_view_inside)
  show "mem_view mem a l = Inl MemoryAccessViolation"
    if "unat a + unat l = length (mem_buffer mem)"
    using that assms unat_add_no_wrap [of a l] by (simp add: mem_view_def)
qed

text \<open>
  The host reads guest memory exactly for slices that end before the last byte: it returns the
  bytes of such a slice, and refuses a slice that lies inside the memory but ends with its last
  byte.
\<close>

theorem mem_view_slices:
  assumes "length (mem_buffer mem) < 2 ^ 63"
  shows "(unat a + unat l < length (mem_buffer mem) \<longrightarrow>
            mem_view mem a l = Inr (take (unat l) (drop (unat a) (mem_buffer mem)))) \<and>
         (unat a + unat l = length (mem_buffer mem) \<longrightarrow>
            mem_view mem a l = Inl MemoryAccessViolation)"
  using mem_view_slices_parts [OF assms] by simp

theorem mem_view_slices_witness:
  "mem_view \<lparr>mem_max_pages = 1, mem_buffer = [7, 8, 9]\<rparr> 1 1 = Inr [8] \<and>
   mem_view \<lparr>mem_max_pages = 1, mem_buffer = [7, 8, 9]\<rparr> 1 2 = Inl MemoryAccessViolation"
  using mem_view_slices [of "\<lparr>mem_max_pages = 1, mem_buffer = [7, 8, 9]\<rparr>" 1 1]
    mem_view_slices [of "\<lparr>mem_max_pages = 1, mem_buffer = [7, 8, 9]\<rparr>" 1 2]
  by simp


definition demo_vm :: "bytes \<Rightarrow> bool \<Rightarrow> vm_logic" where
  "demo_vm buffer ro =
     \<lparr>vm_registers = Map.empty, vm_memory = \<lparr>mem_max_pages = 1, mem_buffer = buffer\<rparr>,
      vm_caller_address = 1, vm_contract_code_address = 7, vm_contract_instance_address = 8,
      vm_contract_owner_address = 1, vm_input = [], vm_return_data = [], vm_readonly = ro,
      vm_runtime_gas = runtime_gas_new 100, vm_execution_fees = create_basic_config,
      vm_object_version = \<lparr>ov_object_version = 1, ov_expected_rutime_version = 4\<rparr>,
      vm_block_number = 0, vm_block_hash = 0, vm_block_timestamp = 0, vm_deposit = 0\<rparr>"

definition demo_ext :: vm_ext where
  "demo_ext =
     \<lparr>vx_borsh = \<lparr>borsh_call_v1 = (\<lambda>_. None), borsh_call_v2 = (\<lambda>_. None), borsh_call_v3 = (\<lambda>_. None)\<rparr>,
      vx_message = (\<lambda>_. []), vx_float = (\<lambda>_ _ _. None)\<rparr>"

text \<open>A host whose state is the list of the transfers made.\<close>

definition transfer_log :: "(address \<times> address \<times> balance) list vm_api" where
  "transfer_log =
     \<lparr>api_contract_instance_owner_address_of = (\<lambda>_. ok 1),
      api_contract_code_owner_address_of = (\<lambda>_. ok 1),
      api_contract_code_address_of = (\<lambda>_. ok 7),
      api_storage_read = (\<lambda>_. ok None),
      api_storage_remove = (\<lambda>_. ok ()),
      api_storage_write = (\<lambda>_ _. ok ()),
      api_get_balance = (\<lambda>_. ok 0),
      api_transfer_token = (\<lambda>a b n. modify (\<lambda>l. l @ [(a, b, n)])),
      api_call_contract = (\<lambda>_ _ _ _ _ _. fail (Failed [])),
      api_emit_event = (\<lambda>_. ok ())\<rparr>"

theorem program_returns_below_gas_limit_witness:
  "\<exists>vm' h'. execute_program demo_ext transfer_log
      (VmStep (VmSys EnvGasLeft (0, 0, 0, 0, 0) VmExit)) (demo_vm [] False, []) = (Inr 99, (vm', h')) \<and>
    rg_burnt_gas (vm_runtime_gas vm') < 100"
proof -
  obtain vm' h' where run: "execute_program demo_ext transfer_log
      (VmStep (VmSys EnvGasLeft (0, 0, 0, 0, 0) VmExit)) (demo_vm [] False, []) = (Inr 99, (vm', h'))"
    by (simp add: demo_vm_def runtime_gas_new_def gas_left_def saturating_sub_def burn_instruction_def
        burn_api_call_def burn_def checked_add_def create_basic_config_def on_vm_def vm_gas_left_def
        gets_def)
  from program_returns_below_gas_limit [OF this] run show ?thesis
    by (auto simp: demo_vm_def runtime_gas_new_def)
qed

lemma memory_store_then_load_parts:
  assumes len: "length (mem_buffer (vm_memory vm)) < 2 ^ 63"
    and run: "syscall_memory_op64 18 a off number vm = (Inr x, vm')"
  shows "syscall_memory_op64 6 a off 0 vm' = (Inr number, vm')"
    and "length (mem_buffer (vm_memory vm')) = length (mem_buffer (vm_memory vm))"
proof -
  let ?b = "mem_buffer (vm_memory vm)" and ?o = "a + off"
  let ?u = "?o + 8"
  have ops: "memory_op_from_u64 18 = Some I64Store" "memory_op_from_u64 6 = Some I64Load"
    by (simp_all add: memory_op_from_u64_def memory_ops_def)
  have len8: "usize_len (le_bytes 8 number) = 8" by (simp add: usize_len_def)
  have st: "mem_store 18 a off (le_bytes 8 number) vm = (Inr x, vm')"
    using run by (simp add: syscall_memory_op64_def Let_def ops)
  then have g: "\<not> usize_len ?b < ?u" "\<not> ?u < ?o"
    by (auto simp: mem_store_def write_bytes_def Let_def len8 split: if_splits)
  with st have vm': "vm' = vm\<lparr>vm_memory := (vm_memory vm)\<lparr>mem_buffer :=
       take (unat ?o) ?b @ le_bytes 8 number @ drop (unat ?u) ?b\<rparr>\<rparr>"
    by (simp add: mem_store_def write_bytes_def Let_def len8)
  have u: "unat ?u = unat ?o + 8"
    using g(2) by (simp add: unat_plus_if' word_less_nat_alt split: if_splits)
  have le: "unat ?o + 8 \<le> length ?b"
    using g(1) u len by (simp add: word_less_nat_alt unat_usize_len)
  show "length (mem_buffer (vm_memory vm')) = length ?b" using le u by (simp add: vm')
  have "read_bytes 8 (vm_memory vm') ?o = Some (le_bytes 8 number)"
    using le u g(2) by (simp add: read_bytes_def vm' Let_def)
  then show "syscall_memory_op64 6 a off 0 vm' = (Inr number, vm')"
    by (simp add: syscall_memory_op64_def Let_def ops mem_load_def and_then_gets le_word_le_bytes ok_def)
qed

text \<open>
  A word stored with a store system call is what the load of the same width reads back, and
  the memory keeps its size.
\<close>

theorem memory_store_then_load:
  assumes "length (mem_buffer (vm_memory vm)) < 2 ^ 63"
    and "syscall_memory_op64 18 a off number vm = (Inr x, vm')"
  shows "syscall_memory_op64 6 a off 0 vm' = (Inr number, vm') \<and>
         length (mem_buffer (vm_memory vm')) = length (mem_buffer (vm_memory vm))"
  using memory_store_then_load_parts [OF assms] by simp

theorem memory_store_then_load_witness:
  "\<exists>vm'. syscall_memory_op64 18 1 0 513 (demo_vm (replicate 10 0) False) = (Inr 0, vm') \<and>
     fst (syscall_memory_op64 6 1 0 0 vm') = Inr 513"
proof -
  have op: "memory_op_from_u64 18 = Some I64Store"
    by (simp add: memory_op_from_u64_def memory_ops_def)
  obtain vm' where run: "syscall_memory_op64 18 1 0 513 (demo_vm (replicate 10 0) False) = (Inr 0, vm')"
    by (simp add: syscall_memory_op64_def Let_def op mem_store_def write_bytes_def usize_len_def
        demo_vm_def)
  from memory_store_then_load [OF _ run] run show ?thesis by (auto simp: demo_vm_def)
qed

lemma program_can_panic_host_parts:
  assumes gas: "gas_left (vm_runtime_gas vm) \<noteq> 0"
    and size: "length (mem_buffer (vm_memory vm)) < unat a" "unat a < 2 ^ 63"
    and size': "4 \<le> length (mem_buffer (vm_memory vm))"
  shows "fst (execute_program E api (VmSys EnvBlockHash (a, 32, 0, 0, 0) k) (vm, h)) =
           Inl (VmHostError HostPanic)"
    and "fst (execute_program E api (VmSys SyscallMemoryOp64 (18, - 4, 0, n, 0) k) (vm, h)) =
           Inl (VmHostError HostPanic)"
proof -
  let ?b = "mem_buffer (vm_memory vm)"
  have ul: "unat (usize_len ?b) = length ?b" using size by (intro unat_usize_len) simp
  have "unat (usize_len ?b - a) = 2 ^ 64 + length ?b - unat a"
    using size ul unat_bounded [of a] by (simp add: unat_sub_if')
  then have "\<not> usize_len ?b - a < 32" using size by (simp add: word_less_nat_alt)
  then have "fst (vm_block_hash_call a 32 vm) = Inl HostPanic"
    using size
    by (simp add: vm_block_hash_call_def and_then_gets store_sized_def usize_len_def [of "be_bytes _ _"]
        store_def mem_write_def)
  then have "fst (on_vm (returns_0 (vm_block_hash_call a 32)) (vm, h)) = Inl HostPanic"
    by (auto simp: on_vm_def returns_0_def and_then_def split: prod.splits sum.splits)
  with gas show "fst (execute_program E api (VmSys EnvBlockHash (a, 32, 0, 0, 0) k) (vm, h)) =
           Inl (VmHostError HostPanic)"
    by (auto split: prod.splits sum.splits)
  have op: "memory_op_from_u64 18 = Some I64Store"
    by (simp add: memory_op_from_u64_def memory_ops_def)
  have "\<not> usize_len ?b < 4" using size' ul by (simp add: word_less_nat_alt)
  then have "fst (syscall_memory_op64 18 (- 4) 0 n vm) = Inl HostPanic"
    by (simp add: syscall_memory_op64_def Let_def op mem_store_def write_bytes_def
        usize_len_def [of "le_bytes _ _"])
  then have "fst (on_vm (syscall_memory_op64 18 (- 4) 0 n) (vm, h)) = Inl HostPanic"
    by (auto simp: on_vm_def split: prod.splits)
  with gas show "fst (execute_program E api (VmSys SyscallMemoryOp64 (18, - 4, 0, n, 0) k) (vm, h)) =
           Inl (VmHostError HostPanic)"
    by (auto split: prod.splits sum.splits)
qed

text \<open>
  Host panics. A program that asks for the block hash at an address behind its shared memory,
  or stores a word at an address so high that its end wraps around, makes the host panic, whatever
  the state of the chain: neither is reported to the program or turned into a failed call.
\<close>

theorem program_can_panic_host:
  assumes "gas_left (vm_runtime_gas vm) \<noteq> 0"
    and "length (mem_buffer (vm_memory vm)) < unat a" and "unat a < 2 ^ 63"
    and "4 \<le> length (mem_buffer (vm_memory vm))"
  shows "fst (execute_program E api (VmSys EnvBlockHash (a, 32, 0, 0, 0) k) (vm, h)) =
           Inl (VmHostError HostPanic) \<and>
         fst (execute_program E api (VmSys SyscallMemoryOp64 (18, - 4, 0, n, 0) k) (vm, h)) =
           Inl (VmHostError HostPanic)"
  by (rule conjI) (rule program_can_panic_host_parts [OF assms])+

theorem program_can_panic_host_witness:
  "fst (execute_program demo_ext transfer_log (VmSys EnvBlockHash (9, 32, 0, 0, 0) VmExit)
         (demo_vm (replicate 4 0) True, [])) = Inl (VmHostError HostPanic)"
  by (rule conjunct1, rule program_can_panic_host)
    (simp_all add: demo_vm_def runtime_gas_new_def gas_left_def saturating_sub_def)

text \<open>
  A read-only call can move tokens. The system call \<^verbatim>\<open>env_transfer_to\<close> does not look at the
  read-only flag: with gas left and an address and an amount in memory it runs the transfer from
  the called contract and returns what the host answers.
\<close>

theorem readonly_call_transfers:
  assumes "vm_readonly vm"
    and "read_l1x_address p pl vm = (Inr to_a, vm)" and "read_balance q ql vm = (Inr n, vm)"
    and "gas_left (burn (vf_token_transfer (vm_execution_fees vm)) (vm_runtime_gas vm)) \<noteq> 0"
    and "api_transfer_token api (vm_contract_instance_address vm) to_a n h = (Inr (), h')"
  shows "\<exists>vm'. vm_readonly vm' \<and>
           env_call E api EnvTransferTo (p, pl, q, ql, r5) (vm, h) = (Inr 1, (vm', h'))"
  using assms
  by (simp add: transfer_to_def and_then_def on_vm_def gets_def try_burn_gas_def Let_def on_host_def
      ok_def)

definition demo_transfer_memory :: bytes where
  "demo_transfer_memory =
     [0, 0, 0, 0, 0, 0, 0, 0, 0, 0, 0, 0, 0, 0, 0, 0, 0, 0, 0, 5,
      9, 0, 0, 0, 0, 0, 0, 0, 0, 0, 0, 0, 0, 0, 0, 0, 0]"

lemma demo_transfer_read:
  "read_l1x_address 0 20 (demo_vm demo_transfer_memory ro) = (Inr 5, demo_vm demo_transfer_memory ro)"
  "read_balance 20 16 (demo_vm demo_transfer_memory ro) = (Inr 9, demo_vm demo_transfer_memory ro)"
  by (simp_all add: read_l1x_address_def read_balance_def and_then_def view_def mem_view_inside
      demo_vm_def demo_transfer_memory_def ok_def)

theorem readonly_call_transfers_witness:
  "\<exists>vm'. env_call demo_ext transfer_log EnvTransferTo (0, 20, 20, 16, 0)
      (demo_vm demo_transfer_memory True, []) = (Inr 1, (vm', [(8, 5, 9)]))"
proof -
  have "api_transfer_token transfer_log 8 5 9 [] = (Inr (), [(8, 5, 9)])"
    by (simp add: transfer_log_def modify_def)
  with readonly_call_transfers [OF _ demo_transfer_read, of True transfer_log "[]" "[(8, 5, 9)]"
      demo_ext 0] show ?thesis
    by (auto simp: demo_vm_def runtime_gas_new_def create_basic_config_def burn_def checked_add_def
        gas_left_def saturating_sub_def)
qed

lemma check_mem_bounds_parts:
  assumes fits: "unat (fst mbuff) + unat (snd mbuff) < 2 ^ 64"
      "unat (fst mem) + unat (snd mem) < 2 ^ 64" "unat (fst stack) + unat (snd stack) < 2 ^ 64"
  shows "check_mem mbuff mem stack addr len \<Longrightarrow> unat addr + unat len < 2 ^ 64 \<Longrightarrow>
           \<exists>r \<in> {mbuff, mem, stack}.
             unat (fst r) \<le> unat addr \<and> unat addr + unat len \<le> unat (fst r) + unat (snd r)"
    and "8 \<le> unat (snd mem) \<Longrightarrow> check_mem mbuff mem stack (- 1) 8"
proof -
  have region: "in_region r addr len \<longleftrightarrow>
      unat (fst r) \<le> unat addr \<and> unat addr + unat len \<le> unat (fst r) + unat (snd r)"
    if "unat (fst r) + unat (snd r) < 2 ^ 64" "unat addr + unat len < 2 ^ 64" for r
    using that by (simp add: in_region_def case_prod_unfold word_le_nat_alt unat_add_no_wrap)
  show "\<exists>r \<in> {mbuff, mem, stack}.
             unat (fst r) \<le> unat addr \<and> unat addr + unat len \<le> unat (fst r) + unat (snd r)"
    if "check_mem mbuff mem stack addr len" "unat addr + unat len < 2 ^ 64"
    using that fits by (auto simp: check_mem_def region)
  have "unat (- 1 :: 64 word) = 2 ^ 64 - 1"
    by (simp add: unsigned_minus_1_eq_mask mask_eq_exp_minus_1)
  then show "check_mem mbuff mem stack (- 1) 8" if "8 \<le> unat (snd mem)"
    using that fits(2) unat_bounded [of "fst mem"]
    by (simp add: check_mem_def in_region_def case_prod_unfold word_le_nat_alt unat_add_no_wrap)
qed

text \<open>
  The bounds check of the eBPF load and store instructions. If the end of the access does not
  wrap around, an access that passes lies inside one of the three regions; an address close enough
  to the top of the address space passes although it lies in none of them.
\<close>

theorem check_mem_bounds:
  assumes "unat (fst mbuff) + unat (snd mbuff) < 2 ^ 64"
    and "unat (fst mem) + unat (snd mem) < 2 ^ 64" and "unat (fst stack) + unat (snd stack) < 2 ^ 64"
  shows "(check_mem mbuff mem stack addr len \<longrightarrow> unat addr + unat len < 2 ^ 64 \<longrightarrow>
           (\<exists>r \<in> {mbuff, mem, stack}.
             unat (fst r) \<le> unat addr \<and> unat addr + unat len \<le> unat (fst r) + unat (snd r))) \<and>
         (8 \<le> unat (snd mem) \<longrightarrow> check_mem mbuff mem stack (- 1) 8)"
  using check_mem_bounds_parts [OF assms] by blast

theorem check_mem_bounds_witness:
  "check_mem (4096, 64) (8192, 1024) (16384, 512) (- 1) 8 \<and>
   unat (8192 :: 64 word) + 1024 \<le> unat (- 1 :: 64 word)"
  using check_mem_bounds [of "(4096, 64)" "(8192, 1024)" "(16384, 512)"]
  by (simp add: unsigned_minus_1_eq_mask mask_eq_exp_minus_1)

end
