(* ===== verification/L1X_Ebpf.thy ===== *)
theory L1X_Ebpf
  imports L1X_VM
begin

text \<open>
  The eBPF interpreter of \<^verbatim>\<open>vm/l1x-rbpf/src\<close>: the operation codes and the instruction format of
  \<^verbatim>\<open>ebpf.rs\<close>, the verifier of \<^verbatim>\<open>verifier.rs\<close>, one step of \<^verbatim>\<open>EbpfVmMbuff::execute_program\<close> in
  \<^verbatim>\<open>lib.rs\<close>, and the helper table that \<^verbatim>\<open>run_internal\<close> of \<^verbatim>\<open>vm/l1x-ebpf-runtime/src/lib.rs\<close> fills.
  \<open>ebpf_tree\<close> unfolds a program into the tree of its system calls, which \<open>execute_program\<close> of
  \<open>L1X_VM\<close> runs with the gas rules.

  Integers have their machine width and wrap as in a release build. The addresses of the three
  buffers of a run are part of the image that is run.
\<close>

section \<open>Operation codes\<close>

datatype width = WB | WH | WW | WDW

datatype alu_op =
    AluAdd | AluSub | AluMul | AluDiv | AluOr | AluAnd | AluLsh | AluRsh | AluMod | AluXor | AluMov
  | AluArsh

datatype cond = Jeq | Jgt | Jge | Jlt | Jle | Jset | Jne | Jsgt | Jsge | Jslt | Jsle

datatype operand = Imm | Reg

datatype opcode =
    LdAbs width | LdInd width | LdDwImm | LdReg width | StImm width | StReg width
  | StWXadd | StDwXadd | Alu32 alu_op operand | Neg32 | Le | Be | Alu64 alu_op operand | Neg64
  | Ja | Jmp cond operand | Jmp32 cond operand | Call | TailCall | Exit_op

definition BPF_LD :: "8 word" where "BPF_LD = 0x00"
definition BPF_LDX :: "8 word" where "BPF_LDX = 0x01"
definition BPF_ST :: "8 word" where "BPF_ST = 0x02"
definition BPF_STX :: "8 word" where "BPF_STX = 0x03"
definition BPF_ALU :: "8 word" where "BPF_ALU = 0x04"
definition BPF_JMP :: "8 word" where "BPF_JMP = 0x05"
definition BPF_JMP32 :: "8 word" where "BPF_JMP32 = 0x06"
definition BPF_ALU64 :: "8 word" where "BPF_ALU64 = 0x07"
definition BPF_IMM :: "8 word" where "BPF_IMM = 0x00"
definition BPF_ABS :: "8 word" where "BPF_ABS = 0x20"
definition BPF_IND :: "8 word" where "BPF_IND = 0x40"
definition BPF_MEM :: "8 word" where "BPF_MEM = 0x60"
definition BPF_XADD :: "8 word" where "BPF_XADD = 0xc0"
definition BPF_NEG :: "8 word" where "BPF_NEG = 0x80"
definition BPF_END :: "8 word" where "BPF_END = 0xd0"
definition BPF_JA :: "8 word" where "BPF_JA = 0x00"
definition BPF_CALL :: "8 word" where "BPF_CALL = 0x80"
definition BPF_EXIT :: "8 word" where "BPF_EXIT = 0x90"
definition BPF_CLS_MASK :: "8 word" where "BPF_CLS_MASK = 0x07"

lemmas bpf_flags = BPF_LD_def BPF_LDX_def BPF_ST_def BPF_STX_def BPF_ALU_def BPF_JMP_def
  BPF_JMP32_def BPF_ALU64_def BPF_IMM_def BPF_ABS_def BPF_IND_def BPF_MEM_def BPF_XADD_def
  BPF_NEG_def BPF_END_def BPF_JA_def BPF_CALL_def BPF_EXIT_def BPF_CLS_MASK_def

text \<open>The size, source and operation flags.\<close>

primrec size_flag :: "width \<Rightarrow> 8 word" where
  "size_flag WW = 0x00" | "size_flag WH = 0x08" | "size_flag WB = 0x10" | "size_flag WDW = 0x18"

primrec source_flag :: "operand \<Rightarrow> 8 word" where
  "source_flag Imm = 0x00" | "source_flag Reg = 0x08"

primrec alu_flag :: "alu_op \<Rightarrow> 8 word" where
  "alu_flag AluAdd = 0x00" | "alu_flag AluSub = 0x10" | "alu_flag AluMul = 0x20"
| "alu_flag AluDiv = 0x30" | "alu_flag AluOr = 0x40" | "alu_flag AluAnd = 0x50"
| "alu_flag AluLsh = 0x60" | "alu_flag AluRsh = 0x70" | "alu_flag AluMod = 0x90"
| "alu_flag AluXor = 0xa0" | "alu_flag AluMov = 0xb0" | "alu_flag AluArsh = 0xc0"

primrec cond_flag :: "cond \<Rightarrow> 8 word" where
  "cond_flag Jeq = 0x10" | "cond_flag Jgt = 0x20" | "cond_flag Jge = 0x30" | "cond_flag Jset = 0x40"
| "cond_flag Jne = 0x50" | "cond_flag Jsgt = 0x60" | "cond_flag Jsge = 0x70" | "cond_flag Jlt = 0xa0"
| "cond_flag Jle = 0xb0" | "cond_flag Jslt = 0xc0" | "cond_flag Jsle = 0xd0"

text \<open>The constants \<^verbatim>\<open>LD_ABS_B\<close> to \<^verbatim>\<open>EXIT\<close>.\<close>

primrec opcode_byte :: "opcode \<Rightarrow> 8 word" where
  "opcode_byte (LdAbs w) = BPF_LD OR BPF_ABS OR size_flag w"
| "opcode_byte (LdInd w) = BPF_LD OR BPF_IND OR size_flag w"
| "opcode_byte LdDwImm = BPF_LD OR BPF_IMM OR size_flag WDW"
| "opcode_byte (LdReg w) = BPF_LDX OR BPF_MEM OR size_flag w"
| "opcode_byte (StImm w) = BPF_ST OR BPF_MEM OR size_flag w"
| "opcode_byte (StReg w) = BPF_STX OR BPF_MEM OR size_flag w"
| "opcode_byte StWXadd = BPF_STX OR BPF_XADD OR size_flag WW"
| "opcode_byte StDwXadd = BPF_STX OR BPF_XADD OR size_flag WDW"
| "opcode_byte (Alu32 f x) = BPF_ALU OR source_flag x OR alu_flag f"
| "opcode_byte Neg32 = BPF_ALU OR BPF_NEG"
| "opcode_byte Le = BPF_ALU OR source_flag Imm OR BPF_END"
| "opcode_byte Be = BPF_ALU OR source_flag Reg OR BPF_END"
| "opcode_byte (Alu64 f x) = BPF_ALU64 OR source_flag x OR alu_flag f"
| "opcode_byte Neg64 = BPF_ALU64 OR BPF_NEG"
| "opcode_byte Ja = BPF_JMP OR BPF_JA"
| "opcode_byte (Jmp c x) = BPF_JMP OR source_flag x OR cond_flag c"
| "opcode_byte (Jmp32 c x) = BPF_JMP32 OR source_flag x OR cond_flag c"
| "opcode_byte Call = BPF_JMP OR BPF_CALL"
| "opcode_byte TailCall = BPF_JMP OR source_flag Reg OR BPF_CALL"
| "opcode_byte Exit_op = BPF_JMP OR BPF_EXIT"

definition all_widths :: "width list" where
  "all_widths = [WB, WH, WW, WDW]"

definition all_alu :: "alu_op list" where
  "all_alu = [AluAdd, AluSub, AluMul, AluDiv, AluOr, AluAnd, AluLsh, AluRsh, AluMod, AluXor, AluMov,
              AluArsh]"

definition all_conds :: "cond list" where
  "all_conds = [Jeq, Jgt, Jge, Jlt, Jle, Jset, Jne, Jsgt, Jsge, Jslt, Jsle]"

definition all_opcodes :: "opcode list" where
  "all_opcodes =
     map LdAbs all_widths @ map LdInd all_widths @ [LdDwImm] @ map LdReg all_widths @
     map StImm all_widths @ map StReg all_widths @ [StWXadd, StDwXadd] @
     concat (map (\<lambda>f. [Alu32 f Imm, Alu32 f Reg]) all_alu) @ [Neg32, Le, Be] @
     concat (map (\<lambda>f. [Alu64 f Imm, Alu64 f Reg]) all_alu) @ [Neg64, Ja] @
     concat (map (\<lambda>c. [Jmp c Imm, Jmp c Reg]) all_conds) @
     concat (map (\<lambda>c. [Jmp32 c Imm, Jmp32 c Reg]) all_conds) @ [Call, TailCall, Exit_op]"

text \<open>\<^verbatim>\<open>match insn.opc\<close>: the operation with this code, if there is one.\<close>

definition decode_opcode :: "8 word \<Rightarrow> opcode option" where
  "decode_opcode b = find (\<lambda>k. opcode_byte k = b) all_opcodes"

section \<open>Instructions\<close>

record insn =
  insn_opc :: "8 word"
  insn_dst :: "8 word"
  insn_src :: "8 word"
  insn_off :: "16 word"
  insn_imm :: "32 word"

definition INSN_SIZE :: nat where "INSN_SIZE = 8"
definition PROG_MAX_INSNS :: nat where "PROG_MAX_INSNS = 1000000"
definition PROG_MAX_SIZE :: nat where "PROG_MAX_SIZE = PROG_MAX_INSNS * INSN_SIZE"
definition STACK_SIZE :: nat where "STACK_SIZE = 8192 + 8"

definition to_array :: "insn \<Rightarrow> bytes" where
  "to_array i =
     [insn_opc i, push_bit 4 (insn_src i) OR insn_dst i,
      ucast (insn_off i AND 0xff), ucast (signed_drop_bit 8 (insn_off i)),
      ucast (insn_imm i AND 0xff), ucast (signed_drop_bit 8 (insn_imm i AND 0xff00)),
      ucast (drop_bit 16 (insn_imm i AND 0xff0000)), ucast (drop_bit 24 (insn_imm i AND 0xff000000))]"

definition to_vec :: "insn \<Rightarrow> bytes" where
  "to_vec i = to_array i"

text \<open>\<open>None\<close> is the panic: of the guard, or of a slice index out of range when the product wraps.\<close>

definition get_insn :: "bytes \<Rightarrow> 64 word \<Rightarrow> insn option" where
  "get_insn prog idx =
     (let o' = unat (8 * idx); bs = drop o' prog in
      if (idx + 1) * 8 > of_nat (length prog) \<or> length prog < o' + INSN_SIZE then None
      else Some \<lparr>insn_opc = bs ! 0, insn_dst = bs ! 1 AND 0x0f,
                 insn_src = drop_bit 4 (bs ! 1 AND 0xf0),
                 insn_off = le_word (take 2 (drop 2 bs)), insn_imm = le_word (take 4 (drop 4 bs))\<rparr>)"

text \<open>The loop of \<^verbatim>\<open>to_insn_vec\<close> over the indices below the number of instructions.\<close>

fun insns_of :: "insn option list \<Rightarrow> insn list option" where
  "insns_of [] = Some []"
| "insns_of (None # is) = None"
| "insns_of (Some i # is) = map_option ((#) i) (insns_of is)"

definition to_insn_vec :: "bytes \<Rightarrow> insn list option" where
  "to_insn_vec prog =
     (if length prog mod INSN_SIZE \<noteq> 0 then None
      else insns_of (map (\<lambda>p. get_insn prog (of_nat p)) [0..<length prog div INSN_SIZE]))"

section \<open>The verifier\<close>

abbreviation reject :: "string \<Rightarrow> error + 'a" where
  "reject msg \<equiv> Inl (Failed msg)"

definition check_prog_len :: "bytes \<Rightarrow> error + unit" where
  "check_prog_len prog =
     (if length prog mod INSN_SIZE \<noteq> 0 then reject ''eBPF program length''
      else if length prog > PROG_MAX_SIZE then reject ''eBPF program length limited''
      else if prog = [] then reject ''no program set''
      else case get_insn prog (of_nat (length prog div INSN_SIZE - 1)) of
             None \<Rightarrow> Inl Panic
           | Some i \<Rightarrow>
               if insn_opc i AND BPF_CLS_MASK \<noteq> BPF_JMP then reject ''program does not end with EXIT''
               else Inr ())"

definition check_imm_endian :: "insn \<Rightarrow> error + unit" where
  "check_imm_endian i =
     (if insn_imm i \<in> {16, 32, 64} then Inr () else reject ''unsupported argument for LE/BE'')"

definition check_load_dw :: "bytes \<Rightarrow> nat \<Rightarrow> error + unit" where
  "check_load_dw prog p =
     (case get_insn prog (of_nat (p + 1)) of
        None \<Rightarrow> Inl Panic
      | Some next \<Rightarrow> if insn_opc next \<noteq> 0 then reject ''incomplete LD_DW instruction'' else Inr ())"

definition check_jmp_offset :: "bytes \<Rightarrow> nat \<Rightarrow> error + unit" where
  "check_jmp_offset prog p =
     (case get_insn prog (of_nat p) of
        None \<Rightarrow> Inl Panic
      | Some i \<Rightarrow>
         (let dst = int p + 1 + sint (insn_off i) in
          if dst < 0 \<or> nat dst \<ge> length prog div INSN_SIZE then reject ''jump out of code''
          else case get_insn prog (of_nat (nat dst)) of
                 None \<Rightarrow> Inl Panic
               | Some i' \<Rightarrow> if insn_opc i' = 0 then reject ''jump to middle of LD_DW'' else Inr ()))"

definition check_registers :: "insn \<Rightarrow> bool \<Rightarrow> error + unit" where
  "check_registers i sto =
     (if insn_src i > 10 then reject ''invalid source register''
      else if insn_dst i \<le> 9 \<or> insn_dst i = 10 \<and> sto then Inr ()
      else if insn_dst i = 10 then reject ''cannot write into register r10''
      else reject ''invalid destination register'')"

text \<open>The match of \<^verbatim>\<open>check\<close>: the value of \<^verbatim>\<open>store\<close>, and whether a second slot is skipped.\<close>

definition check_opcode :: "bytes \<Rightarrow> nat \<Rightarrow> insn \<Rightarrow> error + bool \<times> bool" where
  "check_opcode prog p i =
     (case decode_opcode (insn_opc i) of
        None \<Rightarrow> reject ''unknown eBPF opcode''
      | Some k \<Rightarrow>
         (case k of
            LdDwImm \<Rightarrow> (case check_load_dw prog p of Inl e \<Rightarrow> Inl e | Inr _ \<Rightarrow> Inr (True, True))
          | StImm _ \<Rightarrow> Inr (True, False)
          | StReg _ \<Rightarrow> Inr (True, False)
          | StWXadd \<Rightarrow> Inl Panic
          | StDwXadd \<Rightarrow> Inl Panic
          | Le \<Rightarrow> (case check_imm_endian i of Inl e \<Rightarrow> Inl e | Inr _ \<Rightarrow> Inr (False, False))
          | Be \<Rightarrow> (case check_imm_endian i of Inl e \<Rightarrow> Inl e | Inr _ \<Rightarrow> Inr (False, False))
          | Ja \<Rightarrow> (case check_jmp_offset prog p of Inl e \<Rightarrow> Inl e | Inr _ \<Rightarrow> Inr (False, False))
          | Jmp _ _ \<Rightarrow> (case check_jmp_offset prog p of Inl e \<Rightarrow> Inl e | Inr _ \<Rightarrow> Inr (False, False))
          | Jmp32 _ _ \<Rightarrow> (case check_jmp_offset prog p of Inl e \<Rightarrow> Inl e | Inr _ \<Rightarrow> Inr (False, False))
          | TailCall \<Rightarrow> Inl Panic
          | _ \<Rightarrow> Inr (False, False)))"

definition check_insn :: "bytes \<Rightarrow> nat \<Rightarrow> error + bool" where
  "check_insn prog p =
     (case get_insn prog (of_nat p) of
        None \<Rightarrow> Inl Panic
      | Some i \<Rightarrow>
         (case check_opcode prog p i of
            Inl e \<Rightarrow> Inl e
          | Inr (sto, two) \<Rightarrow>
             (case check_registers i sto of Inl e \<Rightarrow> Inl e | Inr _ \<Rightarrow> Inr two)))"

function check_from :: "bytes \<Rightarrow> nat \<Rightarrow> error + unit" where
  "check_from prog p =
     (if p * INSN_SIZE < length prog
      then (case check_insn prog p of
              Inl e \<Rightarrow> Inl e
            | Inr two \<Rightarrow> check_from prog (if two then p + 2 else p + 1))
      else if p \<noteq> length prog div INSN_SIZE then reject ''jumped out of code''
      else Inr ())"
  by auto
termination
  by (relation "measure (\<lambda>(prog, p). length prog - p * INSN_SIZE)") (auto simp: INSN_SIZE_def)

declare check_from.simps [simp del]

definition check :: "bytes \<Rightarrow> error + unit" where
  "check prog = (case check_prog_len prog of Inl e \<Rightarrow> Inl e | Inr _ \<Rightarrow> check_from prog 0)"

section \<open>The interpreter\<close>

definition MAX_CALL_DEPTH :: nat where "MAX_CALL_DEPTH = 50"

text \<open>
  What is run: the code, the entry point, the address and length of the three buffers, and the
  bytes of the metadata buffer, of the 1024 zero bytes of \<^verbatim>\<open>mem\<close> and of the fresh stack.
\<close>

record ebpf_image =
  im_text :: bytes
  im_start :: "64 word"
  im_mbuff :: "64 word \<times> 64 word"
  im_mem :: "64 word \<times> 64 word"
  im_stack :: "64 word \<times> 64 word"
  im_bytes :: "64 word \<Rightarrow> 8 word"

record call_frame =
  cf_caller_saved :: "64 word list"
  cf_frame_pointer :: "64 word"
  cf_target_pc :: "64 word"

record ebpf_state =
  eb_reg :: "64 word list"
  eb_pc :: "64 word"
  eb_bytes :: "64 word \<Rightarrow> 8 word"
  eb_frames :: "call_frame list"

datatype outcome =
    Next ebpf_state
  | Return "64 word"
  | Error
  | Crash
  | Leave
  | Helper "32 word" regs "64 word \<Rightarrow> ebpf_state"

text \<open>
  Access to the buffers. The check wraps in a release build; an access that passes it only by
  wrapping lies at the top of the address space and kills the process.
\<close>

definition mapped :: "64 word \<times> 64 word \<Rightarrow> 64 word \<Rightarrow> nat \<Rightarrow> bool" where
  "mapped = (\<lambda>(base, size) addr len.
     unat base \<le> unat addr \<and> unat addr + len \<le> unat base + unat size)"

definition checked_access ::
  "ebpf_image \<Rightarrow> 64 word \<Rightarrow> nat \<Rightarrow> outcome \<Rightarrow> outcome" where
  "checked_access im addr len k =
     (if \<not> check_mem (im_mbuff im) (im_mem im) (im_stack im) addr (of_nat len) then Error
      else if mapped (im_mbuff im) addr len \<or> mapped (im_mem im) addr len \<or>
              mapped (im_stack im) addr len
      then k
      else Crash)"

definition load_bytes :: "(64 word \<Rightarrow> 8 word) \<Rightarrow> 64 word \<Rightarrow> nat \<Rightarrow> 64 word" where
  "load_bytes m addr n = le_word (map (\<lambda>j. m (addr + of_nat j)) [0..<n])"

definition store_bytes ::
  "64 word \<Rightarrow> nat \<Rightarrow> 64 word \<Rightarrow> (64 word \<Rightarrow> 8 word) \<Rightarrow> 64 word \<Rightarrow> 8 word" where
  "store_bytes addr n v m = (\<lambda>a. if unat (a - addr) < n then le_bytes n v ! unat (a - addr) else m a)"

primrec width_bytes :: "width \<Rightarrow> nat" where
  "width_bytes WB = 1" | "width_bytes WH = 2" | "width_bytes WW = 4" | "width_bytes WDW = 8"

text \<open>Indexing \<^verbatim>\<open>reg: [u64; 11]\<close> panics out of range.\<close>

definition with_reg :: "ebpf_state \<Rightarrow> 8 word \<Rightarrow> (64 word \<Rightarrow> outcome) \<Rightarrow> outcome" where
  "with_reg s r k = (if unat r < length (eb_reg s) then k (eb_reg s ! unat r) else Crash)"

definition set_reg :: "ebpf_state \<Rightarrow> 8 word \<Rightarrow> 64 word \<Rightarrow> outcome" where
  "set_reg s r v =
     (if unat r < length (eb_reg s) then Next (s\<lparr>eb_reg := (eb_reg s)[unat r := v]\<rparr>) else Crash)"

definition with_operand :: "ebpf_state \<Rightarrow> insn \<Rightarrow> operand \<Rightarrow> (64 word \<Rightarrow> outcome) \<Rightarrow> outcome" where
  "with_operand s i x k =
     (case x of Imm \<Rightarrow> k (scast (insn_imm i)) | Reg \<Rightarrow> with_reg s (insn_src i) k)"

text \<open>The operations of the two arithmetic classes; \<open>None\<close> is a division by zero.\<close>

fun alu32 :: "alu_op \<Rightarrow> 32 word \<Rightarrow> 32 word \<Rightarrow> 32 word option" where
  "alu32 AluAdd a b = Some (a + b)"
| "alu32 AluSub a b = Some (a - b)"
| "alu32 AluMul a b = Some (a * b)"
| "alu32 AluDiv a b = (if b = 0 then None else Some (a div b))"
| "alu32 AluOr a b = Some (a OR b)"
| "alu32 AluAnd a b = Some (a AND b)"
| "alu32 AluLsh a b = Some (push_bit (unat b mod 32) a)"
| "alu32 AluRsh a b = Some (drop_bit (unat b mod 32) a)"
| "alu32 AluMod a b = (if b = 0 then None else Some (a mod b))"
| "alu32 AluXor a b = Some (a XOR b)"
| "alu32 AluMov a b = Some b"
| "alu32 AluArsh a b = Some (signed_drop_bit (unat b mod 32) a)"

fun alu64 :: "alu_op \<Rightarrow> 64 word \<Rightarrow> 64 word \<Rightarrow> 64 word option" where
  "alu64 AluAdd a b = Some (a + b)"
| "alu64 AluSub a b = Some (a - b)"
| "alu64 AluMul a b = Some (a * b)"
| "alu64 AluDiv a b = (if b = 0 then None else Some (a div b))"
| "alu64 AluOr a b = Some (a OR b)"
| "alu64 AluAnd a b = Some (a AND b)"
| "alu64 AluLsh a b = Some (push_bit (unat b mod 64) a)"
| "alu64 AluRsh a b = Some (drop_bit (unat b mod 64) a)"
| "alu64 AluMod a b = (if b = 0 then None else Some (a mod b))"
| "alu64 AluXor a b = Some (a XOR b)"
| "alu64 AluMov a b = Some b"
| "alu64 AluArsh a b = Some (signed_drop_bit (unat b mod 64) a)"

text \<open>
  An arithmetic instruction: the cases with a zero operand come first, and test all 64 bits of a
  source register in both classes.
\<close>

definition alu_step ::
  "(64 word \<Rightarrow> 64 word \<Rightarrow> 64 word option) \<Rightarrow> ebpf_state \<Rightarrow> insn \<Rightarrow> alu_op \<Rightarrow> operand \<Rightarrow> outcome" where
  "alu_step f s i op x = with_operand s i x (\<lambda>v.
     if op = AluDiv \<and> v = 0 then set_reg s (insn_dst i) 0
     else if op = AluMod \<and> v = 0 then Next s
     else with_reg s (insn_dst i) (\<lambda>d. case f d v of
            None \<Rightarrow> Crash
          | Some r \<Rightarrow> set_reg s (insn_dst i) r))"

definition low32 :: "(32 word \<Rightarrow> 32 word \<Rightarrow> 32 word option) \<Rightarrow> 64 word \<Rightarrow> 64 word \<Rightarrow> 64 word option" where
  "low32 f a b = map_option ucast (f (ucast a) (ucast b))"

fun cond_holds :: "cond \<Rightarrow> 'a::len word \<Rightarrow> 'a word \<Rightarrow> bool" where
  "cond_holds Jeq a b = (a = b)"
| "cond_holds Jgt a b = (a > b)"
| "cond_holds Jge a b = (a \<ge> b)"
| "cond_holds Jlt a b = (a < b)"
| "cond_holds Jle a b = (a \<le> b)"
| "cond_holds Jset a b = (a AND b \<noteq> 0)"
| "cond_holds Jne a b = (a \<noteq> b)"
| "cond_holds Jsgt a b = (sint a > sint b)"
| "cond_holds Jsge a b = (sint a \<ge> sint b)"
| "cond_holds Jslt a b = (sint a < sint b)"
| "cond_holds Jsle a b = (sint a \<le> sint b)"

definition do_jump :: "ebpf_state \<Rightarrow> insn \<Rightarrow> ebpf_state" where
  "do_jump s i = s\<lparr>eb_pc := eb_pc s + scast (insn_off i)\<rparr>"

definition jump_step ::
  "(64 word \<Rightarrow> 64 word \<Rightarrow> bool) \<Rightarrow> ebpf_state \<Rightarrow> insn \<Rightarrow> operand \<Rightarrow> outcome" where
  "jump_step c s i x = with_reg s (insn_dst i) (\<lambda>d. with_operand s i x (\<lambda>v.
     Next (if c d v then do_jump s i else s)))"

definition endian_step :: "(nat \<Rightarrow> 64 word \<Rightarrow> 64 word) \<Rightarrow> ebpf_state \<Rightarrow> insn \<Rightarrow> outcome" where
  "endian_step f s i =
     (if insn_imm i \<in> {16, 32, 64}
      then with_reg s (insn_dst i) (\<lambda>d. set_reg s (insn_dst i) (f (unat (insn_imm i) div 8) d))
      else Crash)"

definition to_le :: "nat \<Rightarrow> 64 word \<Rightarrow> 64 word" where
  "to_le n a = le_word (le_bytes n a)"

definition to_be :: "nat \<Rightarrow> 64 word \<Rightarrow> 64 word" where
  "to_be n a = le_word (be_bytes n a)"

definition load_step :: "ebpf_image \<Rightarrow> ebpf_state \<Rightarrow> 64 word \<Rightarrow> nat \<Rightarrow> width \<Rightarrow> 8 word \<Rightarrow> outcome" where
  "load_step im s addr len w r =
     checked_access im addr len (set_reg s r (load_bytes (eb_bytes s) addr (width_bytes w)))"

definition store_step :: "ebpf_image \<Rightarrow> ebpf_state \<Rightarrow> insn \<Rightarrow> width \<Rightarrow> operand \<Rightarrow> outcome" where
  "store_step im s i w x = with_reg s (insn_dst i) (\<lambda>d.
     let addr = d + scast (insn_off i) in
     checked_access im addr (width_bytes w) (with_operand s i x (\<lambda>v.
       Next (s\<lparr>eb_bytes := store_bytes addr (width_bytes w) v (eb_bytes s)\<rparr>))))"

text \<open>
  \<^verbatim>\<open>CALL\<close>: with source register 0 a helper, which gets \<^verbatim>\<open>r1\<close> to \<^verbatim>\<open>r5\<close>, otherwise a function of the
  program, whose frame keeps \<^verbatim>\<open>r6\<close> to \<^verbatim>\<open>r9\<close>.
\<close>

definition call_step :: "ebpf_state \<Rightarrow> insn \<Rightarrow> outcome" where
  "call_step s i =
     (if insn_src i = 0
      then Helper (insn_imm i)
             (eb_reg s ! 1, eb_reg s ! 2, eb_reg s ! 3, eb_reg s ! 4, eb_reg s ! 5)
             (\<lambda>r. s\<lparr>eb_reg := (eb_reg s)[0 := r]\<rparr>)
      else if MAX_CALL_DEPTH \<le> length (eb_frames s) then Error
      else Next (s\<lparr>
        eb_frames := \<lparr>cf_caller_saved = take 4 (drop 6 (eb_reg s)), cf_frame_pointer = eb_reg s ! 10,
                      cf_target_pc = eb_pc s\<rparr> # eb_frames s,
        eb_reg := (eb_reg s)[10 := eb_reg s ! 10 - of_nat STACK_SIZE],
        eb_pc := (if sint (insn_imm i) < 0 then eb_pc s - ucast (- insn_imm i)
                  else eb_pc s + ucast (insn_imm i))\<rparr>))"

definition exit_step :: "ebpf_state \<Rightarrow> outcome" where
  "exit_step s =
     (case eb_frames s of
        [] \<Rightarrow> Return (eb_reg s ! 0)
      | f # fs \<Rightarrow> Next (s\<lparr>
          eb_frames := fs, eb_pc := cf_target_pc f,
          eb_reg := take 6 (eb_reg s) @ cf_caller_saved f @ [cf_frame_pointer f]\<rparr>))"

text \<open>One pass of the match on the operation code; the program counter is already advanced.\<close>

definition exec_insn :: "ebpf_image \<Rightarrow> ebpf_state \<Rightarrow> insn \<Rightarrow> opcode \<Rightarrow> outcome" where
  "exec_insn im s i k =
     (case k of
        LdAbs w \<Rightarrow> load_step im s (fst (im_mem im) + ucast (insn_imm i)) 8 w 0
      | LdInd w \<Rightarrow> with_reg s (insn_src i) (\<lambda>r.
          load_step im s (fst (im_mem im) + r + ucast (insn_imm i)) 8 w 0)
      | LdDwImm \<Rightarrow>
         (case get_insn (im_text im) (eb_pc s) of
            None \<Rightarrow> Crash
          | Some next \<Rightarrow>
              set_reg (s\<lparr>eb_pc := eb_pc s + 1\<rparr>) (insn_dst i)
                (ucast (insn_imm i) + push_bit 32 (scast (insn_imm next))))
      | LdReg w \<Rightarrow> with_reg s (insn_src i) (\<lambda>r.
          load_step im s (r + scast (insn_off i)) (width_bytes w) w (insn_dst i))
      | StImm w \<Rightarrow> store_step im s i w Imm
      | StReg w \<Rightarrow> store_step im s i w Reg
      | StWXadd \<Rightarrow> Crash
      | StDwXadd \<Rightarrow> Crash
      | Alu32 f x \<Rightarrow> alu_step (low32 (alu32 f)) s i f x
      | Neg32 \<Rightarrow> with_reg s (insn_dst i) (\<lambda>d. set_reg s (insn_dst i) (ucast (- (ucast d :: 32 word))))
      | Le \<Rightarrow> endian_step to_le s i
      | Be \<Rightarrow> endian_step to_be s i
      | Alu64 f x \<Rightarrow> alu_step (alu64 f) s i f x
      | Neg64 \<Rightarrow> with_reg s (insn_dst i) (\<lambda>d. set_reg s (insn_dst i) (- d))
      | Ja \<Rightarrow> Next (do_jump s i)
      | Jmp c x \<Rightarrow> jump_step (cond_holds c) s i x
      | Jmp32 c x \<Rightarrow> jump_step (\<lambda>a b. cond_holds c (ucast a :: 32 word) (ucast b)) s i x
      | Call \<Rightarrow> call_step s i
      | TailCall \<Rightarrow> Crash
      | Exit_op \<Rightarrow> exit_step s)"

definition ebpf_step :: "ebpf_image \<Rightarrow> ebpf_state \<Rightarrow> outcome" where
  "ebpf_step im s =
     (if eb_pc s * 8 < of_nat (length (im_text im))
      then (case get_insn (im_text im) (eb_pc s) of
              None \<Rightarrow> Crash
            | Some i \<Rightarrow>
               (case decode_opcode (insn_opc i) of
                  None \<Rightarrow> Crash
                | Some k \<Rightarrow> exec_insn im (s\<lparr>eb_pc := eb_pc s + 1\<rparr>) i k))
      else Leave)"

definition ebpf_init :: "ebpf_image \<Rightarrow> ebpf_state" where
  "ebpf_init im =
     \<lparr>eb_reg = [0] @
        map (\<lambda>j. load_bytes (im_bytes im) (fst (im_mem im) + of_nat (8 * j)) 8) [0..<5] @
        [0, 0, 0, 0, fst (im_stack im) + snd (im_stack im)],
      eb_pc = im_start im div 8, eb_bytes = im_bytes im, eb_frames = []\<rparr>"

text \<open>
  The tree of the program with a bound on the number of instructions. Every instruction burns at
  least one unit of gas, so a bound above the gas limit is never met.
\<close>

primrec ebpf_tree ::
  "(32 word \<Rightarrow> syscall option) \<Rightarrow> ebpf_image \<Rightarrow> nat \<Rightarrow> ebpf_state \<Rightarrow> vm_prog" where
  "ebpf_tree hs im 0 s = VmAbort"
| "ebpf_tree hs im (Suc n) s =
     (case ebpf_step im s of
        Next s' \<Rightarrow> VmStep (ebpf_tree hs im n s')
      | Return r \<Rightarrow> VmExit r
      | Error \<Rightarrow> VmAbort
      | Crash \<Rightarrow> VmCrash
      | Leave \<Rightarrow> VmLeave
      | Helper key rs k \<Rightarrow>
         (case hs key of
            None \<Rightarrow> VmAbort
          | Some c \<Rightarrow> VmSys c rs (\<lambda>r. ebpf_tree hs im n (k r))))"

text \<open>The helpers in the order in which \<^verbatim>\<open>run_internal\<close> registers them; a later key replaces an earlier one.\<close>

definition registered_helpers :: "(string \<times> syscall) list" where
  "registered_helpers =
     [(''syscall_math_op64'', SyscallMathOp64), (''syscall_math_op32'', SyscallMathOp64),
      (''syscall_memory_op64'', SyscallMemoryOp64), (''syscall_memory_op32'', SyscallMemoryOp64),
      (''env_msg'', EnvMsg), (''env_panic'', EnvPanic), (''env_panic_msg'', EnvPanicMsg),
      (''env_input'', EnvInput), (''env_register_len'', EnvRegisterLen),
      (''env_read_register'', EnvReadRegister), (''env_write_register'', EnvWriteRegister),
      (''env_output'', EnvOutput), (''env_storage_write'', EnvStorageWrite),
      (''env_storage_remove'', EnvStorageRemove), (''env_storage_read'', EnvStorageRead),
      (''env_storage_write_perm'', EnvStorageWritePerm),
      (''env_current_runtime_version'', EnvCurrentRuntimeVersion),
      (''env_caller_address'', EnvCallerAddress),
      (''env_contract_owner_address'', EnvContractOwnerAddress),
      (''env_contract_owner_address_of'', EnvContractOwnerAddressOf),
      (''env_contract_instance_address'', EnvContractInstanceAddress),
      (''env_contract_code_address_of'', EnvContractCodeAddressOf),
      (''env_contract_code_owner_address_of'', EnvContractCodeOwnerAddressOf),
      (''env_gas_limit'', EnvGasLimit), (''env_gas_left'', EnvGasLeft), (''env_deposit'', EnvDeposit),
      (''env_address_balance'', EnvAddressBalance), (''env_transfer_to'', EnvTransferTo),
      (''env_transfer_from_caller'', EnvTransferFromCaller), (''env_block_number'', EnvBlockNumber),
      (''env_block_timestamp'', EnvBlockTimestamp), (''env_block_hash'', EnvBlockHash),
      (''env_call_contract'', EnvCallContract), (''env_call_contract2'', EnvCallContract2),
      (''env_emit_event_experimental'', EmitEventExperimental)]"

definition helper_of :: "(string \<Rightarrow> 32 word) \<Rightarrow> 32 word \<Rightarrow> syscall option" where
  "helper_of hash key = map_of (rev (map (\<lambda>(name, c). (hash name, c)) registered_helpers)) key"

section \<open>Encoding and decoding\<close>

lemma opcode_byte_nat:
  "map (unat \<circ> opcode_byte) all_opcodes =
     [48, 40, 32, 56, 80, 72, 64, 88, 24, 113, 105, 97, 121, 114, 106, 98, 122, 115, 107, 99, 123,
      195, 219, 4, 12, 20, 28, 36, 44, 52, 60, 68, 76, 84, 92, 100, 108, 116, 124, 148, 156, 164, 172,
      180, 188, 196, 204, 132, 212, 220, 7, 15, 23, 31, 39, 47, 55, 63, 71, 79, 87, 95, 103, 111, 119,
      127, 151, 159, 167, 175, 183, 191, 199, 207, 135, 5, 21, 29, 37, 45, 53, 61, 165, 173, 181, 189,
      69, 77, 85, 93, 101, 109, 117, 125, 197, 205, 213, 221, 22, 30, 38, 46, 54, 62, 166, 174, 182,
      190, 70, 78, 86, 94, 102, 110, 118, 126, 198, 206, 214, 222, 133, 141, 149]"
  by (simp add: all_opcodes_def all_widths_def all_alu_def all_conds_def bpf_flags)

lemma all_opcodes_all: "k \<in> set all_opcodes"
proof -
  have "set all_widths = UNIV" using width.exhaust by (auto simp: all_widths_def)
  moreover have "set all_alu = UNIV" using alu_op.exhaust by (auto simp: all_alu_def)
  moreover have "set all_conds = UNIV" using cond.exhaust by (auto simp: all_conds_def)
  moreover have "x = Imm \<or> x = Reg" for x by (cases x) simp_all
  ultimately show ?thesis by (cases k) (simp_all add: all_opcodes_def, blast+)
qed

lemma distinct_opcodes: "distinct (map opcode_byte all_opcodes)"
proof -
  have "distinct (map unat (map opcode_byte all_opcodes))"
    unfolding map_map opcode_byte_nat by simp
  then show ?thesis unfolding distinct_map [of unat] by blast
qed

lemma find_distinct_map:
  "distinct (map f xs) \<Longrightarrow> x \<in> set xs \<Longrightarrow> find (\<lambda>y. f y = f x) xs = Some x"
  by (induction xs) (auto simp: image_iff)

lemma decode_opcode_byte: "decode_opcode (opcode_byte k) = Some k"
  unfolding decode_opcode_def by (rule find_distinct_map [OF distinct_opcodes all_opcodes_all])

lemma decode_opcode_Some: "decode_opcode b = Some k \<longleftrightarrow> b = opcode_byte k"
proof
  assume "decode_opcode b = Some k"
  then show "b = opcode_byte k" by (auto simp: decode_opcode_def find_Some_iff)
qed (simp add: decode_opcode_byte)

text \<open>The instruction at an index inside the code.\<close>

definition insn_at :: "bytes \<Rightarrow> nat \<Rightarrow> insn" where
  "insn_at prog p =
     (let bs = drop (8 * p) prog in
      \<lparr>insn_opc = bs ! 0, insn_dst = bs ! 1 AND 0x0f, insn_src = drop_bit 4 (bs ! 1 AND 0xf0),
       insn_off = le_word (take 2 (drop 2 bs)), insn_imm = le_word (take 4 (drop 4 bs))\<rparr>)"

lemma unat_times_8: "p < 2 ^ 60 \<Longrightarrow> unat (8 * of_nat p :: 64 word) = 8 * p"
  by (simp add: unat_word_ariths unat_of_nat)

lemma get_insn_of_nat:
  assumes "length prog < 2 ^ 63" and "p < 2 ^ 60"
  shows "get_insn prog (of_nat p) = (if 8 * p + 8 \<le> length prog then Some (insn_at prog p) else None)"
proof -
  have "(of_nat p + 1) * 8 = (of_nat (8 * (p + 1)) :: 64 word)" by (simp add: algebra_simps)
  moreover have "(of_nat (8 * (p + 1)) :: 64 word) > of_nat (length prog) \<longleftrightarrow> length prog < 8 * (p + 1)"
    using assms by (simp add: word_less_nat_alt unat_of_nat del: of_nat_mult of_nat_add of_nat_Suc)
  ultimately have "(of_nat p + 1) * 8 > (of_nat (length prog) :: 64 word) \<longleftrightarrow> length prog < 8 * (p + 1)"
    by (simp only:)
  then show ?thesis
    using unat_times_8 [OF assms(2)]
    by (simp only: get_insn_def insn_at_def Let_def INSN_SIZE_def) auto
qed


lemma byte_casts:
  "ucast (w AND 0xff) = (ucast w :: 8 word)"
  "ucast (signed_drop_bit 8 v) = (ucast (drop_bit 8 v) :: 8 word)"
  "ucast (signed_drop_bit 8 (w AND 0xff00)) = (ucast (drop_bit 8 w) :: 8 word)"
  "ucast (drop_bit 16 (w AND 0xff0000)) = (ucast (drop_bit 16 w) :: 8 word)"
  "ucast (drop_bit 24 (w AND 0xff000000)) = (ucast (drop_bit 24 w) :: 8 word)"
  "ucast (v AND 0xff) = (ucast v :: 8 word)"
  for w :: "32 word" and v :: "16 word"
proof -
  have m: "(0xff :: 32 word) = mask 8" "(0xff00 :: 32 word) = push_bit 8 (mask 8)"
    "(0xff0000 :: 32 word) = push_bit 16 (mask 8)" "(0xff000000 :: 32 word) = push_bit 24 (mask 8)"
    "(0xff :: 16 word) = mask 8"
    by (simp_all add: mask_eq_exp_minus_1)
  show "ucast (w AND 0xff) = (ucast w :: 8 word)" "ucast (v AND 0xff) = (ucast v :: 8 word)"
    "ucast (drop_bit 16 (w AND 0xff0000)) = (ucast (drop_bit 16 w) :: 8 word)"
    "ucast (drop_bit 24 (w AND 0xff000000)) = (ucast (drop_bit 24 w) :: 8 word)"
    unfolding m by (auto intro!: bit_word_eqI simp: bit_simps)
  show "ucast (signed_drop_bit 8 v) = (ucast (drop_bit 8 v) :: 8 word)"
    "ucast (signed_drop_bit 8 (w AND 0xff00)) = (ucast (drop_bit 8 w) :: 8 word)"
    unfolding m by (auto intro!: bit_word_eqI simp: bit_simps)
qed

lemma nibbles:
  assumes "d < 16" and "r < 16"
  shows "(push_bit 4 r OR d) AND 0x0f = d" and "drop_bit 4 ((push_bit 4 r OR d) AND 0xf0) = (r :: 8 word)"
proof -
  have m: "(0x0f :: 8 word) = mask 4" "(0xf0 :: 8 word) = push_bit 4 (mask 4)" "(16 :: 8 word) = 2 ^ 4"
    by (simp_all add: mask_eq_exp_minus_1)
  have t: "take_bit 4 d = d" "take_bit 4 r = r"
    using assms unfolding m by (simp_all add: take_bit_eq_mask less_mask_eq)
  have b: "bit d n \<Longrightarrow> n < 4" "bit r n \<Longrightarrow> n < 4" for n
    by (metis t bit_take_bit_iff)+
  show "(push_bit 4 r OR d) AND 0x0f = d" unfolding m
    by (rule bit_word_eqI) (auto simp: bit_simps dest: b)
  show "drop_bit 4 ((push_bit 4 r OR d) AND 0xf0) = r" unfolding m
    by (rule bit_word_eqI) (auto simp: bit_simps dest: b)
qed

lemma le_bytes_2_4:
  "le_bytes 2 v = [ucast v, ucast (drop_bit 8 v)]"
  "le_bytes 4 w = [ucast w, ucast (drop_bit 8 w), ucast (drop_bit 16 w), ucast (drop_bit 24 w)]"
  for v :: "16 word" and w :: "32 word"
proof -
  have n: "(2::nat) = Suc (Suc 0)" "(4::nat) = Suc (Suc (Suc (Suc 0)))" by simp_all
  have [simp]: "le_bytes 0 u = []" for u :: "'a::len word" by (simp add: le_bytes_def be_bytes_def)
  show "le_bytes 2 v = [ucast v, ucast (drop_bit 8 v)]"
    unfolding n by (simp only: le_bytes_Suc) simp
  show "le_bytes 4 w = [ucast w, ucast (drop_bit 8 w), ucast (drop_bit 16 w), ucast (drop_bit 24 w)]"
    unfolding n(2) by (simp only: le_bytes_Suc) simp
qed

lemma to_vec_le:
  "to_vec i = [insn_opc i, push_bit 4 (insn_src i) OR insn_dst i] @ le_bytes 2 (insn_off i) @
                le_bytes 4 (insn_imm i)"
  by (simp add: to_vec_def to_array_def byte_casts le_bytes_2_4)

lemma insn_at_append:
  assumes "length xs = 8 * p" and "insn_dst i < 16" and "insn_src i < 16"
  shows "insn_at (xs @ to_vec i @ ys) p = i"
  using assms nibbles [of "insn_dst i" "insn_src i"]
  by (simp add: insn_at_def to_vec_le le_word_le_bytes del: drop_bit_and)

lemma length_to_vec [simp]: "length (to_vec i) = 8"
  by (simp add: to_vec_def to_array_def)

definition regs_encodable :: "insn \<Rightarrow> bool" where
  "regs_encodable i \<longleftrightarrow> insn_dst i < 16 \<and> insn_src i < 16"

lemma insns_of_Some: "insns_of (map Some is) = Some is"
  by (induction "is") simp_all

lemma insn_at_concat:
  assumes "list_all regs_encodable is" and "p < length is"
  shows "insn_at (concat (map to_vec is)) p = is ! p"
proof -
  have eq: "concat (map to_vec is) =
      concat (map to_vec (take p is)) @ to_vec (is ! p) @ concat (map to_vec (drop (Suc p) is))"
    using assms(2) id_take_nth_drop [of p "is"]
    by (metis append.assoc concat.simps(2) concat_append list.simps(9) map_append)
  have "length (concat (map to_vec (take p is))) = 8 * p"
    using assms(2) by (simp add: length_concat o_def sum_list_triv min_def)
  then show ?thesis
    unfolding eq using assms by (intro insn_at_append) (auto simp: list_all_length regs_encodable_def)
qed

text \<open>
  C29: Instructions survive encoding. The operation codes are pairwise different, so every operation
  is decoded from its own code, and the program that is written from a list of instructions is read
  back as this list, whatever the registers, offsets and immediate operands.
\<close>

theorem encoded_program_is_decoded:
  assumes "list_all regs_encodable is" and "length is < 2 ^ 60"
  shows "to_insn_vec (concat (map to_vec is)) = Some is \<and> decode_opcode (opcode_byte k) = Some k"
proof -
  let ?prog = "concat (map to_vec is)"
  have len: "length ?prog = 8 * length is" by (simp add: length_concat o_def sum_list_triv)
  have "get_insn ?prog (of_nat p) = Some (is ! p)" if "p < length is" for p
    using that len assms by (simp add: get_insn_of_nat insn_at_concat)
  then have "map (\<lambda>p. get_insn ?prog (of_nat p)) [0..<length is] = map Some is"
    by (intro nth_equalityI) simp_all
  then show ?thesis
    using len by (simp add: to_insn_vec_def INSN_SIZE_def insns_of_Some decode_opcode_byte)
qed

theorem encoded_program_is_decoded_witness:
  "to_insn_vec (concat (map to_vec [\<lparr>insn_opc = 0xb7, insn_dst = 2, insn_src = 1, insn_off = - 3, insn_imm = - 7\<rparr>])) =
     Some [\<lparr>insn_opc = 0xb7, insn_dst = 2, insn_src = 1, insn_off = - 3, insn_imm = - 7\<rparr>]"
  using encoded_program_is_decoded
    [of "[\<lparr>insn_opc = 0xb7, insn_dst = 2, insn_src = 1, insn_off = - 3, insn_imm = - 7\<rparr>]"]
  by (simp add: regs_encodable_def)

section \<open>What the verifier guarantees\<close>

text \<open>The positions at which an instruction of an accepted program starts.\<close>

inductive insn_start :: "bytes \<Rightarrow> nat \<Rightarrow> bool" for prog where
  first: "insn_start prog 0"
| following: "insn_start prog p \<Longrightarrow> p * 8 < length prog \<Longrightarrow> check_insn prog p = Inr two \<Longrightarrow>
              insn_start prog (if two then p + 2 else p + 1)"

lemma check_parts:
  assumes "check prog = Inr ()"
  shows "check_prog_len prog = Inr ()" and "check_from prog 0 = Inr ()" and "prog \<noteq> []"
    and "length prog mod 8 = 0" and "length prog \<le> 8000000"
  using assms by (auto simp: check_def check_prog_len_def INSN_SIZE_def PROG_MAX_SIZE_def
      PROG_MAX_INSNS_def split: sum.splits if_splits)

lemma start_checked:
  assumes "check prog = Inr ()" and "insn_start prog p"
  shows "check_from prog p = Inr ()"
  using assms(2)
proof induction
  case first
  show ?case by (rule check_parts(2) [OF assms(1)])
next
  case (following p two)
  then show ?case by (simp add: check_from.simps [of prog p] INSN_SIZE_def)
qed

lemma start_insn:
  assumes "check prog = Inr ()" and "insn_start prog p"
  shows "p \<le> length prog div 8"
    and "p < length prog div 8 \<Longrightarrow> \<exists>two. check_insn prog p = Inr two"
proof -
  note c = start_checked [OF assms] and m = check_parts(4) [OF assms(1)]
  from c m show "p \<le> length prog div 8"
    by (auto simp: check_from.simps [of prog p] INSN_SIZE_def split: if_splits)
  assume "p < length prog div 8"
  then have "p * 8 < length prog" by auto
  with c show "\<exists>two. check_insn prog p = Inr two"
    by (auto simp: check_from.simps [of prog p] INSN_SIZE_def split: sum.splits)
qed

lemma start_or_second:
  "check_from prog p = Inr () \<Longrightarrow> insn_start prog p \<Longrightarrow> p \<le> q \<Longrightarrow> q * 8 < length prog \<Longrightarrow>
     insn_start prog q \<or> (\<exists>p'. q = p' + 1 \<and> p' * 8 < length prog \<and> check_insn prog p' = Inr True)"
proof (induction prog p rule: check_from.induct)
  case (1 prog p)
  show ?case
  proof (cases "q = p")
    case False
    with 1 have lt: "p < q" "p * INSN_SIZE < length prog" by (auto simp: INSN_SIZE_def)
    then obtain two where two: "check_insn prog p = Inr two"
      and rest: "check_from prog (if two then p + 2 else p + 1) = Inr ()"
      using 1(2) by (auto simp: check_from.simps [of prog p] split: sum.splits)
    have foll: "insn_start prog (if two then p + 2 else p + 1)"
      using insn_start.following [OF 1(3) _ two] lt by (simp add: INSN_SIZE_def)
    show ?thesis
    proof (cases "two \<and> q = p + 1")
      case True
      then show ?thesis using two lt by (auto simp: INSN_SIZE_def)
    next
      case False
      then have "(if two then p + 2 else p + 1) \<le> q" using lt by auto
      from 1(1) [OF lt(2) two rest foll this 1(5)] show ?thesis .
    qed
  qed (use 1 in simp)
qed

lemma accepted_insn:
  assumes "check prog = Inr ()" and "p < length prog div 8"
  shows "get_insn prog (of_nat p) = Some (insn_at prog p)"
  using assms check_parts [OF assms(1)] by (subst get_insn_of_nat) auto

lemma decode_0: "decode_opcode 0 = None"
proof (rule ccontr)
  assume "decode_opcode 0 \<noteq> None"
  then obtain k where "opcode_byte k = 0" by (auto simp: decode_opcode_Some)
  moreover have "0 \<notin> set (map (unat \<circ> opcode_byte) all_opcodes)" unfolding opcode_byte_nat by simp
  ultimately show False using all_opcodes_all [of k] by (force simp: image_iff)
qed

text \<open>A position whose operation code is not 0 is the start of an instruction.\<close>

lemma nonzero_is_start:
  assumes "check prog = Inr ()" and "q < length prog div 8" and "insn_opc (insn_at prog q) \<noteq> 0"
  shows "insn_start prog q"
proof -
  have "q * 8 < length prog" using assms(2) by auto
  from start_or_second [OF check_parts(2) [OF assms(1)] insn_start.first _ this]
  consider "insn_start prog q"
    | p' where "q = p' + 1" "p' * 8 < length prog" "check_insn prog p' = Inr True"
    by auto
  then show ?thesis
  proof cases
    case 2
    then have "check_load_dw prog p' = Inr ()"
      by (auto simp: check_insn_def check_opcode_def split: option.splits sum.splits prod.splits opcode.splits)
    then show ?thesis
      using assms accepted_insn [OF assms(1,2)] 2(1) by (auto simp: check_load_dw_def split: if_splits)
  qed
qed

fun is_jump :: "opcode \<Rightarrow> bool" where
  "is_jump Ja = True" | "is_jump (Jmp _ _) = True" | "is_jump (Jmp32 _ _) = True" | "is_jump _ = False"

definition jump_target :: "bytes \<Rightarrow> nat \<Rightarrow> int" where
  "jump_target prog p = int p + 1 + sint (insn_off (insn_at prog p))"

definition call_target :: "bytes \<Rightarrow> nat \<Rightarrow> int" where
  "call_target prog p = int p + 1 + sint (insn_imm (insn_at prog p))"

lemma registers_checked: "check_registers i b = Inr () \<Longrightarrow> insn_src i \<le> 10 \<and> insn_dst i \<le> 10"
  by (auto simp: check_registers_def not_less word_le_nat_alt split: if_splits)

lemma accepted_start:
  assumes c: "check prog = Inr ()" and st: "insn_start prog p" and lt: "p < length prog div 8"
  obtains k where "decode_opcode (insn_opc (insn_at prog p)) = Some k"
    and "insn_src (insn_at prog p) \<le> 10" and "insn_dst (insn_at prog p) \<le> 10"
    and "k \<notin> {StWXadd, StDwXadd, TailCall}"
    and "k \<in> {Le, Be} \<Longrightarrow> insn_imm (insn_at prog p) \<in> {16, 32, 64}"
    and "k = LdDwImm \<Longrightarrow> check_load_dw prog p = Inr ()"
    and "k = LdDwImm \<Longrightarrow> insn_start prog (p + 2)"
    and "k \<noteq> LdDwImm \<Longrightarrow> insn_start prog (p + 1)"
    and "is_jump k \<Longrightarrow> check_jmp_offset prog p = Inr ()"
proof -
  obtain two where two: "check_insn prog p = Inr two" using start_insn(2) [OF c st lt] by blast
  have i: "get_insn prog (of_nat p) = Some (insn_at prog p)" by (rule accepted_insn [OF c lt])
  obtain sto where op: "check_opcode prog p (insn_at prog p) = Inr (sto, two)"
    and reg: "check_registers (insn_at prog p) sto = Inr ()"
    using two i by (auto simp: check_insn_def split: sum.splits prod.splits)
  obtain k where k: "decode_opcode (insn_opc (insn_at prog p)) = Some k"
    using op by (auto simp: check_opcode_def split: option.splits)
  have "two \<longleftrightarrow> k = LdDwImm"
    using op k by (auto simp: check_opcode_def split: opcode.splits sum.splits)
  moreover have "insn_start prog (if two then p + 2 else p + 1)"
    using insn_start.following [OF st _ two] lt by (simp add: less_mult_imp_div_less)
  ultimately show thesis
    using that [OF k] registers_checked [OF reg] op k
    by (cases k) (auto simp: check_opcode_def check_imm_endian_def
        split: sum.splits option.splits if_splits)
qed

lemma jump_checked:
  assumes c: "check prog = Inr ()" and lt: "p < length prog div 8" and "check_jmp_offset prog p = Inr ()"
  shows "0 \<le> jump_target prog p" and "nat (jump_target prog p) < length prog div 8"
    and "insn_start prog (nat (jump_target prog p))"
proof -
  have dst: "0 \<le> jump_target prog p \<and> nat (jump_target prog p) < length prog div 8 \<and>
      (\<forall>i'. get_insn prog (of_nat (nat (jump_target prog p))) = Some i' \<longrightarrow> insn_opc i' \<noteq> 0)"
    using assms(3) accepted_insn [OF c lt]
    by (auto simp: check_jmp_offset_def jump_target_def Let_def INSN_SIZE_def not_less not_le
        split: option.splits if_splits)
  then show "0 \<le> jump_target prog p" and lt': "nat (jump_target prog p) < length prog div 8" by auto
  show "insn_start prog (nat (jump_target prog p))"
    using dst accepted_insn [OF c lt'] by (intro nonzero_is_start [OF c lt']) blast
qed


text \<open>
  What the verifier does not check: the target of a call of a function of the program, and that
  control cannot run past the last instruction.
\<close>

definition calls_inside :: "bytes \<Rightarrow> bool" where
  "calls_inside prog \<longleftrightarrow> list_all (\<lambda>p.
     decode_opcode (insn_opc (insn_at prog p)) = Some Call \<and> insn_src (insn_at prog p) \<noteq> 0 \<longrightarrow>
     0 \<le> call_target prog p \<and> nat (call_target prog p) < length prog div 8 \<and>
     insn_opc (insn_at prog (nat (call_target prog p))) \<noteq> 0) [0..<length prog div 8]"

definition ends_closed :: "bytes \<Rightarrow> bool" where
  "ends_closed prog \<longleftrightarrow>
     decode_opcode (insn_opc (insn_at prog (length prog div 8 - 1))) \<in> {Some Ja, Some Exit_op}"

definition safe_pc :: "bytes \<Rightarrow> 64 word \<Rightarrow> bool" where
  "safe_pc prog pc \<longleftrightarrow> unat pc < length prog div 8 \<and> insn_start prog (unat pc)"

definition safe_state :: "bytes \<Rightarrow> ebpf_state \<Rightarrow> bool" where
  "safe_state prog s \<longleftrightarrow>
     length (eb_reg s) = 11 \<and> safe_pc prog (eb_pc s) \<and>
     (\<forall>f \<in> set (eb_frames s). length (cf_caller_saved f) = 4 \<and> safe_pc prog (cf_target_pc f))"

definition layout_ok :: "ebpf_image \<Rightarrow> bool" where
  "layout_ok im \<longleftrightarrow>
     unat (fst (im_mbuff im)) + unat (snd (im_mbuff im)) < 2 ^ 64 \<and>
     unat (fst (im_mem im)) + unat (snd (im_mem im)) < 2 ^ 64 \<and>
     unat (fst (im_stack im)) + unat (snd (im_stack im)) < 2 ^ 64"

text \<open>The address and the checked length of a memory instruction.\<close>

definition access_of :: "ebpf_image \<Rightarrow> ebpf_state \<Rightarrow> insn \<Rightarrow> opcode \<Rightarrow> (64 word \<times> nat) option" where
  "access_of im s i k =
     (let src = eb_reg s ! unat (insn_src i); dst = eb_reg s ! unat (insn_dst i) in
      case k of
        LdAbs w \<Rightarrow> Some (fst (im_mem im) + ucast (insn_imm i), 8)
      | LdInd w \<Rightarrow> Some (fst (im_mem im) + src + ucast (insn_imm i), 8)
      | LdReg w \<Rightarrow> Some (src + scast (insn_off i), width_bytes w)
      | StImm w \<Rightarrow> Some (dst + scast (insn_off i), width_bytes w)
      | StReg w \<Rightarrow> Some (dst + scast (insn_off i), width_bytes w)
      | _ \<Rightarrow> None)"

text \<open>
  The two ways in which an accepted instruction crashes the host: a 32-bit division by a register
  that is a multiple of \<open>2 ^ 32\<close> other than 0, and an access that runs over the end of the address
  space.
\<close>

definition traps :: "ebpf_image \<Rightarrow> ebpf_state \<Rightarrow> insn \<Rightarrow> opcode \<Rightarrow> bool" where
  "traps im s i k \<longleftrightarrow>
     k \<in> {Alu32 AluDiv Reg, Alu32 AluMod Reg} \<and> eb_reg s ! unat (insn_src i) \<noteq> 0 \<and>
       unat (eb_reg s ! unat (insn_src i)) mod 2 ^ 32 = 0 \<or>
     (\<exists>a n. access_of im s i k = Some (a, n) \<and> 2 ^ 64 \<le> unat a + n)"

lemma width_bytes_le: "width_bytes w \<le> 8"
  by (cases w) simp_all

lemma access_crash:
  assumes "checked_access im a n k = Crash" and "k \<noteq> Crash" and "layout_ok im" and "n \<le> 8"
  shows "2 ^ 64 \<le> unat a + n"
proof (rule ccontr)
  assume "\<not> 2 ^ 64 \<le> unat a + n"
  moreover have "unat (of_nat n :: 64 word) = n" using assms(4) by (simp add: unat_of_nat)
  moreover from assms(1,2) have "check_mem (im_mbuff im) (im_mem im) (im_stack im) a (of_nat n)"
    and "\<not> (\<exists>r \<in> {im_mbuff im, im_mem im, im_stack im}. mapped r a n)"
    by (auto simp: checked_access_def split: if_splits)
  ultimately show False
    using assms(3) check_mem_bounds_parts(1) [of "im_mbuff im" "im_mem im" "im_stack im" a "of_nat n"]
    by (auto simp: layout_ok_def mapped_def case_prod_unfold)
qed

lemmas exec_defs = exec_insn_def load_step_def store_step_def alu_step_def jump_step_def
  endian_step_def with_operand_def with_reg_def set_reg_def do_jump_def call_step_def exit_step_def

lemma unat_low32: "unat (ucast b :: 32 word) = unat (b :: 64 word) mod 2 ^ 32"
  by (simp add: unsigned_ucast_eq take_bit_eq_mod)

lemma low32_None:
  "low32 (alu32 f) a b = None \<longleftrightarrow> f \<in> {AluDiv, AluMod} \<and> unat b mod 2 ^ 32 = 0"
proof -
  have "(ucast b :: 32 word) = 0 \<longleftrightarrow> unat b mod 2 ^ 32 = 0"
    using unat_low32 [of b] by (metis unat_eq_zero)
  then show ?thesis by (cases f) (simp_all add: low32_def)
qed

lemma alu64_None: "alu64 f a b = None \<longleftrightarrow> f \<in> {AluDiv, AluMod} \<and> b = 0"
  by (cases f) simp_all

lemma scast_imm_zero: "unat (scast (w :: 32 word) :: 64 word) mod 2 ^ 32 = 0 \<longleftrightarrow> w = 0"
proof -
  have "ucast (scast w :: 64 word) = w" by (rule bit_word_eqI) (auto simp: bit_simps)
  then show ?thesis using unat_low32 [of "scast w"] by (metis unat_eq_zero)
qed

lemma exec_in_place:
  assumes "length (eb_reg s) = 11" and "\<not> is_jump k" and "k \<notin> {LdDwImm, Call, Exit_op}"
  shows "case exec_insn im s i k of
           Next s' \<Rightarrow> eb_pc s' = eb_pc s \<and> eb_frames s' = eb_frames s \<and> length (eb_reg s') = 11
         | Leave \<Rightarrow> False
         | Helper _ _ _ \<Rightarrow> False
         | _ \<Rightarrow> True"
  using assms
  by (cases k) (auto simp: exec_defs checked_access_def Let_def split: operand.split option.split)

lemma exec_crash:
  assumes "exec_insn im s i k = Crash" and reg: "length (eb_reg s) = 11"
    and ids: "insn_src i \<le> 10" "insn_dst i \<le> 10" and "k \<notin> {StWXadd, StDwXadd, TailCall}"
    and "k \<in> {Le, Be} \<Longrightarrow> insn_imm i \<in> {16, 32, 64}"
    and "k = LdDwImm \<Longrightarrow> get_insn (im_text im) (eb_pc s) \<noteq> None" and lay: "layout_ok im"
  shows "traps im s i k"
proof -
  have lt: "unat (insn_src i) < 11" "unat (insn_dst i) < 11"
    using ids by (simp_all add: word_le_nat_alt)
  have acc: "2 ^ 64 \<le> unat a + n" if "checked_access im a n k' = Crash" "k' \<noteq> Crash" "n \<le> 8" for a n k'
    using access_crash [OF that(1,2) lay that(3)] .
  show ?thesis
  proof (cases k)
    case (LdAbs w)
    then show ?thesis using assms(1) reg
      by (auto simp: exec_defs traps_def access_of_def dest!: acc)
  next
    case (LdInd w)
    then show ?thesis using assms(1) reg lt
      by (auto simp: exec_defs traps_def access_of_def dest!: acc)
  next
    case (LdReg w)
    then show ?thesis using assms(1) reg lt width_bytes_le [of w]
      by (auto simp: exec_defs traps_def access_of_def dest!: acc)
  next
    case (StImm w)
    then show ?thesis using assms(1) reg lt width_bytes_le [of w]
      by (auto simp: exec_defs traps_def access_of_def Let_def dest!: acc)
  next
    case (StReg w)
    then show ?thesis using assms(1) reg lt width_bytes_le [of w]
      by (auto simp: exec_defs traps_def access_of_def Let_def dest!: acc)
  next
    case (Alu32 f x)
    have "4294967296 dvd unat (scast (insn_imm i) :: 64 word) \<longleftrightarrow> insn_imm i = 0"
      using scast_imm_zero [of "insn_imm i"] by (simp add: mod_eq_0_iff_dvd)
    with Alu32 assms(1) reg lt show ?thesis
      by (cases x; cases f) (auto simp: exec_defs traps_def low32_None split: if_splits option.splits)
  next
    case (Alu64 f x)
    with assms(1) reg lt show ?thesis
      by (cases x; cases f) (auto simp: exec_defs split: if_splits)
  qed (use assms lt in \<open>auto simp: exec_defs split: operand.splits if_splits list.splits option.splits\<close>)
qed


lemma uint_of_int_small: "0 \<le> j \<Longrightarrow> j < 2 ^ LENGTH('a) \<Longrightarrow> uint (of_int j :: 'a::len word) = j"
  by (simp add: unsigned_of_int take_bit_int_eq_self)

lemma unat_moved:
  assumes "0 \<le> int p + j" and "int p + j < 2 ^ 64"
  shows "unat (of_nat p + of_int j :: 64 word) = nat (int p + j)"
proof -
  have "of_nat p + of_int j = (of_int (int p + j) :: 64 word)" by simp
  moreover have "uint (of_int (int p + j) :: 64 word) = int p + j"
    using assms by (intro uint_of_int_small) simp_all
  ultimately show ?thesis by (simp only: unat_eq_nat_uint)
qed

lemma scast_of_int: "scast (w :: 'a::len word) = (of_int (sint w) :: 64 word)"
  by (rule scast_eq)

lemma uint_minus_neg:
  assumes "sint (w :: 32 word) < 0" shows "uint (- w) = - sint w"
proof -
  have "- (2 ^ 31) \<le> sint w" using sint_greater_eq [of w] by simp
  then have "uint (of_int (- sint w) :: 32 word) = - sint w"
    using assms by (intro uint_of_int_small) simp_all
  then show ?thesis by simp
qed


text \<open>Where control goes after an instruction at a safe position.\<close>

lemma safe_pc_of_nat: "p < length prog div 8 \<Longrightarrow> insn_start prog p \<Longrightarrow> check prog = Inr () \<Longrightarrow> safe_pc prog (of_nat p)"
  using check_parts(5) [of prog] by (simp add: safe_pc_def unat_of_nat)

lemma last_is_closed:
  assumes "check prog = Inr ()" and "ends_closed prog" and "p < length prog div 8"
    and "decode_opcode (insn_opc (insn_at prog p)) = Some k" and "k \<notin> {Ja, Exit_op}"
  shows "p + 1 < length prog div 8"
  using assms by (cases "p = length prog div 8 - 1") (auto simp: ends_closed_def)

lemma safe_fall_through:
  assumes c: "check prog = Inr ()" and e: "ends_closed prog" and lt: "p < length prog div 8"
    and d: "decode_opcode (insn_opc (insn_at prog p)) = Some k" "k \<notin> {Ja, Exit_op}"
    and st: "insn_start prog (p + 1)"
  shows "safe_pc prog (of_nat p + 1)"
  using safe_pc_of_nat [OF last_is_closed [OF c e lt d] st c] by (simp add: add.commute)

lemma safe_jump:
  assumes c: "check prog = Inr ()" and lt: "p < length prog div 8" and j: "check_jmp_offset prog p = Inr ()"
  shows "safe_pc prog (of_nat p + 1 + scast (insn_off (insn_at prog p)))"
proof -
  note t = jump_checked [OF c lt j]
  have "unat (of_nat (p + 1) + of_int (sint (insn_off (insn_at prog p))) :: 64 word) =
      nat (jump_target prog p)"
    using t(1,2) check_parts(5) [OF c] unfolding jump_target_def by (subst unat_moved) auto
  then show ?thesis using t by (simp add: safe_pc_def add.commute flip: scast_of_int)
qed

lemma safe_call:
  assumes c: "check prog = Inr ()" and ci: "calls_inside prog" and lt: "p < length prog div 8"
    and d: "decode_opcode (insn_opc (insn_at prog p)) = Some Call" and nz: "insn_src (insn_at prog p) \<noteq> 0"
  defines "w \<equiv> insn_imm (insn_at prog p)"
  shows "safe_pc prog (if sint w < 0 then of_nat p + 1 - ucast (- w) else of_nat p + 1 + ucast w)"
proof -
  have t: "0 \<le> call_target prog p" "nat (call_target prog p) < length prog div 8"
    "insn_opc (insn_at prog (nat (call_target prog p))) \<noteq> 0"
    using ci lt d nz by (auto simp: calls_inside_def list_all_iff)
  have neg: "ucast (- w) = (- of_int (sint w) :: 64 word)" if "sint w < 0"
    unfolding ucast_eq uint_minus_neg [OF that] by simp
  have pos: "ucast w = (of_int (sint w) :: 64 word)" if "\<not> sint w < 0"
  proof -
    have "uint (of_int (sint w) :: 32 word) = sint w"
      using that sint_less [of w] by (intro uint_of_int_small) simp_all
    then show ?thesis by (simp add: ucast_eq)
  qed
  have "unat (of_nat (p + 1) + of_int (sint w) :: 64 word) = nat (call_target prog p)"
    using t(1,2) check_parts(5) [OF c] unfolding call_target_def w_def by (subst unat_moved) auto
  then have "safe_pc prog (of_nat (p + 1) + of_int (sint w))"
    using t nonzero_is_start [OF c t(2,3)] by (simp only: safe_pc_def)
  then show ?thesis using neg pos by (auto simp: add.commute)
qed


definition safe_outcome :: "bytes \<Rightarrow> outcome \<Rightarrow> bool" where
  "safe_outcome prog r = (case r of
     Next s' \<Rightarrow> safe_state prog s' | Helper _ _ k \<Rightarrow> (\<forall>r. safe_state prog (k r)) | Leave \<Rightarrow> False | _ \<Rightarrow> True)"

lemma safe_moved:
  "safe_state prog s \<Longrightarrow> safe_pc prog pc \<Longrightarrow> eb_pc s' = pc \<Longrightarrow> eb_frames s' = eb_frames s \<Longrightarrow>
     length (eb_reg s') = 11 \<Longrightarrow> safe_state prog s'"
  by (simp add: safe_state_def)

lemma step_at:
  assumes c: "check (im_text im) = Inr ()" and lt: "unat (eb_pc s) < length (im_text im) div 8"
    and d: "decode_opcode (insn_opc (insn_at (im_text im) (unat (eb_pc s)))) = Some k"
  shows "ebpf_step im s = exec_insn im (s\<lparr>eb_pc := eb_pc s + 1\<rparr>) (insn_at (im_text im) (unat (eb_pc s))) k"
proof -
  have "unat (8 * of_nat (unat (eb_pc s)) :: 64 word) = 8 * unat (eb_pc s)"
    using lt check_parts(5) [OF c] by (intro unat_times_8) simp
  then have "eb_pc s * 8 < of_nat (length (im_text im))"
    using lt check_parts(5) [OF c] by (simp add: word_less_nat_alt unat_of_nat mult.commute)
  then show ?thesis using accepted_insn [OF c lt] d by (simp add: ebpf_step_def)
qed

lemma exec_safe:
  fixes im s
  defines "prog \<equiv> im_text im" and "p \<equiv> unat (eb_pc s)"
  defines "i \<equiv> insn_at prog p" and "s1 \<equiv> s\<lparr>eb_pc := eb_pc s + 1\<rparr>"
  assumes c: "check prog = Inr ()" and ci: "calls_inside prog" and e: "ends_closed prog"
    and safe: "safe_state prog s" and d: "decode_opcode (insn_opc i) = Some k"
    and fall: "k \<noteq> LdDwImm \<Longrightarrow> insn_start prog (p + 1)"
    and dw: "k = LdDwImm \<Longrightarrow> insn_start prog (p + 2)" "k = LdDwImm \<Longrightarrow> check_load_dw prog p = Inr ()"
    and j: "is_jump k \<Longrightarrow> check_jmp_offset prog p = Inr ()"
  shows "safe_outcome prog (exec_insn im s1 i k)"
proof -
  have lt: "p < length prog div 8" and reg: "length (eb_reg s) = 11" and pc: "eb_pc s = of_nat p"
    using safe by (simp_all add: safe_state_def safe_pc_def p_def)
  have ft: "safe_pc prog (eb_pc s + 1)" if "k \<noteq> LdDwImm" "k \<notin> {Ja, Exit_op}"
    unfolding pc using safe_fall_through [OF c e lt _ _ fall] that d by (simp add: i_def)
  have jm: "safe_pc prog (eb_pc s + 1 + scast (insn_off i))" if "is_jump k"
    unfolding pc i_def by (rule safe_jump [OF c lt j [OF that]])
  consider "is_jump k" | "k = LdDwImm" | "k = Call" | "k = Exit_op"
    | "\<not> is_jump k" "k \<notin> {LdDwImm, Call, Exit_op}" by blast
  then show ?thesis
  proof cases
    case 1
    then show ?thesis using jm ft reg safe_moved [OF safe]
      by (cases k) (auto simp: exec_defs s1_def safe_outcome_def split: operand.splits)
  next
    case 2
    have lt': "p + 1 < length prog div 8" using last_is_closed [OF c e lt] d 2 by (simp add: i_def)
    have "insn_opc (insn_at prog (p + 1)) = 0"
      using dw(2) [OF 2] accepted_insn [OF c lt'] by (auto simp: check_load_dw_def split: if_splits)
    then have "p + 1 \<noteq> length prog div 8 - 1" using e decode_0 by (auto simp: ends_closed_def)
    then have "safe_pc prog (of_nat (p + 2))"
      using lt' dw(1) [OF 2] by (intro safe_pc_of_nat c) simp_all
    then show ?thesis using 2 reg safe_moved [OF safe]
      by (auto simp: exec_defs s1_def safe_outcome_def pc add.assoc split: option.splits)
  next
    case 3
    then show ?thesis using ft reg safe safe_call [OF c ci lt] d
      by (auto simp: exec_defs s1_def safe_outcome_def safe_state_def i_def pc)
  next
    case 4
    then show ?thesis using reg safe
      by (auto simp: exec_defs s1_def safe_outcome_def safe_state_def split: list.splits)
  next
    case 5
    have "k \<noteq> Ja" using 5(1) by auto
    have "length (eb_reg s1) = 11" using reg by (simp add: s1_def)
    from exec_in_place [OF this 5(1) 5(2), of im i] 5 \<open>k \<noteq> Ja\<close> show ?thesis
      using safe_moved [OF safe ft] by (auto simp: safe_outcome_def s1_def split: outcome.splits)
  qed
qed


lemma step_safe:
  assumes c: "check (im_text im) = Inr ()" and "calls_inside (im_text im)" and "ends_closed (im_text im)"
    and safe: "safe_state (im_text im) s"
  obtains i k where "get_insn (im_text im) (eb_pc s) = Some i" and "decode_opcode (insn_opc i) = Some k"
    and "safe_outcome (im_text im) (ebpf_step im s)"
    and "layout_ok im \<Longrightarrow> ebpf_step im s = Crash \<Longrightarrow> traps im s i k"
proof -
  let ?prog = "im_text im" and ?p = "unat (eb_pc s)" and ?s = "s\<lparr>eb_pc := eb_pc s + 1\<rparr>"
  have st: "insn_start ?prog ?p" and lt: "?p < length ?prog div 8" and reg: "length (eb_reg s) = 11"
    using safe by (simp_all add: safe_state_def safe_pc_def)
  show thesis
  proof (rule accepted_start [OF c st lt])
    fix k assume d: "decode_opcode (insn_opc (insn_at ?prog ?p)) = Some k"
      and ids: "insn_src (insn_at ?prog ?p) \<le> 10" "insn_dst (insn_at ?prog ?p) \<le> 10"
      and no: "k \<notin> {StWXadd, StDwXadd, TailCall}"
      and en: "k \<in> {Le, Be} \<Longrightarrow> insn_imm (insn_at ?prog ?p) \<in> {16, 32, 64}"
      and dw: "k = LdDwImm \<Longrightarrow> check_load_dw ?prog ?p = Inr ()" "k = LdDwImm \<Longrightarrow> insn_start ?prog (?p + 2)"
      and ft: "k \<noteq> LdDwImm \<Longrightarrow> insn_start ?prog (?p + 1)"
      and j: "is_jump k \<Longrightarrow> check_jmp_offset ?prog ?p = Inr ()"
    note step = step_at [OF c lt d]
    have second: "get_insn ?prog (eb_pc ?s) \<noteq> None" if "k = LdDwImm"
      using dw(1) [OF that] by (auto simp: check_load_dw_def add.commute split: option.splits)
    show thesis
    proof (rule that)
      show "get_insn ?prog (eb_pc s) = Some (insn_at ?prog ?p)" using accepted_insn [OF c lt] by simp
      show "decode_opcode (insn_opc (insn_at ?prog ?p)) = Some k" by (rule d)
      show "safe_outcome ?prog (ebpf_step im s)"
        unfolding step by (rule exec_safe [OF assms d ft dw(2,1) j])
      show "traps im s (insn_at ?prog ?p) k" if "layout_ok im" "ebpf_step im s = Crash"
        using exec_crash [of im ?s "insn_at ?prog ?p" k] that step reg ids no en second
        by (simp add: traps_def access_of_def)
    qed
  qed
qed

text \<open>The states that a run can pass through, whatever the system calls answer.\<close>

inductive ebpf_reach :: "ebpf_image \<Rightarrow> ebpf_state \<Rightarrow> bool" for im where
  entry: "ebpf_reach im (ebpf_init im)"
| instruction: "ebpf_reach im s \<Longrightarrow> ebpf_step im s = Next s' \<Longrightarrow> ebpf_reach im s'"
| answer: "ebpf_reach im s \<Longrightarrow> ebpf_step im s = Helper key rs k \<Longrightarrow> ebpf_reach im (k r)"

lemma reach_safe:
  assumes "ebpf_reach im s" and "check (im_text im) = Inr ()" and "calls_inside (im_text im)"
    and "ends_closed (im_text im)" and "safe_pc (im_text im) (im_start im div 8)"
  shows "safe_state (im_text im) s"
  using assms(1)
proof induction
  case entry
  show ?case using assms(5) by (simp add: safe_state_def ebpf_init_def)
next
  case (instruction s s')
  have "safe_outcome (im_text im) (ebpf_step im s)" by (rule step_safe [OF assms(2-4) instruction.IH])
  then show ?case using instruction by (simp add: safe_outcome_def)
next
  case (answer s key rs k r)
  have "safe_outcome (im_text im) (ebpf_step im s)" by (rule step_safe [OF assms(2-4) answer.IH])
  then show ?case using answer by (simp add: safe_outcome_def)
qed


lemma step_frames:
  assumes "ebpf_step im s = Next s' \<or> (\<exists>key rs k r. ebpf_step im s = Helper key rs k \<and> s' = k r)"
    and "length (eb_frames s) \<le> MAX_CALL_DEPTH"
  shows "length (eb_frames s') \<le> MAX_CALL_DEPTH"
proof -
  have exec: "length (eb_frames s') \<le> MAX_CALL_DEPTH"
    if "exec_insn im t i k = Next s' \<or> (\<exists>key rs f r. exec_insn im t i k = Helper key rs f \<and> s' = f r)"
      "eb_frames t = eb_frames s" for t i k
    using that assms(2)
    by (cases k) (auto simp: exec_defs checked_access_def Let_def
        split: operand.splits option.splits if_splits list.splits)
  show ?thesis
    using assms(1) exec [of "s\<lparr>eb_pc := eb_pc s + 1\<rparr>"]
    by (auto simp: ebpf_step_def split: if_splits option.splits)
qed

lemma reach_frames: "ebpf_reach im s \<Longrightarrow> length (eb_frames s) \<le> MAX_CALL_DEPTH"
proof (induction rule: ebpf_reach.induct)
  case entry
  show ?case by (simp add: ebpf_init_def)
next
  case (instruction s s')
  then show ?case using step_frames [of im s s'] by simp
next
  case (answer s key rs k r)
  then show ?case using step_frames [of im s "k r"] by blast
qed

section \<open>Assembled programs\<close>

definition ins :: "opcode \<Rightarrow> 8 word \<Rightarrow> 8 word \<Rightarrow> 16 word \<Rightarrow> 32 word \<Rightarrow> insn" where
  "ins k d r off imm =
     \<lparr>insn_opc = opcode_byte k, insn_dst = d, insn_src = r, insn_off = off, insn_imm = imm\<rparr>"

definition assemble :: "insn list \<Rightarrow> bytes" where
  "assemble is = concat (map to_vec is)"

definition image_of :: "bytes \<Rightarrow> ebpf_image" where
  "image_of text =
     \<lparr>im_text = text, im_start = 0, im_mbuff = (4096, 64), im_mem = (8192, 1024),
      im_stack = (65536, 410000), im_bytes = (\<lambda>_. 0)\<rparr>"

lemma length_assemble [simp]: "length (assemble is) = 8 * length is"
  by (simp add: assemble_def length_concat o_def sum_list_triv)

lemma get_insn_assemble:
  assumes "list_all regs_encodable is" and "length is < 2 ^ 60" and "p < 2 ^ 60"
  shows "get_insn (assemble is) (of_nat p) = (if p < length is then Some (is ! p) else None)"
  using assms insn_at_concat [OF assms(1), of p]
  by (simp add: get_insn_of_nat flip: assemble_def)

lemma ins_fields [simp]:
  "insn_opc (ins k d r off imm) = opcode_byte k" "insn_dst (ins k d r off imm) = d"
  "insn_src (ins k d r off imm) = r" "insn_off (ins k d r off imm) = off" "insn_imm (ins k d r off imm) = imm"
  by (simp_all add: ins_def)

lemmas get_insn_assemble_at =
  get_insn_assemble [where p = 0, simplified] get_insn_assemble [where p = 1, simplified]
  get_insn_assemble [where p = "numeral n" for n, simplified]

lemma regs_encodable_simps [simp]:
  "regs_encodable (ins k d r off imm) \<longleftrightarrow> d < 16 \<and> r < 16"
  "regs_encodable \<lparr>insn_opc = c, insn_dst = d, insn_src = r, insn_off = off, insn_imm = imm\<rparr> \<longleftrightarrow> d < 16 \<and> r < 16"
  by (simp_all add: regs_encodable_def ins_def)

lemma opcode_byte_nonzero: "opcode_byte k \<noteq> 0"
  using decode_0 decode_opcode_byte [of k] by auto

lemma jump_classes:
  "opcode_byte Exit_op AND BPF_CLS_MASK = BPF_JMP" "opcode_byte (Jmp Jeq Imm) AND BPF_CLS_MASK = BPF_JMP"
  by (simp_all add: bpf_flags)

lemma assemble_Nil [simp]: "assemble is = [] \<longleftrightarrow> is = []"
  using length_assemble [of "is"] by (metis length_0_conv mult_eq_0_iff zero_neq_numeral)

lemmas check_simps = check_def check_prog_len_def check_from.simps check_insn_def check_opcode_def
  check_registers_def check_jmp_offset_def check_load_dw_def INSN_SIZE_def PROG_MAX_SIZE_def PROG_MAX_INSNS_def
  get_insn_assemble_at decode_opcode_byte opcode_byte_nonzero jump_classes

text \<open>
  C3: Type safety of verified programs. In a program that the verifier accepts, whose local calls
  go to instructions of the program and whose last instruction is an unconditional jump or an exit,
  a run that starts at an instruction keeps eleven registers and a call stack of at most fifty frames,
  always stands at a known instruction with valid operands, and never leaves the code. It crashes
  the host only by a 32-bit division by a register whose low half is 0, or by a memory access that
  runs over the end of the address space.
\<close>

theorem verified_program_is_safe:
  assumes "check (im_text im) = Inr ()" and "calls_inside (im_text im)" and "ends_closed (im_text im)"
    and "insn_opc (insn_at (im_text im) (unat (im_start im div 8))) \<noteq> 0"
    and "unat (im_start im div 8) < length (im_text im) div 8" and "layout_ok im"
    and "ebpf_reach im s"
  shows "length (eb_reg s) = 11 \<and> length (eb_frames s) \<le> MAX_CALL_DEPTH \<and>
    (\<exists>i k. get_insn (im_text im) (eb_pc s) = Some i \<and> decode_opcode (insn_opc i) = Some k \<and>
      ebpf_step im s \<noteq> Leave \<and> (ebpf_step im s = Crash \<longrightarrow> traps im s i k))"
proof -
  have "safe_pc (im_text im) (im_start im div 8)"
    unfolding safe_pc_def using assms nonzero_is_start by blast
  with assms have safe: "safe_state (im_text im) s" by (intro reach_safe)
  show ?thesis
  proof (rule step_safe [OF assms(1-3) safe])
    fix i k assume "get_insn (im_text im) (eb_pc s) = Some i" "decode_opcode (insn_opc i) = Some k"
      "safe_outcome (im_text im) (ebpf_step im s)" "layout_ok im \<Longrightarrow> ebpf_step im s = Crash \<Longrightarrow> traps im s i k"
    then show ?thesis using safe reach_frames [OF assms(7)] assms(6)
      by (auto simp: safe_state_def safe_outcome_def split: outcome.splits)
  qed
qed


definition return_7 :: bytes where
  "return_7 = assemble [ins (Alu64 AluMov Imm) 0 0 0 7, ins Exit_op 0 0 0 0]"

lemma image_of_fields:
  "im_text (image_of text) = text" "im_start (image_of text) = 0" "layout_ok (image_of text)"
  by (simp_all add: image_of_def layout_ok_def)

lemma insn_at_assemble:
  "list_all regs_encodable is \<Longrightarrow> p < length is \<Longrightarrow> insn_at (assemble is) p = is ! p"
  unfolding assemble_def by (rule insn_at_concat)

lemma return_7_accepted:
  "check return_7 = Inr ()" "calls_inside return_7" "ends_closed return_7"
  "insn_opc (insn_at return_7 0) \<noteq> 0"
  by (simp_all add: return_7_def check_simps calls_inside_def ends_closed_def insn_at_assemble
      upt_rec del: opcode_byte.simps)

theorem verified_program_is_safe_witness:
  "length (eb_frames (ebpf_init (image_of return_7))) \<le> MAX_CALL_DEPTH \<and>
   ebpf_step (image_of return_7) (ebpf_init (image_of return_7)) \<noteq> Leave"
  using verified_program_is_safe [of "image_of return_7", OF _ _ _ _ _ _ ebpf_reach.entry]
    return_7_accepted image_of_fields [of return_7]
  by (auto simp: return_7_def)

section \<open>Gas bounds the run\<close>

lemma gas_left_burn:
  assumes "gas_left g \<noteq> 0" and "f \<noteq> 0"
  shows "unat (gas_left (burn f g)) < unat (gas_left g)"
proof -
  have b: "unat (rg_burnt_gas g) < unat (rg_gas_limit g)"
  proof -
    have "unat (rg_burnt_gas g) \<le> unat (rg_gas_limit g)" and "rg_burnt_gas g \<noteq> rg_gas_limit g"
      using assms(1) by (auto simp: gas_left_def saturating_sub_def split: if_splits)
    then show ?thesis by (metis le_neq_implies_less word_unat_eq_iff)
  qed
  have "unat (- 1 :: 64 word) = 2 ^ 64 - 1" by (simp add: unsigned_minus_1_eq_mask mask_eq_exp_minus_1)
  moreover have "unat f \<noteq> 0" using assms(2) by (simp add: unat_eq_zero)
  ultimately have "unat (rg_burnt_gas g) < unat (rg_burnt_gas (burn f g))"
    using b unat_bounded [of "rg_gas_limit g"] by (auto simp: burn_def checked_simps split: option.split)
  moreover have "unat (gas_left h) = unat (rg_gas_limit h) - unat (rg_burnt_gas h)" for h
    by (simp add: gas_left_def saturating_sub_def unat_sub word_le_nat_alt)
  ultimately show ?thesis using b by (simp add: burn_def)
qed


lemma gas_left_mono:
  assumes "vm_same vm vm'"
  shows "unat (gas_left (vm_runtime_gas vm')) \<le> unat (gas_left (vm_runtime_gas vm))"
  using assms by (auto simp: vm_same_def gas_left_def saturating_sub_def unat_sub word_le_nat_alt)

lemma vm_same_api_call: "vm_same vm (burn_api_call vm)"
  by (simp add: vm_same_def burn_api_call_def)

lemma tree_fuel:
  assumes "vf_basic_instruction (vm_execution_fees vm) \<noteq> 0"
    and "unat (gas_left (vm_runtime_gas vm)) < n" and "unat (gas_left (vm_runtime_gas vm)) < m"
  shows "execute_program E api (ebpf_tree hs im n s) (vm, h) = execute_program E api (ebpf_tree hs im m s) (vm, h)"
  using assms
proof (induction n arbitrary: m s vm h)
  case (Suc n)
  from Suc.prems(3) obtain m' where m: "m = Suc m'" by (cases m) auto
  show ?case
  proof (cases "gas_left (vm_runtime_gas vm) = 0 \<or>
      \<not> ((\<exists>s'. ebpf_step im s = Next s') \<or> (\<exists>key rs k. ebpf_step im s = Helper key rs k))")
    case True
    then show ?thesis by (cases "ebpf_step im s") (auto simp: m split: option.split)
  next
    case False
    then have gas: "gas_left (vm_runtime_gas vm) \<noteq> 0" by simp
    have IH: "execute_program E api (ebpf_tree hs im n t) (burn_instruction vm', h') =
        execute_program E api (ebpf_tree hs im m' t) (burn_instruction vm', h')"
      if "vm_same vm vm'" for vm' h' t
    proof (rule Suc.IH)
      have fee: "vf_basic_instruction (vm_execution_fees vm') \<noteq> 0"
        using that Suc.prems(1) by (simp add: vm_same_def)
      then show "vf_basic_instruction (vm_execution_fees (burn_instruction vm')) \<noteq> 0"
        by (simp add: burn_instruction_def)
      have "unat (gas_left (vm_runtime_gas (burn_instruction vm'))) < unat (gas_left (vm_runtime_gas vm))"
      proof (cases "gas_left (vm_runtime_gas vm') = 0")
        case True
        from gas_left_mono [OF vm_same_burn(1) [of vm']] True
        have "unat (gas_left (vm_runtime_gas (burn_instruction vm'))) = 0" by simp
        moreover have "unat (gas_left (vm_runtime_gas vm)) \<noteq> 0" using gas by (simp add: unat_eq_zero)
        ultimately show ?thesis by simp
      next
        case False
        from gas_left_burn [OF this fee] gas_left_mono [OF that] show ?thesis
          by (simp add: burn_instruction_def)
      qed
      with Suc.prems m show "unat (gas_left (vm_runtime_gas (burn_instruction vm'))) < n"
        and "unat (gas_left (vm_runtime_gas (burn_instruction vm'))) < m'" by simp_all
    qed
    have call: "vm_same vm (burn_api_call vm')" if "env_call E api c rs (vm, h) = (x, (vm', h'))" for c rs x vm' h'
    proof -
      have "vm_same vm vm'" using keepsD [OF any_host.keeps_env_call that] by (simp add: vm_rel_def)
      then show ?thesis by (rule vms.frame_trans [OF _ vm_same_api_call])
    qed
    from False consider s' where "ebpf_step im s = Next s'" | key rs k where "ebpf_step im s = Helper key rs k"
      by blast
    then show ?thesis
    proof cases
      case 1
      then show ?thesis using IH [OF vms.frame_refl] by (simp add: m)
    next
      case 2
      show ?thesis
      proof (cases "hs key")
        case (Some c)
        obtain x vm' h' where run: "env_call E api c rs (vm, h) = (x, (vm', h'))" by (metis prod.exhaust)
        show ?thesis using IH [OF call [OF run]] 2 Some run by (simp add: m split: sum.split)
      qed (use 2 in \<open>simp add: m\<close>)
    qed
  qed
qed simp


text \<open>
  C28: Gas ends every run. When an instruction costs gas, the run of a program does not depend on
  the bound of its tree as soon as the bound exceeds the gas that is left: after as many
  instructions as there is gas, the loop has returned, failed or run out of gas.
\<close>

theorem gas_bounds_interpreter:
  assumes "vf_basic_instruction (vm_execution_fees vm) \<noteq> 0"
    and "unat (gas_left (vm_runtime_gas vm)) < n"
  shows "execute_program E api (ebpf_tree hs im n s) (vm, h) =
         execute_program E api (ebpf_tree hs im (Suc (unat (gas_left (vm_runtime_gas vm)))) s) (vm, h)"
  using assms by (intro tree_fuel) simp_all

theorem gas_bounds_interpreter_witness:
  "execute_program demo_ext transfer_log
     (ebpf_tree (\<lambda>_. None) (image_of return_7) 5000 (ebpf_init (image_of return_7))) (demo_vm [] False, []) =
   execute_program demo_ext transfer_log
     (ebpf_tree (\<lambda>_. None) (image_of return_7) (Suc (unat (gas_left (vm_runtime_gas (demo_vm [] False)))))
       (ebpf_init (image_of return_7))) (demo_vm [] False, [])"
  by (rule gas_bounds_interpreter)
    (simp_all add: demo_vm_def create_basic_config_def gas_left_def runtime_gas_new_def saturating_sub_def)

section \<open>Accepted programs that panic\<close>

lemma access_traps:
  assumes "check_mem (im_mbuff im) (im_mem im) (im_stack im) a (of_nat n)" and "layout_ok im"
    and "2 ^ 64 \<le> unat a + n"
  shows "checked_access im a n k = Crash"
  using assms by (auto simp: checked_access_def mapped_def layout_ok_def case_prod_unfold)

lemma exec_traps:
  assumes "traps im s i k" and reg: "length (eb_reg s) = 11"
    and ids: "insn_src i \<le> 10" "insn_dst i \<le> 10" and lay: "layout_ok im"
    and chk: "\<And>a n. access_of im s i k = Some (a, n) \<Longrightarrow>
        check_mem (im_mbuff im) (im_mem im) (im_stack im) a (of_nat n)"
  shows "exec_insn im s i k = Crash"
proof -
  have lt: "unat (insn_src i) < 11" "unat (insn_dst i) < 11"
    using ids by (simp_all add: word_le_nat_alt)
  from assms(1) consider
      (div) f where "k = Alu32 f Reg" "f \<in> {AluDiv, AluMod}" "eb_reg s ! unat (insn_src i) \<noteq> 0"
        "unat (eb_reg s ! unat (insn_src i)) mod 2 ^ 32 = 0"
    | (mem) a n where "access_of im s i k = Some (a, n)" "2 ^ 64 \<le> unat a + n"
    by (auto simp: traps_def)
  then show ?thesis
  proof cases
    case div
    then have "low32 (alu32 f) (eb_reg s ! unat (insn_dst i)) (eb_reg s ! unat (insn_src i)) = None"
      unfolding low32_None by blast
    with div lt reg show ?thesis by (simp add: exec_defs)
  next
    case mem
    note t = access_traps [OF chk [OF mem(1)] lay mem(2)]
    show ?thesis
      using mem(1) t lt reg
      by (cases k) (auto simp: access_of_def exec_defs Let_def)
  qed
qed

lemma outside_leaves:
  assumes c: "check (im_text im) = Inr ()" and "eb_pc s = of_int j"
    and "- (2 ^ 60) \<le> j" "j < 2 ^ 60" and "\<not> (0 \<le> j \<and> nat j < length (im_text im) div 8)"
  shows "ebpf_step im s = Leave"
proof -
  have len: "length (im_text im) \<le> 8000000" "length (im_text im) mod 8 = 0"
    using check_parts [OF c] by auto
  have "\<not> eb_pc s * 8 < of_nat (length (im_text im))"
  proof (cases "0 \<le> j")
    case True
    have "uint (of_int (j * 8) :: 64 word) = j * 8" using True assms(4) by (intro uint_of_int_small) auto
    then have "unat (eb_pc s * 8) = nat (j * 8)" using assms(2) by (simp add: unat_eq_nat_uint)
    with True assms(5) len show ?thesis by (auto simp: word_less_nat_alt unat_of_nat)
  next
    case False
    have "of_int (2 ^ 64) = (0 :: 64 word)" by simp
    then have e: "eb_pc s * 8 = of_int (2 ^ 64 + j * 8)" using assms(2) by simp
    have "uint (of_int (2 ^ 64 + j * 8) :: 64 word) = 2 ^ 64 + j * 8"
      using False assms(3) by (intro uint_of_int_small) auto
    then have "unat (eb_pc s * 8) = nat (2 ^ 64 + j * 8)" unfolding e by (simp only: unat_eq_nat_uint)
    with False assms(3) len show ?thesis by (auto simp: word_less_nat_alt unat_of_nat)
  qed
  then show ?thesis by (simp add: ebpf_step_def)
qed

lemma call_moves:
  "(if sint w < 0 then pc - ucast (- w) else pc + ucast w) = (pc + of_int (sint w) :: 64 word)"
  for w :: "32 word"
proof (cases "sint w < 0")
  case True
  then show ?thesis unfolding ucast_eq uint_minus_neg [OF True] by simp
next
  case False
  have "uint (of_int (sint w) :: 32 word) = sint w"
    using False sint_less [of w] by (intro uint_of_int_small) simp_all
  with False show ?thesis by (simp add: ucast_eq)
qed

text \<open>
  C37: When an accepted program panics. At an instruction of an accepted program, in a state with its
  eleven registers, the interpreter panics exactly on a 32-bit division or remainder by a register that is
  not 0 but whose low half is, and on a memory access that runs over the end of the address space and
  passes the bounds check. It runs past the code, and reaches the panic behind the loop, after a
  conditional jump as the last instruction that is not taken, and after a call of a function of the
  program outside of the code: the verifier excludes neither.
\<close>

theorem accepted_step_panics_exactly:
  assumes c: "check (im_text im) = Inr ()" and lay: "layout_ok im" and reg: "length (eb_reg s) = 11"
    and lt: "unat (eb_pc s) < length (im_text im) div 8"
    and st: "insn_start (im_text im) (unat (eb_pc s))"
    and i: "get_insn (im_text im) (eb_pc s) = Some i" "decode_opcode (insn_opc i) = Some k"
  shows "(ebpf_step im s = Crash \<longleftrightarrow> traps im s i k \<and>
            (\<forall>a n. access_of im s i k = Some (a, n) \<longrightarrow>
               check_mem (im_mbuff im) (im_mem im) (im_stack im) a (of_nat n))) \<and>
         (k = Jmp cd x \<and> unat (eb_pc s) = length (im_text im) div 8 - 1 \<and>
          \<not> cond_holds cd (eb_reg s ! unat (insn_dst i))
              (case x of Imm \<Rightarrow> scast (insn_imm i) | Reg \<Rightarrow> eb_reg s ! unat (insn_src i)) \<longrightarrow>
            (\<exists>s'. ebpf_step im s = Next s' \<and> ebpf_step im s' = Leave)) \<and>
         (k = Call \<and> insn_src i \<noteq> 0 \<and> length (eb_frames s) < MAX_CALL_DEPTH \<and>
          \<not> (0 \<le> call_target (im_text im) (unat (eb_pc s)) \<and>
             nat (call_target (im_text im) (unat (eb_pc s))) < length (im_text im) div 8) \<longrightarrow>
            (\<exists>s'. ebpf_step im s = Next s' \<and> ebpf_step im s' = Leave))"
proof -
  let ?prog = "im_text im" let ?p = "unat (eb_pc s)" let ?s = "s\<lparr>eb_pc := eb_pc s + 1\<rparr>"
  have ia: "i = insn_at ?prog ?p" using accepted_insn [OF c lt] i(1) by simp
  have step: "ebpf_step im s = exec_insn im ?s i k" using step_at [OF c lt] i(2) ia by simp
  have pc: "eb_pc s = of_int (int ?p)" by simp
  have len: "length ?prog \<le> 8000000" by (rule check_parts(5) [OF c])
  have "insn_src i \<le> 10 \<and> insn_dst i \<le> 10 \<and> k \<notin> {StWXadd, StDwXadd, TailCall} \<and>
      (k \<in> {Le, Be} \<longrightarrow> insn_imm i \<in> {16, 32, 64}) \<and> (k = LdDwImm \<longrightarrow> check_load_dw ?prog ?p = Inr ())"
    by (rule accepted_start [OF c st lt]) (use i(2) ia in simp)
  then have ids: "insn_src i \<le> 10" "insn_dst i \<le> 10" and no: "k \<notin> {StWXadd, StDwXadd, TailCall}"
    and en: "k \<in> {Le, Be} \<Longrightarrow> insn_imm i \<in> {16, 32, 64}"
    and dw: "k = LdDwImm \<Longrightarrow> check_load_dw ?prog ?p = Inr ()" by simp_all
  have second: "get_insn ?prog (eb_pc ?s) \<noteq> None" if "k = LdDwImm"
    using dw [OF that] by (auto simp: check_load_dw_def add.commute split: option.splits)
  have same: "traps im ?s i k = traps im s i k" "access_of im ?s i k = access_of im s i k"
    by (simp_all add: traps_def access_of_def)
  have "check_mem (im_mbuff im) (im_mem im) (im_stack im) a (of_nat n)"
    if "exec_insn im ?s i k = Crash" "access_of im s i k = Some (a, n)" for a n
    using that reg ids by (cases k) (auto simp: access_of_def exec_defs checked_access_def Let_def
        word_le_nat_alt split: if_splits)
  then have 1: "ebpf_step im s = Crash \<longleftrightarrow> traps im s i k \<and>
      (\<forall>a n. access_of im s i k = Some (a, n) \<longrightarrow>
         check_mem (im_mbuff im) (im_mem im) (im_stack im) a (of_nat n))"
    using exec_crash [of im ?s i k] exec_traps [of im ?s i k] reg ids no en second lay
    by (auto simp: step same)
  have 2: "ebpf_step im t = Leave" if "eb_pc t = eb_pc s + 1" "?p = length ?prog div 8 - 1" for t
  proof (rule outside_leaves [OF c, of t "int ?p + 1"])
    show "eb_pc t = of_int (int ?p + 1)" using that(1) by simp
  qed (use that(2) len lt in auto)
  have 3: "ebpf_step im t = Leave"
    if "eb_pc t = eb_pc s + 1 + of_int (sint (insn_imm i))"
      "\<not> (0 \<le> call_target ?prog ?p \<and> nat (call_target ?prog ?p) < length ?prog div 8)" for t
  proof (rule outside_leaves [OF c, of t "int ?p + 1 + sint (insn_imm i)"])
    define q where "q = int ?p"
    have q: "0 \<le> q" "q < 1000000" unfolding q_def using lt len by linarith+
    show "- (2 ^ 60) \<le> int ?p + 1 + sint (insn_imm i)" "int ?p + 1 + sint (insn_imm i) < 2 ^ 60"
      unfolding q_def [symmetric] using q sint_less [of "insn_imm i"] sint_greater_eq [of "insn_imm i"]
      by simp_all
    show "eb_pc t = of_int (int ?p + 1 + sint (insn_imm i))" using that(1) by simp
  qed (use that(2) in \<open>simp add: call_target_def ia\<close>)
  have lt': "unat (insn_src i) < 11" "unat (insn_dst i) < 11" using ids by (simp_all add: word_le_nat_alt)
  show ?thesis
    using 1 2 3 step reg lt' by (auto simp: exec_defs call_moves split: operand.splits)
qed


definition divide_by_2_32 :: bytes where
  "divide_by_2_32 = assemble
     [ins LdDwImm 1 0 0 0, \<lparr>insn_opc = 0, insn_dst = 0, insn_src = 0, insn_off = 0, insn_imm = 1\<rparr>,
      ins (Alu32 AluDiv Reg) 0 1 0 0, ins Exit_op 0 0 0 0]"

lemma divide_by_2_32_accepted: "check divide_by_2_32 = Inr ()"
  by (simp add: divide_by_2_32_def check_simps del: opcode_byte.simps)

theorem accepted_step_panics_exactly_witness:
  "ebpf_step (image_of divide_by_2_32)
     ((ebpf_init (image_of divide_by_2_32))\<lparr>eb_pc := 2, eb_reg := replicate 11 (2 ^ 32)\<rparr>) = Crash"
  (is "ebpf_step ?im ?s = _")
proof -
  let ?i = "ins (Alu32 AluDiv Reg) 0 1 0 0"
  have c: "check (im_text ?im) = Inr ()" using divide_by_2_32_accepted by (simp add: image_of_fields)
  have at: "insn_at divide_by_2_32 2 = ?i" by (simp add: divide_by_2_32_def insn_at_assemble)
  then have st: "insn_start (im_text ?im) (unat (eb_pc ?s))"
    using c by (intro nonzero_is_start) (simp_all add: image_of_fields divide_by_2_32_def opcode_byte_nonzero
        del: opcode_byte.simps)
  have g: "get_insn (im_text ?im) (eb_pc ?s) = Some ?i"
    using accepted_insn [OF c, of 2] at by (simp add: image_of_fields divide_by_2_32_def)
  have d: "decode_opcode (insn_opc ?i) = Some (Alu32 AluDiv Reg)"
    by (simp add: decode_opcode_byte del: opcode_byte.simps)
  have lt: "unat (eb_pc ?s) < length (im_text ?im) div 8" and n: "length (eb_reg ?s) = 11"
    by (simp_all add: image_of_fields divide_by_2_32_def)
  have "traps ?im ?s ?i (Alu32 AluDiv Reg)" "access_of ?im ?s ?i (Alu32 AluDiv Reg) = None"
    by (simp_all add: traps_def access_of_def)
  with accepted_step_panics_exactly [OF c image_of_fields(3) n lt st g d] show ?thesis by simp
qed

end
