(* ===== verification/L1X_Fee.thy ===== *)
theory L1X_Fee
  imports L1X_Ledger
begin

text \<open>
  Fees and gas: the gas station and the fee manager of a transaction (\<^verbatim>\<open>fee/src/gas_station.rs\<close>,
  \<^verbatim>\<open>fee/src/fee_manager.rs\<close>), the fee table (\<^verbatim>\<open>fee/src/lib.rs\<close>) and the object \<^verbatim>\<open>ExecuteFee\<close> that
  looks fees up, charges, locks and unlocks them (\<^verbatim>\<open>execute/src/execute_fee.rs\<close>).

  \<^verbatim>\<open>Vec::len()\<close> is a 64-bit \<^verbatim>\<open>usize\<close>; \<^verbatim>\<open>as\<close> casts to a wider integer extend with zeros and to a
  narrower one truncate. The scoped worker threads in which \<^verbatim>\<open>ExecuteFee\<close> runs a token transfer
  are taken to start and not to panic.
\<close>

section \<open>Gas station\<close>

record gas_station =
  gs_gas_price :: balance

definition from_fixed_price :: "balance \<Rightarrow> balance \<Rightarrow> gas_station" where
  "from_fixed_price gas_price evm_gas_price = \<lparr>gs_gas_price = gas_price\<rparr>"

definition gas_max :: gas where
  "gas_max = - 1"

definition buy_gas :: "gas_station \<Rightarrow> balance \<Rightarrow> gas" where
  "buy_gas g b =
     (let bought = (case checked_mul b (gs_gas_price g) of Some x \<Rightarrow> x | None \<Rightarrow> ucast gas_max) in
      if unat bought < 2 ^ 64 then ucast bought else gas_max)"

definition sell_gas :: "gas_station \<Rightarrow> gas \<Rightarrow> balance" where
  "sell_gas g burnt =
     (if burnt = 0 then 0
      else ucast ((case checked_div burnt (ucast (gs_gas_price g)) of Some x \<Rightarrow> x | None \<Rightarrow> 0) + 1))"

section \<open>Fee manager\<close>

record fee_manager =
  fm_fee_limit :: balance
  fm_gas_used :: gas
  fm_left_limit :: balance
  fm_gas_station :: gas_station

type_synonym 'a fee_op = "(fee_manager, error, 'a) op"

definition fee_manager_new :: "balance \<Rightarrow> error + fee_manager" where
  "fee_manager_new limit = Inr
     \<lparr>fm_fee_limit = limit, fm_gas_used = 0, fm_left_limit = limit,
      fm_gas_station = from_fixed_price GAS_PRICE EVM_GAS_PRICE\<rparr>"

definition update_fee :: "balance \<Rightarrow> unit fee_op" where
  "update_fee fee = (\<lambda>m.
     case checked_sub (fm_left_limit m) fee of
       Some left_limit \<Rightarrow> (Inr (), m\<lparr>fm_left_limit := left_limit\<rparr>)
     | None \<Rightarrow> (Inl InsufficientFeeLimit, m\<lparr>fm_left_limit := 0\<rparr>))"

definition get_gas_limit :: "gas fee_op" where
  "get_gas_limit = gets (\<lambda>m. buy_gas (fm_gas_station m) (fm_left_limit m))"

definition add_gas_used :: "gas \<Rightarrow> gas \<Rightarrow> gas" where
  "add_gas_used used burnt = (case checked_add used burnt of Some x \<Rightarrow> x | None \<Rightarrow> gas_max)"

definition update_gas_and_fee_used :: "gas \<Rightarrow> unit fee_op" where
  "update_gas_and_fee_used burnt = (\<lambda>m.
     case checked_sub (fm_left_limit m) (sell_gas (fm_gas_station m) burnt) of
       Some left_limit \<Rightarrow>
         (Inr (), m\<lparr>fm_left_limit := left_limit,
                    fm_gas_used := add_gas_used (fm_gas_used m) burnt\<rparr>)
     | None \<Rightarrow>
         (Inl InsufficientFeeLimit,
          m\<lparr>fm_gas_used := add_gas_used (fm_gas_used m) burnt, fm_left_limit := 0\<rparr>))"

definition get_fee_used :: "fee_manager \<Rightarrow> balance" where
  "get_fee_used m = fm_fee_limit m - fm_left_limit m"

definition get_gas_used :: "fee_manager \<Rightarrow> gas" where
  "get_gas_used m = fm_gas_used m"

section \<open>The fee table\<close>

record contract_fee =
  cf_deployment :: balance
  cf_deployment_per_byte :: balance
  cf_init :: balance
  cf_init_per_byte :: balance
  cf_method_call :: balance
  cf_method_call_per_byte :: balance

record fee_config =
  fc_transaction :: balance
  fc_transaction_per_byte :: balance
  fc_token_transfer :: balance
  fc_create_staking_pool :: balance
  fc_stake :: balance
  fc_unstake :: balance
  fc_staking_pool_contract :: balance
  fc_l1xvm_contract :: contract_fee
  fc_l1xevm_contract :: contract_fee
  fc_xtalk_contract :: contract_fee
  fc_fee_recipient :: address

definition transaction_size_fee :: "fee_config \<Rightarrow> transaction \<Rightarrow> balance option" where
  "transaction_size_fee c tx =
     Option.bind
       (case tx_type tx of
          NativeTokenTransfer _ _ \<Rightarrow> Some 1
        | CreateStakingPool _ _ _ _ _ _ \<Rightarrow> Some 1
        | Stake _ _ \<Rightarrow> Some 1
        | UnStake _ _ \<Rightarrow> Some 1
        | StakingPoolContract _ _ \<Rightarrow> Some 1
        | SmartContractDeployment _ _ code _ salt \<Rightarrow> checked_add (usize_len code) (usize_len salt)
        | SmartContractInit _ args _ \<Rightarrow> Some (usize_len args)
        | SmartContractFunctionCall _ fn args _ \<Rightarrow>
            Some (case checked_add (usize_len fn) (usize_len args) of Some x \<Rightarrow> x | None \<Rightarrow> - 1))
       (\<lambda>size.
     Option.bind (checked_mul (fc_transaction_per_byte c) (ucast size)) (\<lambda>per_byte.
       checked_add (fc_transaction c) per_byte))"

fun fees_of_type :: "fee_config \<Rightarrow> contract_type \<Rightarrow> contract_fee" where
  "fees_of_type c EVM = fc_l1xevm_contract c"
| "fees_of_type c L1XVM = fc_l1xvm_contract c"
| "fees_of_type c XTALK = fc_xtalk_contract c"

definition sized_fee :: "balance \<Rightarrow> balance \<Rightarrow> 64 word \<Rightarrow> balance option" where
  "sized_fee per_byte base sz =
     Option.bind (checked_mul per_byte (ucast sz)) (\<lambda>x. checked_add x base)"

definition contract_fee_of :: "fee_config \<Rightarrow> transaction \<Rightarrow> contract_type \<Rightarrow> balance option" where
  "contract_fee_of c tx ct =
     (let f = fees_of_type c ct in
      case tx_type tx of
        SmartContractDeployment _ _ code _ _ \<Rightarrow>
          sized_fee (cf_deployment_per_byte f) (cf_deployment f) (usize_len code)
      | SmartContractInit _ args _ \<Rightarrow>
          sized_fee (cf_init_per_byte f) (cf_init f) (usize_len args)
      | SmartContractFunctionCall _ fn args _ \<Rightarrow>
          Option.bind (checked_add (usize_len fn) (usize_len args)) (\<lambda>size.
            sized_fee (cf_method_call_per_byte f) (cf_method_call f) size)
      | _ \<Rightarrow> None)"

definition default_contract_fee :: contract_fee where
  "default_contract_fee =
     \<lparr>cf_deployment = 1, cf_deployment_per_byte = 0, cf_init = 1, cf_init_per_byte = 0,
      cf_method_call = 1, cf_method_call_per_byte = 0\<rparr>"

definition fee_config_config :: "address \<Rightarrow> fee_config" where
  "fee_config_config recipient =
     \<lparr>fc_transaction = 1, fc_transaction_per_byte = 1, fc_token_transfer = 1,
      fc_create_staking_pool = 1, fc_stake = 1, fc_unstake = 1, fc_staking_pool_contract = 1,
      fc_l1xvm_contract = default_contract_fee, fc_l1xevm_contract = default_contract_fee,
      fc_xtalk_contract = default_contract_fee, fc_fee_recipient = recipient\<rparr>"

section \<open>ExecuteFee\<close>

record system_fee_config =
  sfc_evm_gas_price :: balance
  sfc_gas_price :: balance
  sfc_fee_recipient_address :: address

definition system_fee_config_new :: system_fee_config where
  "system_fee_config_new =
     \<lparr>sfc_evm_gas_price = EVM_GAS_PRICE, sfc_gas_price = GAS_PRICE,
      sfc_fee_recipient_address = FEE_RECIPIENT_MASTER_ADDRESS\<rparr>"

definition gas_station_from_system_config :: gas_station where
  "gas_station_from_system_config =
     from_fixed_price (sfc_gas_price system_fee_config_new) (sfc_evm_gas_price system_fee_config_new)"

record execute_fee =
  ef_transaction :: transaction
  ef_locked_fee_limit :: balance
  ef_available_fee_limit :: balance
  ef_fee_config :: fee_config
  ef_gas_station :: gas_station

text \<open>The methods that also take the \<^verbatim>\<open>UpdatedState\<close> work on the pair of the two.\<close>

type_synonym 'a charge_op = "(execute_fee \<times> updated_state, error, 'a) op"

definition execute_fee_new :: "transaction \<Rightarrow> system_fee_config \<Rightarrow> execute_fee" where
  "execute_fee_new tx cfg =
     \<lparr>ef_transaction = tx, ef_locked_fee_limit = 0, ef_available_fee_limit = tx_fee_limit tx,
      ef_fee_config = fee_config_config (sfc_fee_recipient_address cfg),
      ef_gas_station = from_fixed_price (sfc_gas_price cfg) (sfc_evm_gas_price cfg)\<rparr>"

definition sub_available_limit :: "balance \<Rightarrow> unit charge_op" where
  "sub_available_limit amount = (\<lambda>(ef, s).
     case checked_sub (ef_available_fee_limit ef) amount of
       None \<Rightarrow> (Inl FeeLimitReached, (ef, s))
     | Some x \<Rightarrow> (Inr (), (ef\<lparr>ef_available_fee_limit := x\<rparr>, s)))"

definition sub_locked_limit :: "balance \<Rightarrow> unit charge_op" where
  "sub_locked_limit amount = (\<lambda>(ef, s).
     case checked_sub (ef_locked_fee_limit ef) amount of
       None \<Rightarrow> (Inl LockedFeeOverflow, (ef, s))
     | Some x \<Rightarrow> (Inr (), (ef\<lparr>ef_locked_fee_limit := x\<rparr>, s)))"

definition just_transfer_tokens :: "address \<Rightarrow> address \<Rightarrow> balance \<Rightarrow> unit state_op" where
  "just_transfer_tokens from_a to_a amount = transfer from_a to_a amount"

text \<open>
  The transfer inside a worker: \<open>Inr\<close> of the closure's own result, which the callers unwrap.
\<close>

definition scoped_transfer ::
  "string \<Rightarrow> address \<Rightarrow> address \<Rightarrow> balance \<Rightarrow> (execute_fee \<times> updated_state, error, error + unit) op" where
  "scoped_transfer msg from_a to_a amount = (\<lambda>(ef, s).
     case just_transfer_tokens from_a to_a amount s of
       (Inl e, s') \<Rightarrow> (Inr (Inl (FailedWith msg e)), (ef, s'))
     | (Inr u, s') \<Rightarrow> (Inr (Inr ()), (ef, s')))"

definition recipient_of :: "(execute_fee \<times> updated_state) \<Rightarrow> address" where
  "recipient_of = (\<lambda>(ef, s). fc_fee_recipient (ef_fee_config ef))"

definition charge_fee :: "address \<Rightarrow> balance \<Rightarrow> balance charge_op" where
  "charge_fee account fee_amount =
     (if fee_amount = 0 then ok fee_amount
      else and_then (sub_available_limit fee_amount) (\<lambda>_.
        and_then (gets recipient_of) (\<lambda>recipient.
        and_then (scoped_transfer ''Can't charge Transaction Fee'' account recipient fee_amount)
          (\<lambda>_. ok fee_amount))))"

definition lock_within_limit :: "balance \<Rightarrow> address \<Rightarrow> unit charge_op" where
  "lock_within_limit amount account =
     (if amount = 0 then ok ()
      else and_then (sub_available_limit amount) (\<lambda>_.
        and_then (modify (\<lambda>(ef, s).
          (ef\<lparr>ef_locked_fee_limit := ef_locked_fee_limit ef + amount\<rparr>, s))) (\<lambda>_.
        and_then (gets recipient_of) (\<lambda>recipient.
        and_then (scoped_transfer ''Can't lock Fee Limit'' account recipient amount)
          (\<lambda>r. case r of Inl e \<Rightarrow> fail e | Inr _ \<Rightarrow> ok ())))))"

definition unlock_limit :: "balance \<Rightarrow> address \<Rightarrow> unit charge_op" where
  "unlock_limit amount account =
     (if amount = 0 then ok ()
      else and_then (sub_locked_limit amount) (\<lambda>_.
        and_then (modify (\<lambda>(ef, s).
          (ef\<lparr>ef_available_fee_limit := ef_available_fee_limit ef + amount\<rparr>, s))) (\<lambda>_.
        and_then (gets recipient_of) (\<lambda>recipient.
        and_then (scoped_transfer ''Can't unlock Fee Limit'' recipient account amount)
          (\<lambda>r. case r of Inl e \<Rightarrow> fail e | Inr _ \<Rightarrow> ok ())))))"

definition prepay_gas_and_lock :: "address \<Rightarrow> gas charge_op" where
  "prepay_gas_and_lock account =
     and_then (gets (\<lambda>(ef, s). ef_available_fee_limit ef)) (\<lambda>available.
     and_then (lock_within_limit available account) (\<lambda>_.
       gets (\<lambda>(ef, s). buy_gas (ef_gas_station ef) (ef_locked_fee_limit ef))))"

definition sell_gas_and_unlock :: "gas \<Rightarrow> address \<Rightarrow> balance charge_op" where
  "sell_gas_and_unlock burnt account =
     and_then (gets (\<lambda>(ef, s). ef_locked_fee_limit ef)) (\<lambda>locked.
     and_then (unlock_limit locked account) (\<lambda>_.
     and_then (gets (\<lambda>(ef, s). sell_gas (ef_gas_station ef) burnt)) (\<lambda>fee_amount.
       charge_fee account fee_amount)))"

definition convert_from_gas_to_fee :: "execute_fee \<Rightarrow> gas \<Rightarrow> balance" where
  "convert_from_gas_to_fee ef burnt = sell_gas (ef_gas_station ef) burnt"

definition charge_transaction_size_fee :: "address \<Rightarrow> balance charge_op" where
  "charge_transaction_size_fee account =
     and_then (gets (\<lambda>(ef, s). transaction_size_fee (ef_fee_config ef) (ef_transaction ef))) (\<lambda>r.
       case r of Some fee_amount \<Rightarrow> charge_fee account fee_amount | None \<Rightarrow> fail FeeOverflow)"

definition get_transaction_size_fee :: "execute_fee \<Rightarrow> error + balance" where
  "get_transaction_size_fee ef =
     (case transaction_size_fee (ef_fee_config ef) (ef_transaction ef) of
        Some fee \<Rightarrow> Inr fee
      | None \<Rightarrow> Inl (Failed ''Can't get transaction size fee''))"

definition get_token_transfer_fee :: "execute_fee \<Rightarrow> balance" where
  "get_token_transfer_fee ef = fc_token_transfer (ef_fee_config ef)"

definition get_token_transfer_tx_total_fee :: "execute_fee \<Rightarrow> error + balance" where
  "get_token_transfer_tx_total_fee ef =
     (case get_transaction_size_fee ef of
        Inl e \<Rightarrow> Inl e
      | Inr fee \<Rightarrow> Inr (fc_token_transfer (ef_fee_config ef) + fee))"

definition charge_token_transfer_fee :: "address \<Rightarrow> balance charge_op" where
  "charge_token_transfer_fee account =
     and_then (gets (\<lambda>(ef, s). fc_token_transfer (ef_fee_config ef))) (charge_fee account)"

definition charge_create_staking_pool_fee :: "address \<Rightarrow> balance charge_op" where
  "charge_create_staking_pool_fee account =
     and_then (gets (\<lambda>(ef, s). fc_create_staking_pool (ef_fee_config ef))) (charge_fee account)"

definition get_create_staking_pool_fee :: "execute_fee \<Rightarrow> balance" where
  "get_create_staking_pool_fee ef = fc_create_staking_pool (ef_fee_config ef)"

definition charge_stake_fee :: "address \<Rightarrow> balance charge_op" where
  "charge_stake_fee account =
     and_then (gets (\<lambda>(ef, s). fc_stake (ef_fee_config ef))) (charge_fee account)"

definition get_stake_fee :: "execute_fee \<Rightarrow> balance" where
  "get_stake_fee ef = fc_stake (ef_fee_config ef)"

definition charge_unstake_fee :: "address \<Rightarrow> balance charge_op" where
  "charge_unstake_fee account =
     and_then (gets (\<lambda>(ef, s). fc_unstake (ef_fee_config ef))) (charge_fee account)"

definition get_unstake_fee :: "execute_fee \<Rightarrow> balance" where
  "get_unstake_fee ef = fc_unstake (ef_fee_config ef)"

definition charge_staking_pool_contract_fee :: "address \<Rightarrow> balance charge_op" where
  "charge_staking_pool_contract_fee account =
     and_then (gets (\<lambda>(ef, s). fc_staking_pool_contract (ef_fee_config ef))) (charge_fee account)"

definition get_staking_pool_contract_fee :: "execute_fee \<Rightarrow> balance" where
  "get_staking_pool_contract_fee ef = fc_staking_pool_contract (ef_fee_config ef)"

definition charge_contract_fee :: "contract_type \<Rightarrow> address \<Rightarrow> balance charge_op" where
  "charge_contract_fee ct account =
     and_then (gets (\<lambda>(ef, s). contract_fee_of (ef_fee_config ef) (ef_transaction ef) ct)) (\<lambda>r.
       case r of Some fee_amount \<Rightarrow> charge_fee account fee_amount | None \<Rightarrow> fail FeeOverflow)"

definition get_contract_fee :: "execute_fee \<Rightarrow> contract_type \<Rightarrow> error + balance" where
  "get_contract_fee ef ct =
     (case contract_fee_of (ef_fee_config ef) (ef_transaction ef) ct of
        Some fee \<Rightarrow> Inr fee
      | None \<Rightarrow> Inl (Failed ''Can't get contract fee''))"

section \<open>Arithmetic of the gas station\<close>

lemma unat_ucast_narrow:
  fixes x :: "128 word"
  assumes "unat x < 2 ^ 64"
  shows "unat (ucast x :: 64 word) = unat x"
  using assms by (simp add: unsigned_ucast_eq take_bit_nat_eq_self)

lemma unat_ucast_wide [simp]: "unat (ucast (x :: 64 word) :: 128 word) = unat x"
  using unat_bounded [of x] by (simp add: unsigned_ucast_eq take_bit_nat_eq_self)

lemma unat_gas_max [simp]: "unat gas_max = 2 ^ 64 - 1"
  by (simp add: gas_max_def unsigned_minus_1_eq_mask mask_eq_exp_minus_1)

lemma unat_buy_gas:
  "unat (buy_gas g b) = min (2 ^ 64 - 1) (unat b * unat (gs_gas_price g))"
proof (cases "checked_mul b (gs_gas_price g)")
  case None
  then have "2 ^ 128 \<le> unat b * unat (gs_gas_price g)" by (simp add: checked_simps)
  with None show ?thesis
    using unat_ucast_narrow [of "ucast gas_max"] by (simp add: buy_gas_def)
next
  case (Some x)
  then have "unat x = unat b * unat (gs_gas_price g)" by (simp add: checked_simps)
  with Some show ?thesis
    by (auto simp: buy_gas_def Let_def unat_ucast_narrow min_def)
qed

lemma unat_sell_gas:
  assumes "1 < unat (gs_gas_price g)" and "unat (gs_gas_price g) < 2 ^ 64" and "burnt \<noteq> 0"
  shows "unat (sell_gas g burnt) = unat burnt div unat (gs_gas_price g) + 1"
proof -
  let ?p = "ucast (gs_gas_price g) :: 64 word"
  have p: "unat ?p = unat (gs_gas_price g)" using assms(2) by (rule unat_ucast_narrow)
  then have "?p \<noteq> 0" using assms(1) by auto
  moreover have "unat (burnt div ?p) = unat burnt div unat (gs_gas_price g)"
    by (simp add: unat_div p)
  moreover have "unat burnt div unat (gs_gas_price g) + 1 < 2 ^ 64"
  proof -
    have "unat burnt div unat (gs_gas_price g) \<le> unat burnt div 2"
      using assms(1) by (intro div_le_mono2) auto
    then show ?thesis using unat_bounded [of burnt] by simp
  qed
  ultimately show ?thesis
    using assms(3) by (simp add: sell_gas_def checked_div_def unat_word_ariths)
qed

section \<open>The fee manager\<close>

text \<open>
  What every call to the fee manager does to it: the limit and the price stay, the rest of the
  limit only shrinks, the gas used only grows.
\<close>

definition fm_le :: "fee_manager \<Rightarrow> fee_manager \<Rightarrow> bool" where
  "fm_le m m' \<longleftrightarrow>
     fm_fee_limit m' = fm_fee_limit m \<and> fm_gas_station m' = fm_gas_station m \<and>
     unat (fm_left_limit m') \<le> unat (fm_left_limit m) \<and>
     unat (fm_gas_used m) \<le> unat (fm_gas_used m')"

definition fm_ok :: "fee_manager \<Rightarrow> bool" where
  "fm_ok m \<longleftrightarrow> unat (fm_left_limit m) \<le> unat (fm_fee_limit m)"

interpretation fml: frame fm_le
  by unfold_locales (auto simp: fm_le_def)

lemma unat_add_gas_used: "unat (add_gas_used used burnt) = min (2 ^ 64 - 1) (unat used + unat burnt)"
  by (simp add: add_gas_used_def checked_add_def unat_word_ariths min_def)

lemma keeps_fee [simp]:
  "keeps fm_le (update_fee fee)"
  "keeps fm_le (update_gas_and_fee_used burnt)"
  "keeps fm_le get_gas_limit"
proof -
  have "unat used \<le> unat (add_gas_used used burnt)" for used :: gas
    using unat_bounded [of used] by (simp add: unat_add_gas_used)
  then show "keeps fm_le (update_fee fee)" "keeps fm_le (update_gas_and_fee_used burnt)"
    by (auto simp: keeps_def fm_le_def update_fee_def update_gas_and_fee_used_def checked_simps
        split: option.splits)
qed (simp add: get_gas_limit_def fml.keeps_gets)

lemma fm_ok_le: "fm_ok m \<Longrightarrow> fm_le m m' \<Longrightarrow> fm_ok m'"
  by (simp add: fm_ok_def fm_le_def)

lemma unat_get_fee_used:
  "fm_ok m \<Longrightarrow> unat (get_fee_used m) = unat (fm_fee_limit m) - unat (fm_left_limit m)"
  by (simp add: get_fee_used_def fm_ok_def unat_sub word_le_nat_alt)

lemma fm_ok_new: "fee_manager_new limit = Inr m \<Longrightarrow> fm_ok m \<and> fm_fee_limit m = limit"
  by (auto simp: fee_manager_new_def fm_ok_def)

text \<open>A history of charges: fixed fees and burnt gas.\<close>

datatype fee_step = Fee balance | Burn gas

fun charge_step :: "fee_step \<Rightarrow> unit fee_op" where
  "charge_step (Fee fee) = update_fee fee"
| "charge_step (Burn burnt) = update_gas_and_fee_used burnt"

fun step_cost :: "gas_station \<Rightarrow> fee_step \<Rightarrow> nat" where
  "step_cost g (Fee fee) = unat fee"
| "step_cost g (Burn burnt) = unat (sell_gas g burnt)"

definition charge_all :: "fee_step list \<Rightarrow> fee_manager \<Rightarrow> fee_manager" where
  "charge_all steps m = fold (\<lambda>c m. snd (charge_step c m)) steps m"

lemma charge_step_run:
  assumes "charge_step c m = (r, m')"
  shows "unat (fm_left_limit m') = unat (fm_left_limit m) - step_cost (fm_gas_station m) c"
    and "(r = Inr ()) \<longleftrightarrow> step_cost (fm_gas_station m) c \<le> unat (fm_left_limit m)"
    and "fm_gas_station m' = fm_gas_station m" and "fm_fee_limit m' = fm_fee_limit m"
  using assms
  by (cases c; auto simp: update_fee_def update_gas_and_fee_used_def checked_simps
      split: option.splits)+

lemma charge_all_run:
  "unat (fm_left_limit (charge_all steps m)) =
     unat (fm_left_limit m) - sum_list (map (step_cost (fm_gas_station m)) steps) \<and>
   fm_fee_limit (charge_all steps m) = fm_fee_limit m"
proof (induction steps arbitrary: m)
  case (Cons c steps)
  obtain r m' where run: "charge_step c m = (r, m')" by fastforce
  then have "charge_all (c # steps) m = charge_all steps m'" by (simp add: charge_all_def)
  then show ?case using Cons.IH [of m'] charge_step_run [OF run] by simp
qed (simp add: charge_all_def)

text \<open>
  A fee manager charges exactly what its calls cost and never more than the limit: after any
  history of fixed fees and burnt gas, failed calls included, the fee used is the smaller of the
  limit and the sum of the costs.
\<close>

theorem fee_used_is_capped_cost:
  "\<exists>m. fee_manager_new limit = Inr m \<and>
     unat (get_fee_used (charge_all steps m)) =
       min (unat limit) (\<Sum>c\<leftarrow>steps. step_cost (fm_gas_station m) c)"
proof -
  obtain m where m: "fee_manager_new limit = Inr m" "fm_left_limit m = limit" "fm_fee_limit m = limit"
    by (simp add: fee_manager_new_def)
  have "fm_ok (charge_all steps m)"
    using charge_all_run [where m = m and steps = steps] m by (simp add: fm_ok_def)
  from unat_get_fee_used [OF this] show ?thesis
    using m charge_all_run [where m = m and steps = steps] by auto
qed

lemma sold_gas_within_bought_parts:
  assumes "m = \<lparr>fm_fee_limit = limit, fm_gas_used = used, fm_left_limit = left,
                fm_gas_station = from_fixed_price GAS_PRICE EVM_GAS_PRICE\<rparr>"
    and "get_gas_limit m = (Inr bought, m)"
  shows "burnt < bought \<Longrightarrow> fst (update_gas_and_fee_used burnt m) = Inr ()"
    and "0 < bought \<Longrightarrow> unat left * 7000 < 2 ^ 64 \<Longrightarrow>
           fst (update_gas_and_fee_used bought m) = Inl InsufficientFeeLimit"
    and "0 < bought \<Longrightarrow> 2 ^ 64 \<le> unat left * 7000 \<Longrightarrow>
           fst (update_gas_and_fee_used bought m) = Inr ()"
proof -
  let ?g = "from_fixed_price GAS_PRICE EVM_GAS_PRICE"
  have p: "unat (gs_gas_price ?g) = 7000" by (simp add: from_fixed_price_def GAS_PRICE_def)
  have b: "unat bought = min (2 ^ 64 - 1) (unat left * 7000)"
    using assms unat_buy_gas [of ?g left] p by (simp add: get_gas_limit_def gets_def)
  have cost: "x \<noteq> 0 \<Longrightarrow> unat (sell_gas ?g x) = unat x div 7000 + 1" for x
    using unat_sell_gas [of ?g x] p by simp
  have run: "fst (update_gas_and_fee_used x m) =
      (if unat (sell_gas ?g x) \<le> unat left then Inr () else Inl InsufficientFeeLimit)" for x
    using assms(1)
    by (auto simp: update_gas_and_fee_used_def checked_simps split: option.splits)
  show "fst (update_gas_and_fee_used burnt m) = Inr ()" if "burnt < bought"
  proof (cases "burnt = 0")
    case False
    have "unat burnt < unat left * 7000" using that b by (simp add: word_less_nat_alt)
    then have "unat burnt div 7000 < unat left" by (simp add: less_mult_imp_div_less)
    then show ?thesis using run cost [OF False] by simp
  qed (simp add: run sell_gas_def)
  show "fst (update_gas_and_fee_used bought m) = Inl InsufficientFeeLimit"
    if "0 < bought" "unat left * 7000 < 2 ^ 64"
    using that b cost [of bought] run [of bought] by simp
  show "fst (update_gas_and_fee_used bought m) = Inr ()"
    if "0 < bought" "2 ^ 64 \<le> unat left * 7000"
    using that b cost [of bought] run [of bought] by simp
qed

text \<open>
  Gas bought and burnt. With the price of the node, a contract that burns less than the gas
  limit bought with a balance is charged at most that balance; one that burns exactly the limit is
  charged one unit more than the balance, which the fee manager refuses, unless the limit was
  capped at the largest gas amount.
\<close>

theorem sold_gas_within_bought:
  assumes "m = \<lparr>fm_fee_limit = limit, fm_gas_used = used, fm_left_limit = left,
                fm_gas_station = from_fixed_price GAS_PRICE EVM_GAS_PRICE\<rparr>"
    and "get_gas_limit m = (Inr bought, m)"
  shows "(burnt < bought \<longrightarrow> fst (update_gas_and_fee_used burnt m) = Inr ()) \<and>
         (0 < bought \<longrightarrow>
            fst (update_gas_and_fee_used bought m) =
              (if unat left * 7000 < 2 ^ 64 then Inl InsufficientFeeLimit else Inr ()))"
  using sold_gas_within_bought_parts [OF assms] by (simp add: not_less)


theorem sold_gas_within_bought_witness:
  "fst (update_gas_and_fee_used 6999 \<lparr>fm_fee_limit = 3, fm_gas_used = 0, fm_left_limit = 1,
          fm_gas_station = from_fixed_price GAS_PRICE EVM_GAS_PRICE\<rparr>) = Inr () \<and>
   fst (update_gas_and_fee_used 7000 \<lparr>fm_fee_limit = 3, fm_gas_used = 0, fm_left_limit = 1,
          fm_gas_station = from_fixed_price GAS_PRICE EVM_GAS_PRICE\<rparr>) = Inl InsufficientFeeLimit"
proof -
  let ?m = "\<lparr>fm_fee_limit = 3, fm_gas_used = 0, fm_left_limit = 1,
             fm_gas_station = from_fixed_price GAS_PRICE EVM_GAS_PRICE\<rparr>"
  have "get_gas_limit ?m = (Inr 7000, ?m)"
    by (simp add: get_gas_limit_def gets_def buy_gas_def from_fixed_price_def GAS_PRICE_def
        checked_mul_def)
  from sold_gas_within_bought [OF refl this, of 6999] show ?thesis by simp
qed

section \<open>Charging through ExecuteFee\<close>

lemma scoped_transfer_run:
  assumes "wf_ledger (ledger_of s)"
  obtains s' where "scoped_transfer msg a b n (ef, s) =
      (Inr (case fst (transfer_spec a b n (ledger_of s)) of
              Inl e \<Rightarrow> Inl (FailedWith msg e) | Inr _ \<Rightarrow> Inr ()), (ef, s'))"
    and "ledger_of s' = snd (transfer_spec a b n (ledger_of s))"
proof -
  obtain r s' where run: "transfer a b n s = (r, s')" by fastforce
  from transfer_run [OF assms run] run show ?thesis
    by (intro that [of s'])
      (simp_all add: scoped_transfer_def just_transfer_tokens_def split: sum.splits)
qed

lemma sub_available_run:
  "fee \<le> ef_available_fee_limit ef \<Longrightarrow>
     sub_available_limit fee (ef, s) =
       (Inr (), (ef\<lparr>ef_available_fee_limit := ef_available_fee_limit ef - fee\<rparr>, s))"
  by (simp add: sub_available_limit_def checked_sub_def word_le_nat_alt)

lemma charge_fee_hides_failed_transfer_parts:
  assumes wf: "wf_ledger (ledger_of s)"
    and fee: "fee \<noteq> 0" "fee \<le> ef_available_fee_limit ef"
    and failed: "fst (transfer_spec account (fc_fee_recipient (ef_fee_config ef)) fee
                   (ledger_of s)) = Inl e"
  shows "\<exists>s'. charge_fee account fee (ef, s) =
            (Inr fee, (ef\<lparr>ef_available_fee_limit := ef_available_fee_limit ef - fee\<rparr>, s')) \<and>
          ledger_of s' = ledger_of s"
    and "fst (lock_within_limit fee account (ef, s)) =
           Inl (FailedWith ''Can't lock Fee Limit'' e)"
proof -
  let ?r = "fc_fee_recipient (ef_fee_config ef)"
  have same: "snd (transfer_spec account ?r fee (ledger_of s)) = ledger_of s"
    using failed transfer_spec_error by (metis prod.collapse)
  note run = and_then_def gets_def modify_def recipient_of_def sub_available_run [OF fee(2)] fee(1)
  show "\<exists>s'. charge_fee account fee (ef, s) =
            (Inr fee, (ef\<lparr>ef_available_fee_limit := ef_available_fee_limit ef - fee\<rparr>, s')) \<and>
          ledger_of s' = ledger_of s"
    by (rule scoped_transfer_run [OF wf, of "''Can't charge Transaction Fee''" account ?r fee
          "ef\<lparr>ef_available_fee_limit := ef_available_fee_limit ef - fee\<rparr>"])
      (simp add: charge_fee_def run same ok_def)
  show "fst (lock_within_limit fee account (ef, s)) = Inl (FailedWith ''Can't lock Fee Limit'' e)"
    by (rule scoped_transfer_run [OF wf, of "''Can't lock Fee Limit''" account ?r fee
          "ef\<lparr>ef_available_fee_limit := ef_available_fee_limit ef - fee,
              ef_locked_fee_limit := ef_locked_fee_limit ef + fee\<rparr>"])
      (simp add: lock_within_limit_def run failed fail_def)
qed

text \<open>
  \<^verbatim>\<open>ExecuteFee::charge_fee\<close> reports success when the token transfer of the fee failed: it takes
  the fee from the available limit, leaves every balance as it was, and returns the amount as
  charged. \<^verbatim>\<open>lock_within_limit\<close>, in the same situation, returns the error of the transfer.
\<close>

theorem charge_fee_hides_failed_transfer:
  assumes "wf_ledger (ledger_of s)" and "fee \<noteq> 0" and "fee \<le> ef_available_fee_limit ef"
    and "fst (transfer_spec account (fc_fee_recipient (ef_fee_config ef)) fee (ledger_of s)) = Inl e"
  shows "(\<exists>s'. charge_fee account fee (ef, s) =
            (Inr fee, (ef\<lparr>ef_available_fee_limit := ef_available_fee_limit ef - fee\<rparr>, s')) \<and>
          ledger_of s' = ledger_of s) \<and>
         fst (lock_within_limit fee account (ef, s)) = Inl (FailedWith ''Can't lock Fee Limit'' e)"
  using charge_fee_hides_failed_transfer_parts [OF assms] by simp

definition demo_transfer :: transaction where
  "demo_transfer =
     \<lparr>tx_version = V3, tx_nonce = 0, tx_type = NativeTokenTransfer 1 50, tx_fee_limit = 40,
      tx_signature = [], tx_verifying_key = [], tx_eth_original = None\<rparr>"

theorem charge_fee_hides_failed_transfer_witness:
  "fst (charge_fee 2 6 (execute_fee_new demo_transfer system_fee_config_new, demo_state)) = Inr 6 \<and>
   balance_at (ledger_of demo_state) 2 = 5"
proof -
  let ?ef = "execute_fee_new demo_transfer system_fee_config_new"
  have "fst (transfer_spec 2 (fc_fee_recipient (ef_fee_config ?ef)) 6 (ledger_of demo_state)) =
          Inl (TransferInsufficient 2 5 6)"
    by (simp add: transfer_spec_def demo_ledger demo_db_def)
  from charge_fee_hides_failed_transfer(1) [OF demo_wf _ _ this]
  have "fst (charge_fee 2 6 (?ef, demo_state)) = Inr 6"
    by (fastforce simp: execute_fee_new_def demo_transfer_def)
  then show ?thesis by (simp add: balance_at_def demo_ledger demo_db_def)
qed

definition fee_budget :: "execute_fee \<Rightarrow> nat" where
  "fee_budget ef = unat (ef_available_fee_limit ef) + unat (ef_locked_fee_limit ef)"

declare op_runs [simp]

lemma scoped_transfer_fee [simp]:
  "fst (snd (and_then (scoped_transfer msg a b n) (case_sum fail ok) st)) = fst st"
proof -
  have "fst (snd (scoped_transfer msg a b n st)) = fst st"
    by (cases st) (simp add: scoped_transfer_def split: prod.splits sum.splits)
  then show ?thesis
    by (auto simp: and_then_def fail_def split: prod.splits sum.splits)
qed

lemma and_then_sub_available:
  "and_then (sub_available_limit n) k (ef, s) =
     (if unat n \<le> unat (ef_available_fee_limit ef)
      then k () (ef\<lparr>ef_available_fee_limit := ef_available_fee_limit ef - n\<rparr>, s)
      else (Inl FeeLimitReached, (ef, s)))"
  by (simp add: and_then_def sub_available_limit_def checked_sub_def)

lemma and_then_sub_locked:
  "and_then (sub_locked_limit n) k (ef, s) =
     (if unat n \<le> unat (ef_locked_fee_limit ef)
      then k () (ef\<lparr>ef_locked_fee_limit := ef_locked_fee_limit ef - n\<rparr>, s)
      else (Inl LockedFeeOverflow, (ef, s)))"
  by (simp add: and_then_def sub_locked_limit_def checked_sub_def)

lemma word_move:
  fixes a b n :: "'a::len word"
  assumes "unat n \<le> unat a" and "unat a + unat b < 2 ^ LENGTH('a)"
  shows "unat (a - n) + unat (b + n) = unat a + unat b"
  using assms by (simp add: unat_word_ariths unat_sub word_le_nat_alt)

lemma lock_and_unlock_keep_the_budget_parts:
  assumes "fee_budget ef < 2 ^ 128"
  shows "fee_budget (fst (snd (lock_within_limit n account (ef, s)))) = fee_budget ef"
    and "fee_budget (fst (snd (unlock_limit n account (ef, s)))) = fee_budget ef"
proof -
  have len: "unat (ef_available_fee_limit ef) + unat (ef_locked_fee_limit ef) < 2 ^ LENGTH(128)"
    using assms by (simp add: fee_budget_def)
  then have len': "unat (ef_locked_fee_limit ef) + unat (ef_available_fee_limit ef) < 2 ^ LENGTH(128)"
    by simp
  show "fee_budget (fst (snd (lock_within_limit n account (ef, s)))) = fee_budget ef"
    using word_move [OF _ len, of n]
    by (simp add: lock_within_limit_def and_then_sub_available fee_budget_def)
  show "fee_budget (fst (snd (unlock_limit n account (ef, s)))) = fee_budget ef"
    using word_move [OF _ len', of n]
    by (simp add: unlock_limit_def and_then_sub_locked fee_budget_def add.commute)
qed

text \<open>
  Locking and unlocking move the fee limit between its two halves: as long as the halves fit
  into 128 bits, their sum is the same after a lock and after an unlock, also when the token
  transfer behind it failed, and neither half wraps around.
\<close>

theorem lock_and_unlock_keep_the_budget:
  assumes "fee_budget ef < 2 ^ 128"
  shows "fee_budget (fst (snd (lock_within_limit n account (ef, s)))) = fee_budget ef \<and>
         fee_budget (fst (snd (unlock_limit n account (ef, s)))) = fee_budget ef"
  using lock_and_unlock_keep_the_budget_parts [OF assms] by simp

theorem lock_and_unlock_keep_the_budget_witness:
  "fee_budget (fst (snd (lock_within_limit 10 1
      (execute_fee_new demo_transfer system_fee_config_new, demo_state)))) = 40"
  using lock_and_unlock_keep_the_budget [of "execute_fee_new demo_transfer system_fee_config_new"
      10 1 demo_state]
  by (simp add: fee_budget_def execute_fee_new_def demo_transfer_def)

end
