(* ===== verification/L1X_Contracts.thy ===== *)
theory L1X_Contracts
  imports L1X_Ebpf L1X_Fee L1X_Storage
begin

text \<open>
  Contract execution (\<^verbatim>\<open>execute/src/execute_contract_l1xvm.rs\<close>, \<^verbatim>\<open>execute_contract_evm.rs\<close>,
  \<^verbatim>\<open>execute_contract_xtalk.rs\<close>, \<^verbatim>\<open>execute_common.rs\<close>, \<^verbatim>\<open>execute_read_only_call.rs\<close>) and the
  \<^verbatim>\<open>ContractInstanceManager\<close> through which both virtual machines reach the state and each other
  (\<^verbatim>\<open>contract_instance_manager/src\<close>).

  The eBPF programs are those of \<^verbatim>\<open>L1X_Ebpf\<close>; an EVM program is the tree of its calls of the trait
  \<^verbatim>\<open>Handler\<close> (\<open>evm_prog\<close>), which ends with the exit reason, the return value and the gas the gasometer
  reports. Reading an eBPF object file is the parameter \<open>ch_elf\<close>: the version it declares, the
  relocated image of the called function and the shared memory, each of which may be missing. EVM
  code is loaded by the parameter \<open>ch_evm\<close>. A cross-contract call runs one level deeper; the levels are
  the recursion \<open>levels\<close> on a bound that is one more than the deepest call the code admits.

  A function call has no error result in the code: an \<open>Inl\<close> of the models below is a panic, which
  unwinds through every caller.
\<close>

section \<open>Exit values, contexts, programs\<close>

datatype exit_succeed = Stopped | Returned | Suicided

datatype exit_reason = Succeed exit_succeed | ExitErr error | ExitRevert | ExitFatal error

datatype capture = Exit exit_reason bytes | Trap

fun is_succeed :: "exit_reason \<Rightarrow> bool" where
  "is_succeed (Succeed _) = True"
| "is_succeed (ExitErr _) = False"
| "is_succeed ExitRevert = False"
| "is_succeed (ExitFatal _) = False"

record evm_context =
  cx_address :: address
  cx_caller :: address
  cx_apparent_value :: "256 word"

datatype create_scheme =
    Legacy address
  | Create2 address "256 word" "256 word"
      \<comment> \<open>caller, code hash, salt\<close>
  | FixedAddress address

record evm_transfer =
  et_source :: address
  et_target :: address
  et_value :: "256 word"

text \<open>The calls of the trait \<^verbatim>\<open>Handler\<close>, and their answers.\<close>

datatype evm_query =
    HBalance address
  | HCodeSize address
  | HCodeHash address
  | HCode address
  | HStorage address "256 word"
  | HOriginalStorage address "256 word"
  | HGasPrice
  | HOrigin
  | HBlockHash "256 word"
  | HBlockNumber
  | HBlockTimestamp
  | HBlockCoinbase
  | HBlockDifficulty
  | HBlockRandomness
  | HBlockGasLimit
  | HBlockBaseFeePerGas
  | HChainId
  | HPreValidate "8 word"
  | HRecordExternalOperation
  | HExists address
  | HDeleted address
  | HIsCold address
  | HSetStorage address "256 word" "256 word"
  | HLog address "256 word list" bytes
  | HMarkDelete address address
  | HCreate address create_scheme "256 word" bytes gas
      \<comment> \<open>caller, scheme, value, init code, gas for the call\<close>
  | HCall address "evm_transfer option" bytes gas bool evm_context
      \<comment> \<open>target, transfer, input, gas for the call, is\_static, context\<close>

datatype evm_reply =
    RWord "256 word"
  | RBytes bytes
  | RAddress address
  | RBool bool
  | RRandomness "256 word option"
  | RResult "error + unit"
  | RCreate exit_reason "address option" bytes gas
  | RCall exit_reason bytes gas
  | RTrap

text \<open>
  \<open>EvmExit reason value unfinished gas\<close>: the runtime stopped with \<open>reason\<close> and the return value;
  \<open>unfinished\<close> is the error of \<^verbatim>\<open>finish_create\<close> or \<^verbatim>\<open>finish_call\<close>, if any; \<open>gas\<close> is the gas used less
  the gas refunded. \<open>EvmTrap\<close> is a trap of the runtime.
\<close>

datatype evm_prog =
    EvmExit exit_reason bytes "error option" gas
  | EvmTrap gas
  | EvmHost evm_query "evm_reply \<Rightarrow> evm_prog"

record chain =
  ch_ext :: ext
  ch_vm :: vm_ext
  ch_rlp_create :: "address \<Rightarrow> nonce \<Rightarrow> bytes"
  ch_elf :: "bytes \<Rightarrow> bytes \<Rightarrow>
    error + ebpf_object_version \<times> (error + ebpf_image \<times> (error + vm_memory))"
  ch_syscall_hash :: "string \<Rightarrow> 32 word"
  ch_utf8 :: "bytes \<Rightarrow> bool"
  ch_evm :: "bytes \<Rightarrow> bytes \<Rightarrow> evm_context \<Rightarrow> gas \<Rightarrow> bool \<Rightarrow> evm_prog"
  ch_vm_error :: "vm_failure \<Rightarrow> string"
  ch_transact_call :: "bytes \<Rightarrow> error option"
  ch_precompile :: "address \<Rightarrow> bytes \<Rightarrow> (error + unit) \<times> bytes"

definition error_bytes :: "chain \<Rightarrow> error \<Rightarrow> bytes" where
  "error_bytes X e = vx_message (ch_vm X) e"

definition create_evm_address :: "chain \<Rightarrow> create_scheme \<Rightarrow> nonce \<Rightarrow> address" where
  "create_evm_address X scheme n =
     (case scheme of
        Create2 caller code_hash salt \<Rightarrow>
          address_of_hash (x_keccak256 (ch_ext X)
            ([0xff] @ be_bytes 20 caller @ be_bytes 32 salt @ be_bytes 32 code_hash))
      | Legacy caller \<Rightarrow> address_of_hash (x_keccak256 (ch_ext X) (ch_rlp_create X caller n))
      | FixedAddress a \<Rightarrow> a)"

definition u256_to_balance :: "256 word \<Rightarrow> balance option" where
  "u256_to_balance v = (if unat v \<ge> 2 ^ 128 - 1 then None else Some (ucast v))"

section \<open>Calls\<close>

text \<open>The arguments that a call passes down, and the executors of the levels below.\<close>

record call_env =
  ce_cluster_address :: address
  ce_nonce :: nonce
  ce_transaction_hash :: transaction_hash
  ce_block_number :: block_number
  ce_block_hash :: block_hash
  ce_block_timestamp :: block_timestamp

record call_args =
  ca_account_address :: address
  ca_context :: evm_context
  ca_gas_limit :: gas
  ca_deposit :: balance
  ca_env :: call_env
  ca_call_depth :: "32 word"

type_synonym call_result = "(capture \<times> gas) state_op"

type_synonym call_fn =
  "call_args \<Rightarrow> contract \<Rightarrow> contract_instance \<Rightarrow> bytes \<Rightarrow> bytes \<Rightarrow> bool \<Rightarrow> call_result"

type_synonym deploy_fn =
  "call_args \<Rightarrow> create_scheme \<Rightarrow> 8 word \<Rightarrow> bytes \<Rightarrow> (address \<times> gas) state_op"

record level =
  lv_l1xvm :: call_fn
  lv_evm :: call_fn
  lv_evm_deployment :: deploy_fn

definition MAX_CROSS_CONTRACT_CALL_DEPTH :: "32 word" where
  "MAX_CROSS_CONTRACT_CALL_DEPTH = 15"

definition READONLY_CALL_DEFAULT_GAS_LIMIT :: gas where
  "READONLY_CALL_DEFAULT_GAS_LIMIT = 30000000"

definition context_of :: "address \<Rightarrow> address \<Rightarrow> balance \<Rightarrow> evm_context" where
  "context_of a caller d = \<lparr>cx_address = a, cx_caller = caller, cx_apparent_value = ucast d\<rparr>"

definition L1XVM_EVENT :: "8 word" where
  "L1XVM_EVENT = 0"

definition EVM_EVENT :: "8 word" where
  "EVM_EVENT = 1"

definition call_event :: "call_env \<Rightarrow> bytes \<Rightarrow> 8 word \<Rightarrow> address \<Rightarrow> 256 word list option \<Rightarrow> event" where
  "call_event env data ty a topics =
     \<lparr>ev_transaction_hash = ce_transaction_hash env, ev_data = data,
      ev_block_number = ce_block_number env, ev_type = ty, ev_contract_address = a,
      ev_topics = topics\<rparr>"

text \<open>
  Running \<open>m\<close> on a clone of the state: \<open>on_clone m k\<close> passes the result and the clone to \<open>k\<close>, which
  works on the original state. A panic leaves the original.
\<close>

definition on_clone ::
  "'a state_op \<Rightarrow> ('a \<Rightarrow> updated_state \<Rightarrow> 'b state_op) \<Rightarrow> 'b state_op" where
  "on_clone m k = (\<lambda>s. case m s of (Inl e, t) \<Rightarrow> (Inl e, s) | (Inr x, t) \<Rightarrow> k x t s)"

definition merge_from :: "updated_state \<Rightarrow> unit state_op" where
  "merge_from t = modify (\<lambda>s. merge s t)"

section \<open>ContractInstanceManager for the L1X virtual machine\<close>

record manager =
  cim_contract_instance :: "contract_instance option"
  cim_account_address :: address
  cim_context :: evm_context
  cim_env :: call_env
  cim_readonly :: bool
  cim_call_depth :: "32 word"

definition instance_of :: "manager \<Rightarrow> address state_op" where
  "instance_of m = ok_or (map_option ci_instance_address (cim_contract_instance m)) Panic"

definition cim_storage_read :: "manager \<Rightarrow> bytes \<Rightarrow> bytes option state_op" where
  "cim_storage_read m key = and_then (instance_of m) (\<lambda>i. get_state_key_value i key)"

definition cim_storage_remove :: "manager \<Rightarrow> bytes \<Rightarrow> unit state_op" where
  "cim_storage_remove m key = and_then (instance_of m) (\<lambda>i. delete_state_key_value i key)"

definition cim_storage_write :: "manager \<Rightarrow> bytes \<Rightarrow> bytes \<Rightarrow> unit state_op" where
  "cim_storage_write m key v = and_then (instance_of m) (\<lambda>i. store_state_key_value i key v)"

definition cim_emit_event :: "manager \<Rightarrow> bytes \<Rightarrow> unit state_op" where
  "cim_emit_event m data =
     and_then (ok_or (map_option ci_instance_address (cim_contract_instance m))
                (Failed ''Emit event | Contract instance not found''))
       (\<lambda>i. create_event (call_event (cim_env m) data L1XVM_EVENT i None))"

definition deeper :: "manager \<Rightarrow> address \<Rightarrow> evm_context \<Rightarrow> gas \<Rightarrow> balance \<Rightarrow> call_args" where
  "deeper m account ctx g d =
     \<lparr>ca_account_address = account, ca_context = ctx, ca_gas_limit = g, ca_deposit = d,
      ca_env = cim_env m, ca_call_depth = cim_call_depth m + 1\<rparr>"

definition returned_nothing :: call_result where
  "returned_nothing = ok (Exit (Succeed Returned) [], 0)"

definition exit_outcome :: "exit_reason \<Rightarrow> error + unit" where
  "exit_outcome r = (case r of
     Succeed _ \<Rightarrow> Inr ()
   | ExitErr e \<Rightarrow> Inl (FailedWith ''Error'' e)
   | ExitFatal e \<Rightarrow> Inl (FailedWith ''Fatal'' e)
   | ExitRevert \<Rightarrow> Inl (Failed ''Revert''))"

definition cim_call_contract ::
  "level \<Rightarrow> manager \<Rightarrow> address \<Rightarrow> bytes \<Rightarrow> bytes \<Rightarrow> gas \<Rightarrow> balance \<Rightarrow> bool \<Rightarrow>
   (bytes \<times> gas) state_op" where
  "cim_call_contract below m a fn args g d ro =
     and_then (instance_of m) (\<lambda>self.
     and_then (get_contract_instance a) (\<lambda>inst.
     and_then (get_contract (ci_contract_address inst)) (\<lambda>con.
     and_then (case contract_type_try_from (con_type con) of Inl e \<Rightarrow> fail e | Inr ct \<Rightarrow> ok ct) (\<lambda>ct.
     on_clone
       (case ct of
          L1XVM \<Rightarrow> lv_l1xvm below (deeper m self (context_of self self 0) g d) con inst fn args ro
        | EVM \<Rightarrow> lv_evm below (deeper m a (context_of a self d) g d) con inst fn args ro
        | XTALK \<Rightarrow> returned_nothing)
       (\<lambda>(result, burnt) clone.
          case result of
            Trap \<Rightarrow> fail (Failed ''Trap'')
          | Exit reason data \<Rightarrow>
              (case exit_outcome reason of
                 Inl e \<Rightarrow> fail e
               | Inr _ \<Rightarrow> and_then (merge_from clone) (\<lambda>_. ok (data, burnt))))))))"

definition cim_api :: "level \<Rightarrow> manager \<Rightarrow> updated_state vm_api" where
  "cim_api below m =
     \<lparr>api_contract_instance_owner_address_of =
        (\<lambda>a. and_then (get_contract_instance a) (\<lambda>i. ok (ci_owner_address i))),
      api_contract_code_owner_address_of =
        (\<lambda>a. and_then (get_contract_owner a) (\<lambda>(access, owner). ok owner)),
      api_contract_code_address_of =
        (\<lambda>a. and_then (get_contract_instance a) (\<lambda>i. ok (ci_contract_address i))),
      api_storage_read = cim_storage_read m,
      api_storage_remove = cim_storage_remove m,
      api_storage_write = cim_storage_write m,
      api_get_balance = get_balance,
      api_transfer_token = transfer,
      api_call_contract = cim_call_contract below m,
      api_emit_event = cim_emit_event m\<rparr>"

section \<open>The L1X virtual machine\<close>

text \<open>\<^verbatim>\<open>run_internal\<close>, on the manager's own copy of the state; the result is the returned text and the
  gas burnt.\<close>

definition vm_logic_new ::
  "call_args \<Rightarrow> contract_instance \<Rightarrow> bytes \<Rightarrow> bool \<Rightarrow> ebpf_object_version \<Rightarrow> vm_memory \<Rightarrow> vm_logic" where
  "vm_logic_new ca inst args ro version mem =
     \<lparr>vm_registers = Map.empty, vm_memory = mem, vm_caller_address = ca_account_address ca,
      vm_contract_code_address = ci_contract_address inst,
      vm_contract_instance_address = ci_instance_address inst,
      vm_contract_owner_address = ci_owner_address inst, vm_input = args, vm_return_data = [],
      vm_readonly = ro, vm_runtime_gas = runtime_gas_new (ca_gas_limit ca),
      vm_execution_fees = create_basic_config, vm_object_version = version,
      vm_block_number = ce_block_number (ca_env ca), vm_block_hash = ce_block_hash (ca_env ca),
      vm_block_timestamp = ce_block_timestamp (ca_env ca), vm_deposit = ca_deposit ca\<rparr>"

definition load_program :: "chain \<Rightarrow> bytes \<Rightarrow> bytes \<Rightarrow> error + ebpf_object_version \<times> ebpf_image \<times> vm_memory" where
  "load_program X code fn =
     (case ch_elf X code fn of
        Inl e \<Rightarrow> Inl e
      | Inr (version, loaded) \<Rightarrow>
         (case verify_version version of
            Inl e \<Rightarrow> Inl e
          | Inr _ \<Rightarrow>
             (case loaded of
                Inl e \<Rightarrow> Inl e
              | Inr (im, memory) \<Rightarrow>
                 (case check (im_text im) of
                    Inl e \<Rightarrow> Inl e
                  | Inr _ \<Rightarrow> (case memory of Inl e \<Rightarrow> Inl e | Inr mem \<Rightarrow> Inr (version, im, mem))))))"

definition ebpf_prog :: "chain \<Rightarrow> ebpf_image \<Rightarrow> gas \<Rightarrow> vm_prog" where
  "ebpf_prog X im limit = ebpf_tree (helper_of (ch_syscall_hash X)) im (Suc (unat limit)) (ebpf_init im)"

definition run_internal ::
  "chain \<Rightarrow> updated_state vm_api \<Rightarrow> call_args \<Rightarrow> bytes \<Rightarrow> contract_instance \<Rightarrow> bytes \<Rightarrow> bytes \<Rightarrow> bool \<Rightarrow>
   (updated_state, error, bytes \<times> gas) op" where
  "run_internal X api ca code inst fn args ro = (\<lambda>s.
     case load_program X code fn of
       Inl e \<Rightarrow> (Inl e, s)
     | Inr (version, im, mem) \<Rightarrow>
        (case execute_program (ch_vm X) api (ebpf_prog X im (ca_gas_limit ca))
                (vm_logic_new ca inst args ro version mem, s) of
           (Inl f, (vm, t)) \<Rightarrow>
             (Inl (if f = VmHostError HostPanic then Panic else Failed (ch_vm_error X f)), t)
         | (Inr r, (vm, t)) \<Rightarrow>
             if vm_return_data vm = [] \<or> ch_utf8 X (vm_return_data vm)
             then (Inr (vm_return_data vm, rg_burnt_gas (vm_runtime_gas vm)), t)
             else (Inl (Failed ''Utf8Error''), t)))"

definition failed_exit :: "error \<Rightarrow> bytes \<Rightarrow> gas \<Rightarrow> call_result" where
  "failed_exit e data g = ok (Exit (ExitErr e) data, g)"

text \<open>\<open>catching m h k\<close> is \<^verbatim>\<open>match m { Ok(x) => k(x), Err(e) => h(e) }\<close>; a panic is not caught.\<close>

definition catching ::
  "'a state_op \<Rightarrow> (error \<Rightarrow> 'b state_op) \<Rightarrow> ('a \<Rightarrow> 'b state_op) \<Rightarrow> 'b state_op" where
  "catching m h k = attempt m (\<lambda>r. case r of
     Inr x \<Rightarrow> k x
   | Inl e \<Rightarrow> if e = Panic then fail Panic else h e)"

definition l1xvm_run ::
  "chain \<Rightarrow> level \<Rightarrow> call_args \<Rightarrow> contract \<Rightarrow> contract_instance \<Rightarrow> bytes \<Rightarrow> bytes \<Rightarrow> bool \<Rightarrow> call_result" where
  "l1xvm_run X below ca con inst fn args ro = (\<lambda>s.
     let m = \<lparr>cim_contract_instance = Some inst, cim_account_address = ca_account_address ca,
              cim_context = ca_context ca, cim_env = ca_env ca, cim_readonly = ro,
              cim_call_depth = ca_call_depth ca\<rparr>
     in case run_internal X (cim_api below m) ca (con_code con) inst fn args ro s of
          (Inl e, clone) \<Rightarrow>
            if e = Panic then (Inl Panic, s) else failed_exit e (error_bytes X e) 0 s
        | (Inr (data, burnt), clone) \<Rightarrow>
            and_then (merge_from clone) (\<lambda>_.
              if ro then ok (Exit (Succeed Returned) data, burnt)
              else catching (create_event (call_event (ca_env ca) data L1XVM_EVENT
                                             (ci_instance_address inst) None))
                     (\<lambda>e. failed_exit e (error_bytes X e) burnt)
                     (\<lambda>_. ok (Exit (Succeed Returned) data, burnt))) s)"

definition l1xvm_function_call :: "chain \<Rightarrow> level \<Rightarrow> call_fn" where
  "l1xvm_function_call X below ca con inst fn args ro =
     (if ca_call_depth ca > MAX_CROSS_CONTRACT_CALL_DEPTH
      then failed_exit (Failed ''Max cross-contarct call depth reached'') [] 0
      else if \<not> ro \<and> ca_deposit ca > 0
      then catching (just_transfer_tokens (ca_account_address ca) (ci_instance_address inst)
                       (ca_deposit ca))
             (\<lambda>e. failed_exit (FailedWith ''Can't transfer deposit'' e) [] 0)
             (\<lambda>_. l1xvm_run X below ca con inst fn args ro)
      else l1xvm_run X below ca con inst fn args ro)"

definition l1xvm_deployment :: "chain \<Rightarrow> deploy_fn" where
  "l1xvm_deployment X ca scheme access code =
     (let a = contract_address (ch_ext X) (ca_account_address ca) (ce_cluster_address (ca_env ca))
                (ce_nonce (ca_env ca)) in
      and_then (create_system_account a) (\<lambda>_.
      and_then (store_contract \<lparr>con_address = a, con_access = access,
                  con_type = contract_type_to_i8 L1XVM, con_code = code,
                  con_owner = ca_account_address ca\<rparr>) (\<lambda>_.
      and_then (create_event (call_event (ca_env ca)
                  (map (of_nat \<circ> of_char) ''Contract deployment succeeded'') L1XVM_EVENT a None))
        (\<lambda>_. ok (a, 0)))))"

definition l1xvm_init ::
  "chain \<Rightarrow> level \<Rightarrow> call_args \<Rightarrow> contract \<Rightarrow> bytes \<Rightarrow> (contract_instance \<times> gas) state_op" where
  "l1xvm_init X below ca con args =
     (let a = contract_instance_address (ch_ext X) (ca_account_address ca) (con_address con)
                (ce_cluster_address (ca_env ca)) (ce_nonce (ca_env ca));
          inst = \<lparr>ci_instance_address = a, ci_contract_address = con_address con,
                  ci_owner_address = ca_account_address ca\<rparr> in
      and_then (create_system_account a) (\<lambda>_.
      and_then (store_contract_instance inst) (\<lambda>_.
      and_then (l1xvm_function_call X below ca con inst (map (of_nat \<circ> of_char) ''new'') args False)
        (\<lambda>(ret, burnt).
          case ret of
            Exit reason data \<Rightarrow>
              if reason = Succeed Returned then ok (inst, burnt)
              else fail (case exit_outcome reason of Inl e \<Rightarrow> e | Inr _ \<Rightarrow> Failed ''Succeed'')
          | Trap \<Rightarrow> fail (Failed ''Error: trap'')))))"

section \<open>The Ethereum virtual machine\<close>

definition find_contract :: "address \<Rightarrow> contract state_op" where
  "find_contract a = and_then (get_contract_instance a) (\<lambda>i. get_contract (ci_contract_address i))"

definition evm_storage :: "address \<Rightarrow> 256 word \<Rightarrow> evm_reply state_op" where
  "evm_storage a k = catching (get_state_key_value a (be_bytes 32 k))
     (\<lambda>e. fail Panic)
     (\<lambda>v. case v of
            None \<Rightarrow> ok (RWord 0)
          | Some bs \<Rightarrow> if length bs = 32 then ok (RWord (le_word (rev bs))) else fail Panic)"

definition evm_set_storage :: "manager \<Rightarrow> address \<Rightarrow> 256 word \<Rightarrow> 256 word \<Rightarrow> evm_reply state_op" where
  "evm_set_storage m a k v =
     (if cim_readonly m then ok (RResult (Inl (Failed ''static-call context'')))
      else catching (store_state_key_value a (be_bytes 32 k) (be_bytes 32 v))
             (\<lambda>e. ok (RResult (Inl e))) (\<lambda>_. ok (RResult (Inr ()))))"

definition evm_log :: "manager \<Rightarrow> address \<Rightarrow> 256 word list \<Rightarrow> bytes \<Rightarrow> evm_reply state_op" where
  "evm_log m a topics data =
     (if cim_readonly m then ok (RResult (Inl (Failed ''static-call context'')))
      else catching (create_event (call_event (cim_env m) data EVM_EVENT a (Some topics)))
             (\<lambda>e. ok (RResult (Inl e))) (\<lambda>_. ok (RResult (Inr ()))))"

definition evm_create ::
  "level \<Rightarrow> manager \<Rightarrow> address \<Rightarrow> create_scheme \<Rightarrow> 256 word \<Rightarrow> bytes \<Rightarrow> gas \<Rightarrow> evm_reply state_op" where
  "evm_create below m caller scheme v code g =
     (let failed = (\<lambda>e. ok (RCreate (ExitErr e) None code 0)) in
      if cim_readonly m then failed (Failed ''static-call context'')
      else case u256_to_balance v of
        None \<Rightarrow> failed (Failed ''Can't convert EVM value to deposit'')
      | Some d \<Rightarrow>
          catching (get_nonce caller) failed (\<lambda>n.
          catching (increment_nonce caller) failed (\<lambda>_.
          (\<lambda>s. case lv_evm_deployment below
                      (deeper (m\<lparr>cim_env := (cim_env m)\<lparr>ce_nonce := n\<rparr>\<rparr>) caller (cim_context m) g d)
                      scheme (access_type_to_i8 PRIVATE) code s of
                 (Inr (a, burnt), clone) \<Rightarrow>
                   and_then (merge_from clone)
                     (\<lambda>_. ok (RCreate (Succeed Returned) (Some a) code burnt)) s
               | (Inl e, clone) \<Rightarrow> if e = Panic then (Inl Panic, s) else failed e s))))"

definition is_precompile :: "address \<Rightarrow> bool" where
  "is_precompile a \<longleftrightarrow> 1 \<le> a \<and> a \<le> 9"

definition evm_failed_call :: "chain \<Rightarrow> error \<Rightarrow> evm_reply state_op" where
  "evm_failed_call X e = ok (RCall (ExitErr e) (error_bytes X e) 0)"

definition evm_call_missing :: "chain \<Rightarrow> evm_transfer option \<Rightarrow> evm_reply state_op" where
  "evm_call_missing X tr =
     (case tr of
        None \<Rightarrow> ok (RCall (Succeed Returned) [] 0)
      | Some t \<Rightarrow>
         (case u256_to_balance (et_value t) of
            None \<Rightarrow> evm_failed_call X (Failed ''Can't convert value to balance'')
          | Some amount \<Rightarrow>
              catching (transfer (et_source t) (et_target t) amount) (evm_failed_call X)
                (\<lambda>_. ok (RCall (Succeed Returned) [] 0))))"

definition evm_call_contract ::
  "chain \<Rightarrow> level \<Rightarrow> manager \<Rightarrow> contract_instance \<Rightarrow> evm_transfer option \<Rightarrow> bytes \<Rightarrow> gas \<Rightarrow> bool \<Rightarrow>
   evm_context \<Rightarrow> evm_reply state_op" where
  "evm_call_contract X below m inst tr data g static ctx =
     catching (get_contract (ci_contract_address inst)) (evm_failed_call X) (\<lambda>con.
     case contract_type_try_from (con_type con) of
       Inl e \<Rightarrow> evm_failed_call X e
     | Inr ct \<Rightarrow>
        (case (case tr of None \<Rightarrow> Some 0 | Some t \<Rightarrow> u256_to_balance (et_value t)) of
           None \<Rightarrow> evm_failed_call X (Failed ''Can't convert EVM value to deposit'')
         | Some d \<Rightarrow>
             on_clone
               (case ct of
                  L1XVM \<Rightarrow> lv_l1xvm below
                    (deeper m (cx_caller ctx) (context_of (cx_caller ctx) (cx_caller ctx) 0) g d)
                    con inst [] data static
                | EVM \<Rightarrow> lv_evm below (deeper m (cx_caller ctx) ctx g d) con inst [] data static
                | XTALK \<Rightarrow> returned_nothing)
               (\<lambda>(result, burnt) clone.
                  case result of
                    Trap \<Rightarrow> ok RTrap
                  | Exit reason out \<Rightarrow>
                      and_then (if is_succeed reason then merge_from clone else ok ())
                        (\<lambda>_. ok (RCall reason out burnt)))))"

definition evm_call ::
  "chain \<Rightarrow> level \<Rightarrow> manager \<Rightarrow> address \<Rightarrow> evm_transfer option \<Rightarrow> bytes \<Rightarrow> gas \<Rightarrow> bool \<Rightarrow>
   evm_context \<Rightarrow> evm_reply state_op" where
  "evm_call X below m a tr data g static ctx =
     (if cim_readonly m \<and> tr \<noteq> None then evm_failed_call X (Failed ''static-call context'')
      else case ch_transact_call X data of
        Some e \<Rightarrow> evm_failed_call X e
      | None \<Rightarrow>
          if is_precompile a
          then ok (case ch_precompile X a data of
                     (Inr _, out) \<Rightarrow> RCall (Succeed Returned) out 0
                   | (Inl e, out) \<Rightarrow> RCall (ExitErr e) out 0)
          else catching (get_contract_instance a)
                 (\<lambda>_. evm_call_missing X tr)
                 (\<lambda>inst. evm_call_contract X below m inst tr data g static ctx))"

definition valid_opcodes :: "8 word list" where
  "valid_opcodes =
     map of_nat ([0x00..<0x0d] @ [0x10..<0x1e] @ [0x20, 0x21] @ [0x30..<0x49] @ [0x50..<0x5d] @
       [0x60..<0xa6] @ [0xb0, 0xb1, 0xb2, 0xb4, 0xb5, 0xb6, 0xb8, 0xb9, 0xba, 0xbb] @
       [0xe1..<0xe5] @ [0xf0..<0xf7] @ [0xfa..<0x100])"

text \<open>
  The answers of the manager. \<^verbatim>\<open>gas_left\<close> reads the gasometer, which is part of the program, as is
  the gas a call or a creation gets when the instruction names none.
\<close>

fun evm_handle :: "chain \<Rightarrow> level \<Rightarrow> manager \<Rightarrow> evm_query \<Rightarrow> evm_reply state_op" where
  "evm_handle X below m (HBalance a) =
     catching (get_balance a) (\<lambda>_. ok (RWord 0)) (\<lambda>b. ok (RWord (ucast b)))"
| "evm_handle X below m (HCodeSize a) =
     catching (find_contract a) (\<lambda>_. ok (RWord 0)) (\<lambda>c. ok (RWord (ucast (usize_len (con_code c)))))"
| "evm_handle X below m (HCodeHash a) =
     catching (find_contract a) (\<lambda>_. ok (RWord 0))
       (\<lambda>c. ok (RWord (x_keccak256 (ch_ext X) (con_code c))))"
| "evm_handle X below m (HCode a) =
     catching (find_contract a) (\<lambda>_. ok (RBytes [])) (\<lambda>c. ok (RBytes (con_code c)))"
| "evm_handle X below m (HStorage a k) = evm_storage a k"
| "evm_handle X below m (HOriginalStorage a k) = evm_storage a k"
| "evm_handle X below m HGasPrice = ok (RWord 1)"
| "evm_handle X below m HOrigin =
     ok (RAddress (case cim_contract_instance m of
                     Some i \<Rightarrow> ci_instance_address i | None \<Rightarrow> cim_account_address m))"
| "evm_handle X below m (HBlockHash n) = ok (RWord (ce_block_hash (cim_env m)))"
| "evm_handle X below m HBlockNumber = ok (RWord (ucast (ce_block_number (cim_env m))))"
| "evm_handle X below m HBlockTimestamp = ok (RWord (ucast (ce_block_timestamp (cim_env m))))"
| "evm_handle X below m HBlockCoinbase = ok (RAddress 0)"
| "evm_handle X below m HBlockDifficulty = ok (RWord 0)"
| "evm_handle X below m HBlockRandomness = ok (RRandomness None)"
| "evm_handle X below m HBlockGasLimit = ok (RWord 0)"
| "evm_handle X below m HBlockBaseFeePerGas = ok (RWord 0)"
| "evm_handle X below m HChainId = ok (RWord 0)"
| "evm_handle X below m (HPreValidate opcode) =
     ok (RResult (if opcode \<in> set valid_opcodes then Inr () else Inl (Failed ''InvalidCode'')))"
| "evm_handle X below m HRecordExternalOperation = ok (RResult (Inr ()))"
| "evm_handle X below m (HExists a) =
     catching (is_valid_account a) (\<lambda>_. ok (RBool False)) (\<lambda>v. ok (RBool v))"
| "evm_handle X below m (HDeleted a) =
     catching (is_valid_account a) (\<lambda>_. ok (RBool False)) (\<lambda>v. ok (RBool v))"
| "evm_handle X below m (HIsCold a) = ok (RBool False)"
| "evm_handle X below m (HSetStorage a k v) = evm_set_storage m a k v"
| "evm_handle X below m (HLog a topics data) = evm_log m a topics data"
| "evm_handle X below m (HMarkDelete a t) = ok (RResult (Inr ()))"
| "evm_handle X below m (HCreate caller scheme v code g) = evm_create below m caller scheme v code g"
| "evm_handle X below m (HCall a tr data g static ctx) =
     evm_call X below m a tr data g static ctx"

primrec evm_execute ::
  "chain \<Rightarrow> level \<Rightarrow> manager \<Rightarrow> evm_prog \<Rightarrow> (exit_reason \<times> bytes \<times> error option \<times> gas) state_op" where
  "evm_execute X below m (EvmExit reason out unfinished g) = ok (reason, out, unfinished, g)"
| "evm_execute X below m (EvmTrap g) = ok (ExitErr (Failed ''inner_runtime.run''), [], None, g)"
| "evm_execute X below m (EvmHost q k) =
     (\<lambda>s. case evm_handle X below m q s of
            (Inl e, t) \<Rightarrow> (Inl e, t)
          | (Inr r, t) \<Rightarrow> evm_execute X below m (k r) t)"

datatype runtime_kind = KindCreate address | KindCall address

definition verify_code :: "bytes \<Rightarrow> error option" where
  "verify_code code =
     (if code \<noteq> [] \<and> hd code = 0xef then Some (Failed ''InvalidCode'')
      else if length code > 2 * 0x6000 then Some (Failed ''CreateContractLimit'')
      else None)"

text \<open>\<^verbatim>\<open>cleanup_for_create\<close> and \<^verbatim>\<open>cleanup_for_call\<close>: the result they hand to \<^verbatim>\<open>execute_evm_runtime\<close>.\<close>

definition cleanup :: "runtime_kind \<Rightarrow> exit_reason \<Rightarrow> bytes \<Rightarrow> error + unit" where
  "cleanup kind reason out =
     (case reason of
        Succeed _ \<Rightarrow>
          (case kind of
             KindCall _ \<Rightarrow> Inr ()
           | KindCreate _ \<Rightarrow> (case verify_code out of None \<Rightarrow> Inr () | Some e \<Rightarrow> Inl e))
      | ExitErr e \<Rightarrow> Inl e
      | ExitRevert \<Rightarrow> Inl (Failed ''Reverted'')
      | ExitFatal e \<Rightarrow> Inl e)"

definition store_evm_contract ::
  "call_args \<Rightarrow> address \<Rightarrow> 8 word \<Rightarrow> bytes \<Rightarrow> unit state_op" where
  "store_evm_contract ca a access code =
     and_then (store_contract \<lparr>con_address = a, con_access = access,
                 con_type = contract_type_to_i8 EVM, con_code = code,
                 con_owner = ca_account_address ca\<rparr>) (\<lambda>_.
     and_then (store_contract_instance \<lparr>ci_instance_address = a, ci_contract_address = a,
                 ci_owner_address = ca_account_address ca\<rparr>) (\<lambda>_.
     create_event (call_event (ca_env ca)
       (map (of_nat \<circ> of_char) ''EVM Contract deployment succeeded'') EVM_EVENT a None)))"

definition evm_finish ::
  "chain \<Rightarrow> call_args \<Rightarrow> 8 word \<Rightarrow> bool \<Rightarrow> runtime_kind \<Rightarrow> exit_reason \<Rightarrow> bytes \<Rightarrow> gas \<Rightarrow> call_result" where
  "evm_finish X ca access ro kind outcome out burnt =
     (case kind of
        KindCreate a \<Rightarrow>
          if \<not> ro \<and> is_succeed outcome
          then catching (store_evm_contract ca a access out)
                 (\<lambda>e. failed_exit e (error_bytes X e) burnt)
                 (\<lambda>_. ok (Exit outcome out, burnt))
          else ok (Exit outcome out, burnt)
      | KindCall a \<Rightarrow>
          if \<not> ro
          then catching (create_event (call_event (ca_env ca) out EVM_EVENT
                                         (ca_account_address ca) None))
                 (\<lambda>e. failed_exit e (error_bytes X e) burnt)
                 (\<lambda>_. ok (Exit outcome out, burnt))
          else ok (Exit outcome out, burnt))"

definition evm_outcome :: "runtime_kind \<Rightarrow> exit_reason \<Rightarrow> bytes \<Rightarrow> error option \<Rightarrow> exit_reason" where
  "evm_outcome kind reason out unfinished =
     (case cleanup kind reason out of
        Inl e \<Rightarrow> ExitErr e
      | Inr _ \<Rightarrow> (case unfinished of Some e \<Rightarrow> ExitErr e | None \<Rightarrow> Succeed Returned))"

definition execute_evm_runtime ::
  "chain \<Rightarrow> level \<Rightarrow> call_args \<Rightarrow> 8 word \<Rightarrow> bytes \<Rightarrow> bytes \<Rightarrow> bool \<Rightarrow> runtime_kind \<Rightarrow> call_result" where
  "execute_evm_runtime X below ca access code args ro kind =
     (if ca_call_depth ca > MAX_CROSS_CONTRACT_CALL_DEPTH
      then failed_exit (Failed ''Max cross-contarct call depth reached'') [] 0
      else
        let m = \<lparr>cim_contract_instance = None, cim_account_address = ca_account_address ca,
                 cim_context = ca_context ca, cim_env = ca_env ca, cim_readonly = ro,
                 cim_call_depth = ca_call_depth ca\<rparr> in
        on_clone (evm_execute X below m (ch_evm X code args (ca_context ca) (ca_gas_limit ca) ro))
          (\<lambda>(reason, out, unfinished, burnt) clone.
            and_then (if is_succeed (evm_outcome kind reason out unfinished)
                      then merge_from clone else ok ())
              (\<lambda>_. evm_finish X ca access ro kind (evm_outcome kind reason out unfinished)
                     out burnt)))"

definition evm_deployment :: "chain \<Rightarrow> level \<Rightarrow> deploy_fn" where
  "evm_deployment X below ca scheme access code =
     (let a = create_evm_address X scheme (ce_nonce (ca_env ca)) in
      and_then (is_valid_account a) (\<lambda>valid.
      and_then (require (\<not> valid) (Failed ''EVM Deployment: Account collision'')) (\<lambda>_.
      and_then (create_account (account_new_system a)) (\<lambda>_.
      and_then (if ca_deposit ca > 0
                then catching (just_transfer_tokens (ca_account_address ca) a (ca_deposit ca))
                       (\<lambda>e. fail (FailedWith ''Can't transfer deposit'' e)) ok
                else ok ()) (\<lambda>_.
      and_then (execute_evm_runtime X below
                 (ca\<lparr>ca_context := context_of a (ca_account_address ca) (ca_deposit ca)\<rparr>)
                 access code [] False (KindCreate a)) (\<lambda>(result, burnt).
        case result of
          Trap \<Rightarrow> fail (Failed ''execute_contract_deployment: trap'')
        | Exit reason out \<Rightarrow>
            (case exit_outcome reason of
               Inl e \<Rightarrow> fail (FailedWith ''execute_contract_deployment'' e)
             | Inr _ \<Rightarrow> ok (a, burnt))))))))"

definition evm_function_call :: "chain \<Rightarrow> level \<Rightarrow> call_fn" where
  "evm_function_call X below ca con inst fn args ro =
     (let go = execute_evm_runtime X below ca (con_access con) (con_code con) args ro
                 (KindCall (ci_instance_address inst)) in
      if \<not> ro \<and> ca_deposit ca > 0
      then catching (just_transfer_tokens (ca_account_address ca) (ci_instance_address inst)
                       (ca_deposit ca))
             (\<lambda>e. failed_exit (FailedWith ''Can't transfer deposit'' e) [] 0)
             (\<lambda>_. go)
      else go)"

section \<open>Levels and executors\<close>

primrec levels :: "chain \<Rightarrow> nat \<Rightarrow> level" where
  "levels X 0 =
     \<lparr>lv_l1xvm = (\<lambda>_ _ _ _ _ _. fail Panic), lv_evm = (\<lambda>_ _ _ _ _ _. fail Panic),
      lv_evm_deployment = (\<lambda>_ _ _ _. fail Panic)\<rparr>"
| "levels X (Suc n) =
     \<lparr>lv_l1xvm = l1xvm_function_call X (levels X n), lv_evm = evm_function_call X (levels X n),
      lv_evm_deployment = evm_deployment X (levels X n)\<rparr>"

text \<open>Calls at depth 0 to 16 need 17 levels.\<close>

definition call_levels :: nat where
  "call_levels = 17"

record executor =
  ex_deployment :: deploy_fn
  ex_init :: "call_args \<Rightarrow> contract \<Rightarrow> bytes \<Rightarrow> (contract_instance \<times> gas) state_op"
  ex_function_call :: call_fn
  ex_function_call_read_only ::
    "call_args \<Rightarrow> contract \<Rightarrow> contract_instance \<Rightarrow> bytes \<Rightarrow> bytes \<Rightarrow> call_result"

definition default_executor :: executor where
  "default_executor =
     \<lparr>ex_deployment = (\<lambda>_ _ _ _. fail (Failed ''execute_contract_deployment not implemented'')),
      ex_init = (\<lambda>_ _ _. fail (Failed ''execute_contract_init not implemented'')),
      ex_function_call = (\<lambda>_ _ _ _ _ _. returned_nothing),
      ex_function_call_read_only = (\<lambda>_ _ _ _ _. returned_nothing)\<rparr>"

definition xtalk_executor :: executor where
  "xtalk_executor = default_executor"

definition l1xvm_executor :: "chain \<Rightarrow> executor" where
  "l1xvm_executor X =
     \<lparr>ex_deployment = l1xvm_deployment X,
      ex_init = l1xvm_init X (levels X call_levels),
      ex_function_call = l1xvm_function_call X (levels X call_levels),
      ex_function_call_read_only = (\<lambda>ca con inst fn args.
        l1xvm_function_call X (levels X call_levels)
          (ca\<lparr>ca_account_address := 0, ca_context := context_of 0 0 0, ca_deposit := 0,
              ca_env := (ca_env ca)\<lparr>ce_transaction_hash := 0\<rparr>\<rparr>)
          con inst fn args True)\<rparr>"

definition evm_executor :: "chain \<Rightarrow> executor" where
  "evm_executor X = default_executor
     \<lparr>ex_deployment := evm_deployment X (levels X call_levels),
      ex_function_call := evm_function_call X (levels X call_levels),
      ex_function_call_read_only := (\<lambda>ca con inst fn args.
        evm_function_call X (levels X call_levels)
          (ca\<lparr>ca_account_address := ci_instance_address inst,
              ca_context := context_of (ci_instance_address inst) 0 0, ca_deposit := 0,
              ca_env := (ca_env ca)\<lparr>ce_transaction_hash := ce_block_hash (ca_env ca)\<rparr>\<rparr>)
          con inst fn args True)\<rparr>"

fun executor_for :: "chain \<Rightarrow> contract_type \<Rightarrow> executor" where
  "executor_for X L1XVM = l1xvm_executor X"
| "executor_for X EVM = evm_executor X"
| "executor_for X XTALK = xtalk_executor"

definition smart_contract_read_only_call ::
  "chain \<Rightarrow> address \<Rightarrow> bytes \<Rightarrow> bytes \<Rightarrow> gas \<Rightarrow> call_env \<Rightarrow> bytes state_op" where
  "smart_contract_read_only_call X a fn args g env =
     and_then (get_contract_instance a) (\<lambda>inst.
     and_then (get_contract (ci_contract_address inst)) (\<lambda>con.
     and_then (get_account (ci_owner_address inst)) (\<lambda>account.
     and_then (case contract_type_try_from (con_type con) of Inl e \<Rightarrow> fail e | Inr ct \<Rightarrow> ok ct) (\<lambda>ct.
     and_then (ex_function_call_read_only (executor_for X ct)
                 \<lparr>ca_account_address = 0, ca_context = context_of 0 0 0, ca_gas_limit = g,
                  ca_deposit = 0, ca_env = env\<lparr>ce_nonce := acc_nonce account + 1\<rparr>,
                  ca_call_depth = 0\<rparr> con inst fn args) (\<lambda>(result, burnt).
       case result of
         Exit reason out \<Rightarrow> if is_succeed reason then ok out else fail (Failed ''read only call'')
       | Trap \<Rightarrow> fail (Failed ''Contract exited by Trap''))))))"

section \<open>What every contract call keeps\<close>

text \<open>
  A relation that the operations of the state available to contracts keep. Everything a contract
  does, in either virtual machine and at any depth, then keeps it too: a clone that is merged back
  descends from the state it is merged into, so the merge is the clone.
\<close>

locale state_frame =
  fixes R :: "updated_state \<Rightarrow> updated_state \<Rightarrow> bool"
  assumes R_frame: "frame R"
    and R_reads:
      "keeps R (get_account a)" "keeps R (get_contract a)" "keeps R (get_contract_instance a)"
      "keeps R (get_state_key_value a k)"
    and R_accounts:
      "keeps R (transfer a b n)" "keeps R (increment_nonce a)" "keeps R (create_system_account a)"
    and R_writes:
      "keeps R (store_contract c)" "keeps R (store_contract_instance ci)"
      "keeps R (store_state_key_value a k v)" "keeps R (delete_state_key_value a k)"
      "keeps R (create_event e)"
begin

definition rel :: "updated_state \<Rightarrow> updated_state \<Rightarrow> bool" where
  "rel s t \<longleftrightarrow> grows s t \<and> R s t"

lemma rel_frame: "frame rel"
  using R_frame gr.frame_axioms by (auto simp: frame_def rel_def)

lemmas rel_rules = frame.keeps_rules [OF rel_frame]

lemma keeps_relI: "keeps grows m \<Longrightarrow> keeps R m \<Longrightarrow> keeps rel m"
  by (auto simp: keeps_def rel_def)

lemma keeps_state_ops:
  "keeps rel (get_account a)" "keeps rel (get_contract a)" "keeps rel (get_contract_instance a)"
  "keeps rel (get_state_key_value a k)" "keeps rel (transfer a b n)" "keeps rel (increment_nonce a)"
  "keeps rel (create_system_account a)" "keeps rel (store_contract c)"
  "keeps rel (store_contract_instance ci)" "keeps rel (store_state_key_value a k v)"
  "keeps rel (delete_state_key_value a k)" "keeps rel (create_event e)"
  by (simp_all add: keeps_relI R_reads R_accounts R_writes)

lemma keeps_state_derived:
  "keeps rel (get_balance a)" "keeps rel (get_nonce a)" "keeps rel (get_contract_owner a)"
  "keeps rel (is_valid_account a)" "keeps rel (create_account (account_new_system a))"
  "keeps rel (find_contract a)" "keeps rel (just_transfer_tokens a b n)"
  using keeps_state_ops(7) [unfolded create_system_account_def]
  by (auto simp: get_balance_def get_nonce_def get_contract_owner_def is_valid_account_def
      find_contract_def just_transfer_tokens_def intro!: rel_rules keeps_state_ops)

lemma keeps_catching:
  "keeps rel m \<Longrightarrow> (\<And>e. keeps rel (h e)) \<Longrightarrow> (\<And>x. keeps rel (k x)) \<Longrightarrow> keeps rel (catching m h k)"
  unfolding catching_def by (auto intro!: rel_rules)

lemmas call_rules = rel_rules keeps_state_ops keeps_state_derived keeps_catching

lemma merge_run: "rel s t \<Longrightarrow> and_then (merge_from t) f s = f () t"
  by (simp add: merge_from_def rel_def merge_grows op_runs)

lemma keeps_on_clone:
  assumes m: "keeps rel m"
    and k: "\<And>x s t r u. rel s t \<Longrightarrow> k x t s = (r, u) \<Longrightarrow> rel s u"
  shows "keeps rel (on_clone m k)"
proof (rule keepsI)
  fix s r u assume run: "on_clone m k s = (r, u)"
  obtain x t where m1: "m s = (x, t)" by fastforce
  note st = keepsD [OF m m1]
  show "rel s u"
  proof (cases x)
    case (Inl e)
    with run m1 show ?thesis by (simp add: on_clone_def frame.frame_refl [OF rel_frame])
  next
    case (Inr y)
    with run m1 have "k y t s = (r, u)" by (simp add: on_clone_def)
    then show ?thesis by (rule k [OF st])
  qed
qed

lemma merge_then:
  assumes "rel s t" and "\<And>x. keeps rel (f x)" and "and_then (merge_from t) f s = (r, u)"
  shows "rel s u"
  using assms keepsD [of rel "f ()" t r u] frame.frame_trans [OF rel_frame] by (simp add: merge_run)

definition keeps_level :: "level \<Rightarrow> bool" where
  "keeps_level l \<longleftrightarrow>
     (\<forall>ca con inst fn args ro. keeps rel (lv_l1xvm l ca con inst fn args ro)) \<and>
     (\<forall>ca con inst fn args ro. keeps rel (lv_evm l ca con inst fn args ro)) \<and>
     (\<forall>ca scheme access code. keeps rel (lv_evm_deployment l ca scheme access code))"

lemma keeps_levelD:
  "keeps_level l \<Longrightarrow> keeps rel (lv_l1xvm l ca con inst fn args ro)"
  "keeps_level l \<Longrightarrow> keeps rel (lv_evm l ca con inst fn args ro)"
  "keeps_level l \<Longrightarrow> keeps rel (lv_evm_deployment l ca scheme access code)"
  by (simp_all add: keeps_level_def)

lemma keeps_callee:
  assumes "keeps_level l"
  shows "keeps rel (case ct of L1XVM \<Rightarrow> lv_l1xvm l ca con inst fn args ro
                             | EVM \<Rightarrow> lv_evm l ca' con inst fn args ro
                             | XTALK \<Rightarrow> returned_nothing)"
  using assms by (cases ct) (auto simp: keeps_levelD returned_nothing_def intro!: rel_rules)

lemma keeps_cim_call_contract:
  assumes "keeps_level l" shows "keeps rel (cim_call_contract l m a fn args g d ro)"
proof -
  have end_: "rel s u"
    if "(case result of
            Trap \<Rightarrow> fail (Failed ''Trap'')
          | Exit reason data \<Rightarrow>
              (case exit_outcome reason of
                 Inl e \<Rightarrow> fail e
               | Inr _ \<Rightarrow> and_then (merge_from t) (\<lambda>_. ok (data, burnt)))) s = (r, u)"
      and "rel s t"
    for s t u r and result :: capture and burnt :: gas
    using that frame.frame_refl [OF rel_frame]
    by (auto simp: merge_run op_runs split: capture.splits sum.splits)
  show ?thesis
    unfolding cim_call_contract_def instance_of_def
    by (auto intro!: call_rules keeps_on_clone keeps_callee assms elim!: end_ split: sum.split)
qed

lemma keeps_manager:
  "keeps rel (cim_storage_read m key)" "keeps rel (cim_storage_remove m key)"
  "keeps rel (cim_storage_write m key v)" "keeps rel (cim_emit_event m v)"
  unfolding cim_storage_read_def cim_storage_remove_def cim_storage_write_def cim_emit_event_def
    instance_of_def
  by (auto intro!: call_rules)

lemma cim_host: assumes "keeps_level l" shows "vm_host (cim_api l m) rel (\<lambda>_ _. True)"
  unfolding vm_host_def
  using rel_frame
  by (auto simp: cim_api_def keeps_manager keeps_state_derived keeps_state_ops
      keeps_cim_call_contract assms keeps_def [of "\<lambda>_ _. True"] frame_def [of "\<lambda>_ _. True"]
      intro!: rel_rules split: prod.split)

lemma keeps_run_internal:
  assumes "keeps_level l"
  shows "keeps rel (run_internal X (cim_api l m) ca code inst fn args ro)"
proof (rule keepsI)
  fix s r u assume run: "run_internal X (cim_api l m) ca code inst fn args ro s = (r, u)"
  have "rel s t" if "execute_program (ch_vm X) (cim_api l m) p (vm, s) = (y, (vm', t))" for p vm y vm' t
    using keepsD [OF vm_host.keeps_execute_program [OF cim_host [OF assms]] that]
    by (auto simp: vm_rel_def)
  then show "rel s u"
    using run frame.frame_refl [OF rel_frame]
    by (auto simp: run_internal_def split: sum.splits prod.splits if_splits)
qed

lemma keeps_l1xvm_run:
  assumes "keeps_level l" shows "keeps rel (l1xvm_run X l ca con inst fn args ro)"
proof (rule keepsI)
  fix s r u assume run: "l1xvm_run X l ca con inst fn args ro s = (r, u)"
  let ?m = "\<lparr>cim_contract_instance = Some inst, cim_account_address = ca_account_address ca,
              cim_context = ca_context ca, cim_env = ca_env ca, cim_readonly = ro,
              cim_call_depth = ca_call_depth ca\<rparr>"
  obtain x t where vm: "run_internal X (cim_api l ?m) ca (con_code con) inst fn args ro s = (x, t)"
    by fastforce
  have st: "rel s t" using keepsD [OF keeps_run_internal [OF assms] vm] .
  show "rel s u"
  proof (cases x)
    case (Inl e)
    with run vm show ?thesis
      by (auto simp: l1xvm_run_def failed_exit_def frame.frame_refl [OF rel_frame] ok_run
          split: if_splits)
  next
    case (Inr y)
    obtain data burnt where y: "y = (data, burnt)" by fastforce
    from run vm Inr y show ?thesis
      unfolding l1xvm_run_def Let_def
      by (simp only: vm sum.case prod.case)
        (erule merge_then [OF st, rotated], auto simp: failed_exit_def intro!: call_rules)
  qed
qed

lemma keeps_l1xvm_function_call:
  assumes "keeps_level l" shows "keeps rel (l1xvm_function_call X l ca con inst fn args ro)"
  unfolding l1xvm_function_call_def failed_exit_def
  by (auto intro!: call_rules keeps_l1xvm_run assms)

lemma keeps_evm_create:
  assumes "keeps_level l" shows "keeps rel (evm_create l m caller scheme v code g)"
proof -
  have deploy: "keeps rel (\<lambda>s. case lv_evm_deployment l ca scheme access code s of
                 (Inr (a, burnt), clone) \<Rightarrow>
                   and_then (merge_from clone)
                     (\<lambda>_. ok (RCreate (Succeed Returned) (Some a) code burnt)) s
               | (Inl e, clone) \<Rightarrow> if e = Panic then (Inl Panic, s)
                                  else ok (RCreate (ExitErr e) None code 0) s)" for ca access
  proof (rule keepsI)
    fix s r u
    assume run: "(case lv_evm_deployment l ca scheme access code s of
                 (Inr (a, burnt), clone) \<Rightarrow>
                   and_then (merge_from clone)
                     (\<lambda>_. ok (RCreate (Succeed Returned) (Some a) code burnt)) s
               | (Inl e, clone) \<Rightarrow> if e = Panic then (Inl Panic, s)
                                  else ok (RCreate (ExitErr e) None code 0) s) = (r, u)"
    obtain x t where d: "lv_evm_deployment l ca scheme access code s = (x, t)" by fastforce
    have "rel s t" using keepsD [OF keeps_levelD(3) [OF assms] d] .
    with run d frame.frame_refl [OF rel_frame] show "rel s u"
      by (auto simp: merge_run op_runs split: sum.splits prod.splits if_splits)
  qed
  show ?thesis
    unfolding evm_create_def Let_def by (auto intro!: call_rules deploy)
qed

lemma keeps_evm_failed: "keeps rel (evm_failed_call X e)"
  unfolding evm_failed_call_def by (rule rel_rules)

lemma keeps_evm_call_contract:
  assumes "keeps_level l" shows "keeps rel (evm_call_contract X l m inst tr data g static ctx)"
proof -
  have end_: "rel s u"
    if "(case result of
            Trap \<Rightarrow> ok RTrap
          | Exit reason out \<Rightarrow>
              and_then (if is_succeed reason then merge_from t else ok ())
                (\<lambda>_. ok (RCall reason out burnt))) s = (r, u)" and "rel s t"
    for s t u r and result :: capture and burnt :: gas
    using that frame.frame_refl [OF rel_frame]
    by (cases result; cases "\<exists>reason out. result = Exit reason out \<and> is_succeed reason")
      (auto simp: merge_run op_runs)
  show ?thesis
    unfolding evm_call_contract_def
    by (auto intro!: call_rules keeps_on_clone keeps_callee keeps_evm_failed assms elim!: end_
        split: sum.split)
qed

lemma keeps_evm_call:
  assumes "keeps_level l" shows "keeps rel (evm_call X l m a tr data g static ctx)"
  unfolding evm_call_def evm_call_missing_def
  by (auto intro!: call_rules keeps_evm_failed keeps_evm_call_contract assms)

lemma keeps_evm_handle:
  assumes "keeps_level l" shows "keeps rel (evm_handle X l m q)"
  using keeps_evm_call [OF assms] keeps_evm_create [OF assms]
  by (cases q) (auto simp: evm_storage_def evm_set_storage_def evm_log_def intro!: call_rules)

lemma keeps_evm_execute:
  assumes "keeps_level l" shows "keeps rel (evm_execute X l m p)"
proof (induction p)
  case (EvmHost q k)
  show ?case
  proof (rule keepsI)
    fix s r u assume run: "evm_execute X l m (EvmHost q k) s = (r, u)"
    obtain x t where q: "evm_handle X l m q s = (x, t)" by fastforce
    have st: "rel s t" using keepsD [OF keeps_evm_handle [OF assms] q] .
    show "rel s u"
    proof (cases x)
      case (Inl e)
      with run q st show ?thesis by simp
    next
      case (Inr y)
      with run q have "evm_execute X l m (k y) t = (r, u)" by simp
      from keepsD [OF EvmHost this] st show ?thesis
        using frame.frame_trans [OF rel_frame] by blast
    qed
  qed
qed (simp_all add: keeps_def frame.frame_refl [OF rel_frame])

lemma keeps_store_evm_contract: "keeps rel (store_evm_contract ca a access code)"
  unfolding store_evm_contract_def by (auto intro!: call_rules)

lemma keeps_merge_if:
  assumes "rel s t" and "\<And>x. keeps rel (f x)"
    and "and_then (if b then merge_from t else ok ()) f s = (r, u)"
  shows "rel s u"
  using assms merge_then [OF assms(1,2)] keepsD [of rel "f ()" s r u]
  by (auto simp: op_runs split: if_splits)

lemma keeps_evm_finish: "keeps rel (evm_finish X ca access ro kind outcome out burnt)"
  unfolding evm_finish_def failed_exit_def
  by (cases kind) (auto intro!: call_rules keeps_store_evm_contract)

lemma keeps_execute_evm_runtime:
  assumes "keeps_level l"
  shows "keeps rel (execute_evm_runtime X l ca access code args ro kind)"
  unfolding execute_evm_runtime_def failed_exit_def Let_def
  apply (intro frame.keeps_if [OF rel_frame] frame.keeps_ok [OF rel_frame] keeps_on_clone
      keeps_evm_execute [OF assms])
  subgoal for x s t r u
    by (cases x) (auto split del: if_split intro: keeps_merge_if keeps_evm_finish)
  done

lemma keeps_evm_function_call:
  assumes "keeps_level l" shows "keeps rel (evm_function_call X l ca con inst fn args ro)"
  unfolding evm_function_call_def failed_exit_def Let_def
  by (auto intro!: call_rules keeps_execute_evm_runtime assms)

lemma keeps_evm_deployment:
  assumes "keeps_level l" shows "keeps rel (evm_deployment X l ca scheme access code)"
  unfolding evm_deployment_def Let_def
  by (auto intro!: call_rules keeps_execute_evm_runtime assms split: capture.split sum.split)

theorem keeps_levels: "keeps_level (levels X n)"
  by (induction n)
    (auto simp: keeps_level_def intro!: rel_rules keeps_l1xvm_function_call keeps_evm_function_call
      keeps_evm_deployment)

lemma keeps_l1xvm_deployment: "keeps rel (l1xvm_deployment X ca scheme access code)"
  unfolding l1xvm_deployment_def Let_def by (auto intro!: call_rules)

lemma keeps_l1xvm_init: "keeps rel (l1xvm_init X (levels X n) ca con args)"
  unfolding l1xvm_init_def Let_def
  by (auto intro!: call_rules keeps_l1xvm_function_call keeps_levels split: capture.split)

theorem keeps_executor:
  "keeps rel (ex_deployment (executor_for X ct) ca scheme access code)"
  "keeps rel (ex_init (executor_for X ct) ca con args)"
  "keeps rel (ex_function_call (executor_for X ct) ca con inst fn args ro)"
  "keeps rel (ex_function_call_read_only (executor_for X ct) ca con inst fn args)"
  by (cases ct; auto simp: l1xvm_executor_def evm_executor_def xtalk_executor_def
      default_executor_def returned_nothing_def
      intro!: rel_rules keeps_l1xvm_deployment keeps_evm_deployment keeps_l1xvm_init
        keeps_l1xvm_function_call keeps_evm_function_call keeps_levels)+

lemma keeps_smart_contract_read_only_call:
  "keeps rel (smart_contract_read_only_call X a fn args g env)"
  unfolding smart_contract_read_only_call_def
  by (auto intro!: call_rules keeps_executor split: capture.split sum.split)

end

section \<open>Instances of the frame\<close>

definition conserves :: "updated_state \<Rightarrow> updated_state \<Rightarrow> bool" where
  "conserves s t \<longleftrightarrow>
     (wf_ledger (ledger_of s) \<longrightarrow>
        wf_ledger (ledger_of t) \<and> total_supply (ledger_of t) = total_supply (ledger_of s))"

lemma conserves_same:
  assumes "l_account (ledger_of t) = l_account (ledger_of s)"
    and "l_pool (ledger_of t) = l_pool (ledger_of s)"
    and "l_stake (ledger_of t) = l_stake (ledger_of s)"
  shows "conserves s t"
  using assms by (simp add: conserves_def wf_ledger_def total_supply_def balance_at_def)

lemma keeps_conserves_reads:
  "reads ledger_of f m \<Longrightarrow> keeps conserves m"
  by (auto simp: keeps_def reads_def obs_def intro!: conserves_same)

lemma conserves_frame: "frame conserves"
  by (auto simp: frame_def conserves_def)

interpretation cs: frame conserves
  by (rule conserves_frame)

lemma keeps_conserves_account:
  "keeps conserves (transfer a b n)"
  "keeps conserves (increment_nonce a)"
  "keeps conserves (create_system_account a)"
proof -
  show "keeps conserves (transfer a b n)"
    unfolding keeps_def conserves_def
  proof (intro allI impI)
    fix s assume wf: "wf_ledger (ledger_of s)"
    then have "transfer_spec a b n (ledger_of s) = (fst (transfer a b n s), ledger_of (snd (transfer a b n s)))"
      by (intro transfer_run) simp_all
    then show "wf_ledger (ledger_of (snd (transfer a b n s))) \<and>
               total_supply (ledger_of (snd (transfer a b n s))) = total_supply (ledger_of s)"
      using transfer_spec_supply [of a b n "ledger_of s"] wf_transfer_spec [OF wf, of a b n] by simp
  qed
  show "keeps conserves (increment_nonce a)"
    unfolding keeps_def conserves_def
  proof (intro allI impI)
    fix s assume wf: "wf_ledger (ledger_of s)"
    have "ledger_of (snd (increment_nonce a s)) = snd (obs ledger_of (increment_nonce a) s)"
      by (simp add: obs_def)
    then show "wf_ledger (ledger_of (snd (increment_nonce a s))) \<and>
               total_supply (ledger_of (snd (increment_nonce a s))) = total_supply (ledger_of s)"
      using wf_accountD [OF wf] wf total_supply_same_balance [of "ledger_of s"]
      by (auto simp: increment_nonce_obs split: sum.splits option.splits)
  qed
  show "keeps conserves (create_system_account a)"
    unfolding keeps_def conserves_def
  proof (intro allI impI)
    fix s assume wf: "wf_ledger (ledger_of s)"
    have "ledger_of (snd (create_system_account a s)) = snd (obs ledger_of (create_system_account a) s)"
      by (simp add: obs_def)
    then show "wf_ledger (ledger_of (snd (create_system_account a s))) \<and>
               total_supply (ledger_of (snd (create_system_account a s))) = total_supply (ledger_of s)"
      using wf total_supply_set_account [of a "account_new_system a" "ledger_of s"]
      by (auto simp: create_system_account_def create_account_obs account_new_system_def balance_at_def
          split: sum.splits)
  qed
qed

lemma keeps_conserves_writes:
  "keeps conserves (store_contract c)" "keeps conserves (store_contract_instance ci)"
  "keeps conserves (store_state_key_value a k v)" "keeps conserves (delete_state_key_value a k)"
  "keeps conserves (create_event e)" "keeps conserves (store_transaction_metadata md)"
  by (auto simp: keeps_def store_contract_def store_contract_instance_def store_state_key_value_def
      delete_state_key_value_def create_event_def store_transaction_metadata_def modify_def
      ledger_of_def intro!: conserves_same)

lemma keeps_conserves_gets:
  "keeps conserves (get_account a)" "keeps conserves (get_contract a)"
  "keeps conserves (get_contract_instance a)" "keeps conserves (get_state_key_value a k)"
  using keeps_conserves_reads [OF kv.get_reads [of "(a, k)"]]
  by (simp_all add: keeps_conserves_reads [OF acc.get_reads] keeps_conserves_reads [OF con.get_reads]
      keeps_conserves_reads [OF inst.get_reads])

interpretation tokens: state_frame conserves
  by (simp add: state_frame_def conserves_frame keeps_conserves_gets keeps_conserves_account
      keeps_conserves_writes)

interpretation cached: state_frame keeps_cache
  by (simp add: state_frame_def ck.frame_axioms create_system_account_def create_account_def
      is_valid_account_def)

section \<open>Enough levels\<close>

text \<open>Two levels that answer every call at depth \<open>d\<close> in the same way.\<close>

definition agree :: "level \<Rightarrow> level \<Rightarrow> nat \<Rightarrow> bool" where
  "agree l k d \<longleftrightarrow>
     (\<forall>ca. unat (ca_call_depth ca) = d \<longrightarrow>
        lv_l1xvm l ca = lv_l1xvm k ca \<and> lv_evm l ca = lv_evm k ca \<and>
        lv_evm_deployment l ca = lv_evm_deployment k ca)"

lemma agreeD:
  assumes "agree l k d" and "unat (ca_call_depth ca) = d"
  shows "lv_l1xvm l ca = lv_l1xvm k ca" "lv_evm l ca = lv_evm k ca"
    "lv_evm_deployment l ca = lv_evm_deployment k ca"
  using assms by (simp_all add: agree_def)

lemma depth_deeper:
  "unat (cim_call_depth m) \<le> 15 \<Longrightarrow>
     unat (ca_call_depth (deeper m a ctx g d)) = Suc (unat (cim_call_depth m))"
  by (simp add: deeper_def unat_word_ariths)

lemma depth_limit: "\<not> ca_call_depth ca > MAX_CROSS_CONTRACT_CALL_DEPTH \<longleftrightarrow> unat (ca_call_depth ca) \<le> 15"
  by (simp add: MAX_CROSS_CONTRACT_CALL_DEPTH_def word_less_nat_alt not_less)

lemma agree_call_contract:
  assumes "agree l k (Suc (unat (cim_call_depth m)))" and "unat (cim_call_depth m) \<le> 15"
  shows "cim_call_contract l m = cim_call_contract k m"
  by (intro ext) (simp add: cim_call_contract_def agreeD [OF assms(1) depth_deeper] assms(2)
      cong: contract_type.case_cong)

lemma agree_api:
  assumes "agree l k (Suc (unat (cim_call_depth m)))" and "unat (cim_call_depth m) \<le> 15"
  shows "cim_api l m = cim_api k m"
  by (simp add: cim_api_def agree_call_contract [OF assms])

lemma agree_l1xvm:
  assumes "agree l k (Suc (unat (ca_call_depth ca)))"
  shows "l1xvm_function_call X l ca = l1xvm_function_call X k ca"
proof (cases "ca_call_depth ca > MAX_CROSS_CONTRACT_CALL_DEPTH")
  case True
  then show ?thesis by (intro ext) (simp add: l1xvm_function_call_def)
next
  case False
  then have "unat (ca_call_depth ca) \<le> 15" by (simp only: depth_limit)
  then have "l1xvm_run X l ca = l1xvm_run X k ca"
    using assms by (intro ext) (simp add: l1xvm_run_def agree_api [of l k])
  then show ?thesis by (intro ext) (simp add: l1xvm_function_call_def)
qed

lemma agree_handle:
  assumes "agree l k (Suc (unat (cim_call_depth m)))" and "unat (cim_call_depth m) \<le> 15"
  shows "evm_handle X l m q = evm_handle X k m q"
proof -
  note agreeD [OF assms(1) depth_deeper, OF assms(2), simp]
  have [simp]: "evm_call_contract X l m = evm_call_contract X k m"
    by (intro ext) (simp add: evm_call_contract_def
        cong: contract_type.case_cong option.case_cong sum.case_cong)
  have [simp]: "evm_create l m = evm_create k m"
  proof -
    have "lv_evm_deployment l (deeper (m\<lparr>cim_env := e\<rparr>) a c g d) =
          lv_evm_deployment k (deeper (m\<lparr>cim_env := e\<rparr>) a c g d)" for e a c g d
      using depth_deeper [of "m\<lparr>cim_env := e\<rparr>" a c g d] assms(2) by (intro agreeD [OF assms(1)]) simp
    then show ?thesis by (intro ext) (simp add: evm_create_def Let_def cong: option.case_cong)
  qed
  have [simp]: "evm_call X l m = evm_call X k m"
    by (intro ext) (auto simp: evm_call_def split: option.split)
  show ?thesis by (cases q) simp_all
qed

lemma agree_execute:
  assumes "agree l k (Suc (unat (cim_call_depth m)))" and "unat (cim_call_depth m) \<le> 15"
  shows "evm_execute X l m p = evm_execute X k m p"
  by (induction p) (auto simp: agree_handle [OF assms] fun_eq_iff split: prod.split sum.split)

lemma agree_runtime:
  assumes "agree l k (Suc (unat (ca_call_depth ca)))"
  shows "execute_evm_runtime X l ca = execute_evm_runtime X k ca"
proof (cases "ca_call_depth ca > MAX_CROSS_CONTRACT_CALL_DEPTH")
  case True
  then show ?thesis by (intro ext) (simp add: execute_evm_runtime_def)
next
  case False
  then have "unat (ca_call_depth ca) \<le> 15" by (simp only: depth_limit)
  then show ?thesis
    using assms by (intro ext) (simp add: execute_evm_runtime_def agree_execute [of l k])
qed

lemma agree_evm:
  assumes "agree l k (Suc (unat (ca_call_depth ca)))"
  shows "evm_function_call X l ca = evm_function_call X k ca"
    "evm_deployment X l ca = evm_deployment X k ca"
  using agree_runtime [of l k ca] agree_runtime [of l k "ca\<lparr>ca_context := c\<rparr>" for c] assms
  by (intro ext; simp add: evm_function_call_def evm_deployment_def)+

lemma agree_step: "agree l k (Suc d) \<Longrightarrow>
  agree \<lparr>lv_l1xvm = l1xvm_function_call X l, lv_evm = evm_function_call X l,
         lv_evm_deployment = evm_deployment X l\<rparr>
        \<lparr>lv_l1xvm = l1xvm_function_call X k, lv_evm = evm_function_call X k,
         lv_evm_deployment = evm_deployment X k\<rparr> d"
  by (auto simp: agree_def [of "\<lparr>lv_l1xvm = _, lv_evm = _, lv_evm_deployment = _\<rparr>"]
      intro!: agree_l1xvm agree_evm)

lemma stopped_beyond:
  assumes "unat (ca_call_depth ca) > 15"
  shows "l1xvm_function_call X l ca = l1xvm_function_call X k ca"
    "evm_function_call X l ca = evm_function_call X k ca"
    "evm_deployment X l ca = evm_deployment X k ca"
proof -
  have "ca_call_depth ca > MAX_CROSS_CONTRACT_CALL_DEPTH"
    using assms by (simp add: MAX_CROSS_CONTRACT_CALL_DEPTH_def word_less_nat_alt)
  then show "l1xvm_function_call X l ca = l1xvm_function_call X k ca"
    "evm_function_call X l ca = evm_function_call X k ca"
    "evm_deployment X l ca = evm_deployment X k ca"
    by (intro ext; simp add: l1xvm_function_call_def evm_function_call_def evm_deployment_def
        execute_evm_runtime_def)+
qed

lemma levels_agree:
  assumes "17 \<le> n + d" and "17 \<le> n' + d" and "0 < n" and "0 < n'"
  shows "agree (levels X n) (levels X n') d"
  using assms
proof (induction n arbitrary: n' d)
  case (Suc n)
  obtain j where n': "n' = Suc j" using Suc.prems by (cases n') auto
  show ?case
  proof (cases "d > 15")
    case True
    then show ?thesis unfolding n' by (auto simp: agree_def intro: stopped_beyond)
  next
    case False
    then have "agree (levels X n) (levels X j) (Suc d)"
      using Suc.prems n' by (intro Suc.IH) auto
    then show ?thesis unfolding n' levels.simps by (rule agree_step)
  qed
qed simp

text \<open>
  C15: The bound on the depth of cross-contract calls ends every call: with the sixteen levels that
  a call at depth 0 can open, each executor has the same result as with any larger number of
  levels, so no run reaches the level that the model leaves undefined.
\<close>

theorem call_depth_bounds_recursion:
  assumes "16 \<le> n" and "ca_call_depth ca = 0"
  shows "l1xvm_function_call X (levels X n) ca = l1xvm_function_call X (levels X 16) ca \<and>
         evm_function_call X (levels X n) ca = evm_function_call X (levels X 16) ca \<and>
         evm_deployment X (levels X n) ca = evm_deployment X (levels X 16) ca"
proof -
  have "agree (levels X n) (levels X 16) (Suc (unat (ca_call_depth ca)))"
    using assms by (intro levels_agree) simp_all
  then show ?thesis by (simp add: agree_l1xvm agree_evm)
qed

section \<open>Contracts and the ledger\<close>

definition demo_chain :: "(bytes \<Rightarrow> evm_context \<Rightarrow> evm_prog) \<Rightarrow> chain" where
  "demo_chain evm =
     \<lparr>ch_ext = \<lparr>x_keccak256 = (\<lambda>_. 0), x_sha256 = (\<lambda>_. 0), x_public_key = (\<lambda>_. None),
                x_signature = (\<lambda>_. None), x_ecdsa_verify = (\<lambda>_ _ _. False), x_json = (\<lambda>_. None),
                x_bincode_tx = (\<lambda>_. None), x_bincode_block = (\<lambda>_. None), x_eth_decode = (\<lambda>_. None),
                x_recoverable = (\<lambda>_ _ _. None), x_recover_ecdsa = (\<lambda>_ _ _. None)\<rparr>,
      ch_vm = demo_ext, ch_rlp_create = (\<lambda>_ _. []),
      ch_elf = (\<lambda>code fn. if code = [] then Inl (Failed ''elf'')
                          else Inr (\<lparr>ov_object_version = CURRENT_OBJECT_VERSION,
                                      ov_expected_rutime_version = CURRENT_RUNTIME_VERSION\<rparr>,
                                    Inr (image_of return_7,
                                         Inr \<lparr>mem_max_pages = 1, mem_buffer = []\<rparr>))),
      ch_syscall_hash = (\<lambda>_. 0),
      ch_utf8 = (\<lambda>_. True), ch_evm = (\<lambda>code args ctx g ro. evm code ctx),
      ch_vm_error = (\<lambda>_. ''''), ch_transact_call = (\<lambda>_. None),
      ch_precompile = (\<lambda>_ _. (Inr (), []))\<rparr>"

definition demo_env :: call_env where
  "demo_env = \<lparr>ce_cluster_address = 0, ce_nonce = 0, ce_transaction_hash = 0, ce_block_number = 0,
               ce_block_hash = 0, ce_block_timestamp = 0\<rparr>"

definition demo_args :: "balance \<Rightarrow> call_args" where
  "demo_args d = \<lparr>ca_account_address = 1, ca_context = context_of 1 1 0, ca_gas_limit = 100,
                  ca_deposit = d, ca_env = demo_env, ca_call_depth = 0\<rparr>"

definition demo_contract :: "bytes \<Rightarrow> contract" where
  "demo_contract code = \<lparr>con_address = 7, con_access = 0, con_type = 0, con_code = code, con_owner = 1\<rparr>"

definition demo_instance :: contract_instance where
  "demo_instance = \<lparr>ci_instance_address = 8, ci_contract_address = 7, ci_owner_address = 1\<rparr>"

lemma conservesD:
  "tokens.rel s t \<Longrightarrow> wf_ledger (ledger_of s) \<Longrightarrow>
     wf_ledger (ledger_of t) \<and> total_supply (ledger_of t) = total_supply (ledger_of s)"
  by (simp add: tokens.rel_def conserves_def)

text \<open>
  C22: No contract creates or destroys tokens. Whatever the code of a contract is, in either virtual
  machine, and whatever it calls, its deployment, its initialization and every call of it leave the
  total supply and the well-formedness of the ledger as they were, whether they succeed or fail.
\<close>

theorem contracts_conserve_supply:
  assumes "wf_ledger (ledger_of s)"
    and "t \<in> {snd (ex_deployment (executor_for X ct) ca scheme access code s),
               snd (ex_init (executor_for X ct) ca con args s),
               snd (ex_function_call (executor_for X ct) ca con inst fn args ro s)}"
  shows "wf_ledger (ledger_of t) \<and> total_supply (ledger_of t) = total_supply (ledger_of s)"
  using assms keeps_snd [OF tokens.keeps_executor(1), of s] keeps_snd [OF tokens.keeps_executor(2), of s]
    keeps_snd [OF tokens.keeps_executor(3), of s] conservesD [of s] by auto

theorem contracts_conserve_supply_witness:
  "total_supply (ledger_of (snd (ex_function_call (executor_for (demo_chain (\<lambda>_ _. EvmTrap 0)) L1XVM)
     (demo_args 30) (demo_contract [1]) demo_instance [] [] False demo_state))) =
   total_supply (ledger_of demo_state)"
  using contracts_conserve_supply [OF demo_wf, where ct = L1XVM] by blast

section \<open>Outcomes of a call\<close>

lemma execute_program_gas:
  assumes "execute_program E api p (vm, h) = (Inr r, (vm', h'))"
  shows "rg_burnt_gas (vm_runtime_gas vm') < rg_gas_limit (vm_runtime_gas vm)"
  using execute_program_same [OF assms] execute_program_exit_gas [OF assms]
  by (simp add: vm_same_def gas_left_0 word_less_nat_alt)

lemma run_internal_gas:
  assumes "run_internal X api ca code inst fn args ro s = (Inr (data, g), t)"
  shows "g < ca_gas_limit ca"
  using assms execute_program_gas [of "ch_vm X" api _ "vm_logic_new ca inst args ro _ _" s]
  by (auto simp: run_internal_def vm_logic_new_def runtime_gas_new_def
      split: sum.splits prod.splits if_splits)

lemma catching_event:
  "catching (create_event e) h k s = k () (snd (create_event e s))"
  by (simp add: catching_def create_event_def attempt_def modify_def)

lemma l1xvm_run_outcome:
  assumes "l1xvm_run X l ca con inst fn args ro s = (Inr (result, g), t)"
  shows "(\<exists>out. result = Exit (Succeed Returned) out \<and> g < ca_gas_limit ca) \<or>
         (\<exists>e out. result = Exit (ExitErr e) out \<and> g = 0 \<and> t = s)"
proof -
  let ?m = "\<lparr>cim_contract_instance = Some inst, cim_account_address = ca_account_address ca,
              cim_context = ca_context ca, cim_env = ca_env ca, cim_readonly = ro,
              cim_call_depth = ca_call_depth ca\<rparr>"
  obtain x u where vm: "run_internal X (cim_api l ?m) ca (con_code con) inst fn args ro s = (x, u)"
    by fastforce
  show ?thesis
  proof (cases x)
    case (Inl e)
    with assms vm show ?thesis
      by (auto simp: l1xvm_run_def failed_exit_def ok_run split: if_splits)
  next
    case (Inr y)
    with assms vm run_internal_gas [of X "cim_api l ?m" ca "con_code con" inst fn args ro s]
    show ?thesis
      by (auto simp: l1xvm_run_def catching_event merge_from_def op_runs
          split: prod.splits if_splits)
  qed
qed

text \<open>
  C23: A call of an L1X contract has one of two outcomes. It returns, having burnt strictly less gas
  than its limit; or it fails, is charged no gas at all whatever it burnt before the failure, and
  leaves the state as it was except for the deposit, which has been attempted before the run and is
  not taken back.
\<close>

theorem l1xvm_call_outcomes:
  assumes "l1xvm_function_call X below ca con inst fn args ro s = (Inr (result, g), t)"
  shows "(\<exists>out. result = Exit (Succeed Returned) out \<and> g < ca_gas_limit ca) \<or>
         (\<exists>e out. result = Exit (ExitErr e) out \<and> g = 0 \<and>
            t = (if unat (ca_call_depth ca) \<le> 15 \<and> \<not> ro \<and> ca_deposit ca > 0
                 then snd (transfer (ca_account_address ca) (ci_instance_address inst) (ca_deposit ca) s)
                 else s))"
proof (cases "ca_call_depth ca > MAX_CROSS_CONTRACT_CALL_DEPTH")
  case True
  moreover from True have "\<not> unat (ca_call_depth ca) \<le> 15" using depth_limit by blast
  ultimately show ?thesis
    using assms by (auto simp: l1xvm_function_call_def failed_exit_def ok_run)
next
  case False
  then have d: "unat (ca_call_depth ca) \<le> 15" by (simp only: depth_limit)
  show ?thesis
  proof (cases "\<not> ro \<and> ca_deposit ca > 0")
    case True
    obtain x u where tr: "transfer (ca_account_address ca) (ci_instance_address inst) (ca_deposit ca) s = (x, u)"
      by fastforce
    show ?thesis
    proof (cases x)
      case (Inl e)
      with assms True False tr d show ?thesis
        by (auto simp: l1xvm_function_call_def catching_def just_transfer_tokens_def attempt_def
            failed_exit_def ok_run fail_run split: if_splits)
    next
      case (Inr y)
      with assms True False tr have "l1xvm_run X below ca con inst fn args ro u = (Inr (result, g), t)"
        by (simp add: l1xvm_function_call_def catching_def just_transfer_tokens_def attempt_def)
      from l1xvm_run_outcome [OF this] True tr d show ?thesis by auto
    qed
  next
    case no_deposit: False
    with assms False have "l1xvm_run X below ca con inst fn args ro s = (Inr (result, g), t)"
      by (simp add: l1xvm_function_call_def)
    from l1xvm_run_outcome [OF this] no_deposit show ?thesis by auto
  qed
qed

theorem l1xvm_call_outcomes_witness:
  "\<exists>result g t. l1xvm_function_call (demo_chain (\<lambda>_ _. EvmTrap 0)) (levels (demo_chain (\<lambda>_ _. EvmTrap 0)) 0)
      (demo_args 0) (demo_contract []) demo_instance [] [] False demo_state = (Inr (result, g), t) \<and>
    g = 0 \<and> t = demo_state"
proof -
  obtain result g t where run: "l1xvm_function_call (demo_chain (\<lambda>_ _. EvmTrap 0))
      (levels (demo_chain (\<lambda>_ _. EvmTrap 0)) 0) (demo_args 0) (demo_contract []) demo_instance [] []
      False demo_state = (Inr (result, g), t)"
    and r: "result = Exit (ExitErr (Failed ''elf'')) []"
    by (simp add: l1xvm_function_call_def demo_args_def MAX_CROSS_CONTRACT_CALL_DEPTH_def
        l1xvm_run_def run_internal_def load_program_def demo_chain_def demo_contract_def failed_exit_def
        error_bytes_def demo_ext_def ok_run)
  from l1xvm_call_outcomes [OF run] run r show ?thesis by (auto simp: demo_args_def)
qed

section \<open>Read-only calls of EVM contracts\<close>

text \<open>
  A read-only call of the contract at 9, which delegates to the contract at 10, which writes to the
  storage of 9.
\<close>

definition static_db :: db where
  "static_db = demo_db
     \<lparr>db_get_contract := (\<lambda>a. Inr \<lparr>con_address = a, con_access = 0, con_type = 1,
                                     con_code = [ucast a], con_owner = 1\<rparr>),
      db_get_contract_instance := (\<lambda>a. Inr \<lparr>ci_instance_address = a, ci_contract_address = a,
                                              ci_owner_address = 1\<rparr>)\<rparr>"

definition delegate :: "bytes \<Rightarrow> evm_context \<Rightarrow> evm_prog" where
  "delegate code ctx =
     (if code = [9]
      then EvmHost (HCall 10 None [] 50 False ctx) (\<lambda>_. EvmExit (Succeed Stopped) [] None 0)
      else EvmHost (HSetStorage (cx_address ctx) 1 5) (\<lambda>_. EvmExit (Succeed Stopped) [] None 0))"


abbreviation static_chain :: chain where
  "static_chain \<equiv> demo_chain delegate"

lemma levels_evm: "0 < n \<Longrightarrow> lv_evm (levels X n) = evm_function_call X (levels X (n - 1))"
  by (cases n) simp_all

lemma merge_step: "keeps grows n \<Longrightarrow> merge s (snd (n s)) = snd (n s)"
  by (simp add: keeps_def merge_grows)

lemma catching_ok: "m s = (Inr x, t) \<Longrightarrow> catching m h k s = k x t"
  by (simp add: catching_def attempt_def)

lemma delegate_writes:
  assumes "\<not> ca_call_depth ca > MAX_CROSS_CONTRACT_CALL_DEPTH" and "code \<noteq> [9]"
  obtains t where "execute_evm_runtime static_chain l ca access code [] False (KindCall b) s =
      (Inr (Exit (Succeed Returned) [], 0), t)"
    and "l_value (ledger_of t) (cx_address (ca_context ca), be_bytes 32 (1 :: 256 word)) =
           Inr (Some (be_bytes 32 (5 :: 256 word)))"
proof -
  let ?store = "store_state_key_value (cx_address (ca_context ca)) (be_bytes 32 (1 :: 256 word))
              (be_bytes 32 (5 :: 256 word))"
  obtain u where st: "?store s = (Inr (), u)"
    by (simp add: store_state_key_value_def modify_def)
  have m: "merge s u = u" using keepsD [OF keeps_put(4) st] by (rule merge_grows)
  have u: "l_value (ledger_of u) (cx_address (ca_context ca), be_bytes 32 (1 :: 256 word)) =
           Inr (Some (be_bytes 32 (5 :: 256 word)))"
    using st by (auto simp: store_state_key_value_def modify_def ledger_of_def new_updated_def)
  have "evm_execute static_chain l \<lparr>cim_contract_instance = None, cim_account_address = ca_account_address ca,
                 cim_context = ca_context ca, cim_env = ca_env ca, cim_readonly = False,
                 cim_call_depth = ca_call_depth ca\<rparr> (delegate code (ca_context ca)) s =
       (Inr (Succeed Stopped, [], None, 0), u)"
    using assms(2) by (simp add: delegate_def evm_set_storage_def catching_ok [of ?store, OF st] ok_run)
  then have "execute_evm_runtime static_chain l ca access code [] False (KindCall b) s =
      (Inr (Exit (Succeed Returned) [], 0),
       snd (create_event (call_event (ca_env ca) [] EVM_EVENT (ca_account_address ca) None) u))"
    using assms(1) m
    by (simp add: execute_evm_runtime_def on_clone_def demo_chain_def evm_outcome_def cleanup_def
        evm_finish_def catching_event merge_from_def op_runs)
  moreover have "l_value (ledger_of (snd (create_event e u))) = l_value (ledger_of u)" for e
    by (simp add: create_event_def modify_def ledger_of_def)
  ultimately show ?thesis
    using u by (intro that [of "snd (create_event (call_event (ca_env ca) [] EVM_EVENT
      (ca_account_address ca) None) u)"]) simp_all
qed

lemma static_ledger:
  "l_instance (ledger_of (updated_state_new static_db)) a =
     Inr \<lparr>ci_instance_address = a, ci_contract_address = a, ci_owner_address = 1\<rparr>"
  "l_contract (ledger_of (updated_state_new static_db)) a =
     Inr \<lparr>con_address = a, con_access = 0, con_type = 1, con_code = [ucast a], con_owner = 1\<rparr>"
  "l_account (ledger_of (updated_state_new static_db)) 1 = Inr ((account_new 1)\<lparr>acc_balance := 100\<rparr>)"
  "l_value (ledger_of (updated_state_new static_db)) (i, k) = Inr None"
  by (simp_all add: ledger_of_def updated_state_new_def static_db_def demo_db_def nested_get_def)

lemma static_lookup:
  assumes "ledger_of s = ledger_of (updated_state_new static_db)"
  obtains t where "get_contract_instance a s =
      (Inr \<lparr>ci_instance_address = a, ci_contract_address = a, ci_owner_address = 1\<rparr>, t)"
      "grows s t" "ledger_of t = ledger_of s"
proof -
  obtain t where t: "get_contract_instance a s = (l_instance (ledger_of s) a, t)" "ledger_of t = ledger_of s"
    by (rule inst.get_run)
  moreover have "grows s t" using keepsD [OF keeps_get(3) t(1)] .
  ultimately show ?thesis
    using assms by (intro that [of t]) (simp_all add: static_ledger)
qed

lemma static_contract:
  assumes "ledger_of s = ledger_of (updated_state_new static_db)"
  obtains t where "get_contract a s =
      (Inr \<lparr>con_address = a, con_access = 0, con_type = 1, con_code = [ucast a], con_owner = 1\<rparr>, t)"
      "grows s t" "ledger_of t = ledger_of s"
proof -
  obtain t where t: "get_contract a s = (l_contract (ledger_of s) a, t)" "ledger_of t = ledger_of s"
    by (rule con.get_run)
  moreover have "grows s t" using keepsD [OF keeps_get(2) t(1)] .
  ultimately show ?thesis
    using assms by (intro that [of t]) (simp_all add: static_ledger)
qed

lemma static_delegates:
  assumes s: "ledger_of s = ledger_of (updated_state_new static_db)"
    and m: "cim_call_depth m = 0" "cx_address ctx = 9" and n: "0 < n"
  obtains t where "evm_handle static_chain (levels static_chain n) m (HCall 10 None [] 50 False ctx) s =
      (Inr (RCall (Succeed Returned) [] 0), t)"
    and "l_value (ledger_of t) (9, be_bytes 32 (1 :: 256 word)) = Inr (Some (be_bytes 32 (5 :: 256 word)))"
    and "grows s t"
proof -
  let ?i = "\<lparr>ci_instance_address = 10, ci_contract_address = 10, ci_owner_address = 1\<rparr> :: contract_instance"
  let ?c = "\<lparr>con_address = 10, con_access = 0, con_type = 1, con_code = [10], con_owner = 1\<rparr> :: contract"
  let ?ca = "deeper m (cx_caller ctx) ctx 50 0"
  obtain s1 where s1: "get_contract_instance 10 s = (Inr ?i, s1)" "grows s s1" "ledger_of s1 = ledger_of s"
    using s by (rule static_lookup)
  obtain s2 where s2: "get_contract 10 s1 = (Inr ?c, s2)" "grows s1 s2" "ledger_of s2 = ledger_of s1"
    using s s1(3) by (auto intro: static_contract [of s1 10])
  have d: "\<not> ca_call_depth ?ca > MAX_CROSS_CONTRACT_CALL_DEPTH"
    by (simp add: deeper_def m MAX_CROSS_CONTRACT_CALL_DEPTH_def)
  obtain t where t: "execute_evm_runtime static_chain (levels static_chain (n - 1)) ?ca 0 [10] [] False
        (KindCall 10) s2 = (Inr (Exit (Succeed Returned) [], 0), t)"
    "l_value (ledger_of t) (9, be_bytes 32 (1 :: 256 word)) = Inr (Some (be_bytes 32 (5 :: 256 word)))"
    using delegate_writes [OF d, of "[10]" "levels static_chain (n - 1)" 0 10 s2] m
    by (auto simp: deeper_def)
  have lv: "lv_evm (levels static_chain n) ?ca ?c ?i [] [] False s2 = (Inr (Exit (Succeed Returned) [], 0), t)"
    using t(1) n by (simp add: levels_evm evm_function_call_def deeper_def)
  have gt: "grows s2 t"
    using keepsD [OF tokens.keeps_levelD(2) [OF tokens.keeps_levels] lv] by (simp add: tokens.rel_def)
  have "evm_handle static_chain (levels static_chain n) m (HCall 10 None [] 50 False ctx) s =
      (Inr (RCall (Succeed Returned) [] 0), t)"
    using s1(1) s2(1) lv merge_grows [OF gt]
    by (simp add: evm_call_def is_precompile_def demo_chain_def catching_def attempt_def
        evm_call_contract_def contract_type_try_from_def on_clone_def merge_from_def op_runs)
  moreover have "grows s t" using s1 s2 gt gr.frame_trans by blast
  ultimately show ?thesis using t(2) by (intro that)
qed

lemma read_only_write:
  obtains t where "smart_contract_read_only_call static_chain 9 [] [] 100 demo_env
          (updated_state_new static_db) = (Inr [], t)"
    "l_value (ledger_of t) (9, be_bytes 32 (1 :: 256 word)) = Inr (Some (be_bytes 32 (5 :: 256 word)))"
proof -
  let ?i = "\<lparr>ci_instance_address = 9, ci_contract_address = 9, ci_owner_address = 1\<rparr> :: contract_instance"
  let ?c = "\<lparr>con_address = 9, con_access = 0, con_type = 1, con_code = [9], con_owner = 1\<rparr> :: contract"
  let ?s = "updated_state_new static_db"
  obtain s1 where s1: "get_contract_instance 9 ?s = (Inr ?i, s1)" "ledger_of s1 = ledger_of ?s"
    by (rule static_lookup [OF refl])
  obtain s2 where s2: "get_contract 9 s1 = (Inr ?c, s2)" "ledger_of s2 = ledger_of s1"
    using s1(2) by (auto intro: static_contract [of s1 9])
  obtain s3 where s3: "get_account 1 s2 = (l_account (ledger_of s2) 1, s3)" "ledger_of s3 = ledger_of s2"
    by (rule acc.get_run)
  have acc: "l_account (ledger_of s2) 1 = Inr ((account_new 1)\<lparr>acc_balance := 100\<rparr>)"
    using s1 s2 by (simp add: static_ledger)
  have s3': "ledger_of s3 = ledger_of ?s" using s1 s2 s3 by simp
  let ?ctx = "context_of 9 0 0"
  let ?env = "demo_env\<lparr>ce_nonce := acc_nonce (account_new 1) + 1, ce_transaction_hash := ce_block_hash demo_env\<rparr>"
  let ?m = "\<lparr>cim_contract_instance = None, cim_account_address = 9, cim_context = ?ctx,
              cim_env = ?env, cim_readonly = True, cim_call_depth = 0\<rparr>"
  obtain t where t: "evm_handle static_chain (levels static_chain 17) ?m (HCall 10 None [] 50 False ?ctx) s3 =
      (Inr (RCall (Succeed Returned) [] 0), t)"
    "l_value (ledger_of t) (9, be_bytes 32 (1 :: 256 word)) = Inr (Some (be_bytes 32 (5 :: 256 word)))"
    "grows s3 t"
    by (rule static_delegates [OF s3', of ?m ?ctx 17]) (simp_all add: context_of_def)
  have prog: "ch_evm static_chain [9] [] ?ctx 100 True =
      EvmHost (HCall 10 None [] 50 False ?ctx) (\<lambda>_. EvmExit (Succeed Stopped) [] None 0)"
    by (simp add: demo_chain_def delegate_def)
  have "ex_function_call_read_only (executor_for static_chain EVM)
                 \<lparr>ca_account_address = 0, ca_context = context_of 0 0 0, ca_gas_limit = 100,
                  ca_deposit = 0, ca_env = demo_env\<lparr>ce_nonce := acc_nonce (account_new 1) + 1\<rparr>,
                  ca_call_depth = 0\<rparr> ?c ?i [] [] s3 = (Inr (Exit (Succeed Returned) [], 0), t)"
    using t(1) merge_grows [OF t(3)]
    by (simp add: evm_executor_def call_levels_def evm_function_call_def execute_evm_runtime_def
        MAX_CROSS_CONTRACT_CALL_DEPTH_def on_clone_def prog evm_outcome_def cleanup_def evm_finish_def
        merge_from_def op_runs del: evm_handle.simps levels.simps)
  then have "smart_contract_read_only_call static_chain 9 [] [] 100 demo_env ?s = (Inr [], t)"
    using s1(1) s2(1) s3(1) acc
    by (simp add: smart_contract_read_only_call_def contract_type_try_from_def del: executor_for.simps)
  then show ?thesis using t(2) by (rule that)
qed

text \<open>
  A read-only call of an EVM contract can write. A write that the contract makes itself is
  refused in every state, but the restriction is not inherited by a nested call that is not itself
  a static call: a contract in a read-only call that delegates to another one changes its storage.
\<close>

theorem read_only_call_can_write:
  "fst (evm_handle X below (m\<lparr>cim_readonly := True\<rparr>) (HSetStorage a k v) s) =
     Inr (RResult (Inl (Failed ''static-call context''))) \<and>
   fst (smart_contract_read_only_call (demo_chain delegate) 9 [] [] 100 demo_env
          (updated_state_new static_db)) = Inr [] \<and>
   l_value (ledger_of (updated_state_new static_db)) (9, be_bytes 32 (1 :: 256 word)) = Inr None \<and>
   l_value (ledger_of (snd (smart_contract_read_only_call (demo_chain delegate) 9 [] [] 100 demo_env
              (updated_state_new static_db)))) (9, be_bytes 32 (1 :: 256 word)) =
     Inr (Some (be_bytes 32 (5 :: 256 word)))"
proof -
  obtain t where "smart_contract_read_only_call static_chain 9 [] [] 100 demo_env
          (updated_state_new static_db) = (Inr [], t)"
    "l_value (ledger_of t) (9, be_bytes 32 (1 :: 256 word)) = Inr (Some (be_bytes 32 (5 :: 256 word)))"
    by (rule read_only_write)
  then show ?thesis by (simp add: evm_set_storage_def ok_run static_ledger)
qed

theorem call_depth_bounds_recursion_witness:
  "l1xvm_function_call (demo_chain delegate) (levels (demo_chain delegate) call_levels) (demo_args 0) =
   l1xvm_function_call (demo_chain delegate) (levels (demo_chain delegate) 16) (demo_args 0)"
  using call_depth_bounds_recursion [of 17 "demo_args 0" "demo_chain delegate"]
  by (simp add: demo_args_def call_levels_def)

end
