(* ===== verification/L1X_Transaction.thy ===== *)
theory L1X_Transaction
  imports L1X_Contracts
begin

text \<open>
  The execution of one transaction (\<^verbatim>\<open>execute/src/execute_transaction.rs\<close>), with
  \<^verbatim>\<open>execute_token.rs\<close> and \<^verbatim>\<open>execute_staking.rs\<close>: the fixed fees, the purchase of gas, the call of the
  executor, the charge for the gas burnt, and the estimate of the fee.

  The state is the pair of the fee manager and \<^verbatim>\<open>UpdatedState\<close>. An early \<^verbatim>\<open>return\<close> of the code reports
  the fee and the gas used so far: \<open>Bail\<close>. The one return that reports 0 for both is \<open>BailFree\<close>. A
  panic of a contract call is \<open>Unwind\<close>. The text of the JSON events is the parameter \<open>J\<close>.
\<close>

section \<open>Tokens and staking\<close>

definition execute_native_token_transfer :: "address \<Rightarrow> address \<Rightarrow> balance \<Rightarrow> unit state_op" where
  "execute_native_token_transfer from_a to_a amount =
     (if is_mint from_a to_a then mint amount to_a else transfer from_a to_a amount)"

definition execute_native_staking_create_pool ::
  "ext \<Rightarrow> address \<Rightarrow> address \<Rightarrow> nonce \<Rightarrow> block_number \<Rightarrow> address option \<Rightarrow> balance option \<Rightarrow>
   balance option \<Rightarrow> balance option \<Rightarrow> balance option \<Rightarrow> block_number option \<Rightarrow> address state_op" where
  "execute_native_staking_create_pool = create_pool"

definition execute_native_staking_stake ::
  "address \<Rightarrow> address \<Rightarrow> block_number \<Rightarrow> balance \<Rightarrow> unit state_op" where
  "execute_native_staking_stake = stake"

definition execute_native_staking_un_stake ::
  "address \<Rightarrow> address \<Rightarrow> block_number \<Rightarrow> balance \<Rightarrow> unit state_op" where
  "execute_native_staking_un_stake = un_stake"

definition execute_native_staking_update_contract ::
  "address \<Rightarrow> address \<Rightarrow> address \<Rightarrow> block_number \<Rightarrow> unit state_op" where
  "execute_native_staking_update_contract p ci account n = update_contract ci p n"

section \<open>Early returns\<close>

datatype tx_exit = Bail error | BailFree error | Unwind

type_synonym 'a tx_op = "(fee_manager \<times> updated_state, tx_exit, 'a) op"

type_synonym tx_value = "(error + unit) \<times> bytes option"

definition on_fee :: "'a fee_op \<Rightarrow> 'a tx_op" where
  "on_fee m = (\<lambda>(fm, s). case m fm of
     (Inl e, fm') \<Rightarrow> (Inl (Bail e), (fm', s))
   | (Inr x, fm') \<Rightarrow> (Inr x, (fm', s)))"

definition tried :: "'a state_op \<Rightarrow> (error + 'a) tx_op" where
  "tried m = (\<lambda>(fm, s). case m s of
     (Inl e, t) \<Rightarrow> (if e = Panic then Inl Unwind else Inr (Inl e), (fm, t))
   | (Inr x, t) \<Rightarrow> (Inr (Inr x), (fm, t)))"

definition or_bail :: "error + 'a \<Rightarrow> 'a tx_op" where
  "or_bail r = (case r of Inl e \<Rightarrow> fail (Bail e) | Inr x \<Rightarrow> ok x)"

definition on_state :: "'a state_op \<Rightarrow> 'a tx_op" where
  "on_state m = and_then (tried m) or_bail"

datatype tx_event =
    NativeTokenTransferred address address balance
  | SmartContractDeployed contract_type address
  | SmartContractInitialized contract_instance

type_synonym json = "tx_event \<Rightarrow> error + bytes"

definition json_event :: "json \<Rightarrow> tx_event \<Rightarrow> tx_value tx_op" where
  "json_event J ev = and_then (or_bail (J ev)) (\<lambda>v. ok (Inr (), Some v))"

definition pay :: "balance \<Rightarrow> unit tx_op" where
  "pay fee = on_fee (update_fee fee)"

definition pay_contract_fee :: "execute_fee \<Rightarrow> contract_type \<Rightarrow> unit tx_op" where
  "pay_contract_fee ef ct = and_then (or_bail (get_contract_fee ef ct)) pay"

section \<open>The kinds of transactions\<close>

definition run_token_transfer ::
  "json \<Rightarrow> execute_fee \<Rightarrow> address \<Rightarrow> address \<Rightarrow> balance \<Rightarrow> tx_value tx_op" where
  "run_token_transfer J ef account recipient amount =
     and_then (pay (get_token_transfer_fee ef)) (\<lambda>_.
     and_then (tried (execute_native_token_transfer account recipient amount)) (\<lambda>r.
       case r of
         Inr _ \<Rightarrow> json_event J (NativeTokenTransferred account recipient amount)
       | Inl e \<Rightarrow> ok (Inl (FailedWith ''Error executing NativeTokenTransfer'' e), None)))"

definition salt_of :: "bytes \<Rightarrow> error + 256 word" where
  "salt_of salt =
     (if length salt = 32 then Inr (le_word (rev salt)) else Inl (Failed ''Incorrect salt''))"

definition create_scheme_of ::
  "chain \<Rightarrow> contract_type \<Rightarrow> address \<Rightarrow> bytes \<Rightarrow> 256 word \<Rightarrow> create_scheme" where
  "create_scheme_of X ct account code salt =
     (if ct = EVM then Legacy account
      else Create2 account (x_keccak256 (ch_ext X) code) salt)"

definition top_call :: "address \<Rightarrow> evm_context \<Rightarrow> gas \<Rightarrow> balance \<Rightarrow> call_env \<Rightarrow> call_args" where
  "top_call account ctx g d env =
     \<lparr>ca_account_address = account, ca_context = ctx, ca_gas_limit = g, ca_deposit = d,
      ca_env = env, ca_call_depth = 0\<rparr>"

definition contract_type_of :: "contract \<Rightarrow> contract_type tx_op" where
  "contract_type_of con = or_bail (contract_type_try_from (con_type con))"

definition burn_or_bail :: "gas \<Rightarrow> unit tx_op" where
  "burn_or_bail g = on_fee (update_gas_and_fee_used g)"

definition run_deployment ::
  "chain \<Rightarrow> json \<Rightarrow> execute_fee \<Rightarrow> address \<Rightarrow> call_env \<Rightarrow> access_type \<Rightarrow> contract_type \<Rightarrow> bytes \<Rightarrow>
   balance \<Rightarrow> bytes \<Rightarrow> tx_value tx_op" where
  "run_deployment X J ef account env access ct code deposit salt =
     and_then (or_bail (salt_of salt)) (\<lambda>h.
     let scheme = create_scheme_of X ct account code h;
         ctx = context_of (create_evm_address X scheme (ce_nonce env)) account deposit in
     and_then (pay_contract_fee ef ct) (\<lambda>_.
     and_then (on_fee get_gas_limit) (\<lambda>g.
     and_then (tried (ex_deployment (executor_for X ct) (top_call account ctx g deposit env)
                        scheme (access_type_to_i8 access) code)) (\<lambda>r.
       case r of
         Inr (a, burnt) \<Rightarrow>
           and_then (burn_or_bail burnt) (\<lambda>_. json_event J (SmartContractDeployed ct a))
       | Inl e \<Rightarrow> ok (Inl (FailedWith ''Error executing SmartContractDeployment'' e), None)))))"

definition run_init ::
  "chain \<Rightarrow> json \<Rightarrow> execute_fee \<Rightarrow> address \<Rightarrow> call_env \<Rightarrow> address \<Rightarrow> bytes \<Rightarrow> balance \<Rightarrow>
   tx_value tx_op" where
  "run_init X J ef account env code_address args deposit =
     and_then (on_state (get_contract code_address)) (\<lambda>con.
     and_then (contract_type_of con) (\<lambda>ct.
     and_then (pay_contract_fee ef ct) (\<lambda>_.
     and_then (on_fee get_gas_limit) (\<lambda>g.
     and_then (tried (ex_init (executor_for X ct)
                        (top_call account (context_of account account deposit) g deposit env)
                        con args)) (\<lambda>r.
       case r of
         Inr (inst, burnt) \<Rightarrow>
           and_then (burn_or_bail burnt) (\<lambda>_. json_event J (SmartContractInitialized inst))
       | Inl e \<Rightarrow> ok (Inl (FailedWith ''Error executing SmartContractInit'' e), None))))))"

definition analyze_reason :: "exit_reason \<Rightarrow> bytes \<Rightarrow> tx_value" where
  "analyze_reason reason out =
     (case reason of
        Succeed _ \<Rightarrow> (Inr (), Some out)
      | ExitErr e \<Rightarrow> (Inl e, Some out)
      | ExitRevert \<Rightarrow> (Inl (Failed ''Reverted''), Some out)
      | ExitFatal e \<Rightarrow> (Inl e, Some out))"

fun reason_of :: "capture \<Rightarrow> exit_reason \<times> bytes" where
  "reason_of (Exit reason out) = (reason, out)"
| "reason_of Trap = (ExitErr (Failed ''execute_transaction: Capture::Trap(resolve)''), [])"

definition run_contract_call ::
  "chain \<Rightarrow> execute_fee \<Rightarrow> address \<Rightarrow> call_env \<Rightarrow> address \<Rightarrow> bytes \<Rightarrow> bytes \<Rightarrow> balance \<Rightarrow>
   tx_value tx_op" where
  "run_contract_call X ef account env a fn args deposit =
     and_then (on_state (get_contract_instance a)) (\<lambda>inst.
     and_then (on_state (get_contract (ci_contract_address inst))) (\<lambda>con.
     and_then (contract_type_of con) (\<lambda>ct.
     and_then (pay_contract_fee ef ct) (\<lambda>_.
     and_then (on_fee get_gas_limit) (\<lambda>g.
     and_then (on_state (ex_function_call (executor_for X ct)
                           (top_call account (context_of a account deposit) g deposit env)
                           con inst fn args False)) (\<lambda>(result, burnt).
     and_then (burn_or_bail burnt) (\<lambda>_.
       ok (case reason_of result of (reason, out) \<Rightarrow> analyze_reason reason out))))))))"

definition instance_is_valid :: "address \<Rightarrow> bool tx_op" where
  "instance_is_valid a =
     and_then (tried (is_valid_contract_instance a)) (\<lambda>r.
       case r of Inl e \<Rightarrow> fail (BailFree e) | Inr valid \<Rightarrow> ok valid)"

definition run_function_call ::
  "chain \<Rightarrow> json \<Rightarrow> execute_fee \<Rightarrow> address \<Rightarrow> call_env \<Rightarrow> address \<Rightarrow> bytes \<Rightarrow> bytes \<Rightarrow> balance \<Rightarrow>
   tx_value tx_op" where
  "run_function_call X J ef account env a fn args deposit =
     and_then (instance_is_valid a) (\<lambda>valid.
       if \<not> valid then run_token_transfer J ef account a deposit
       else run_contract_call X ef account env a fn args deposit)"

text \<open>\<open>report msg ev m\<close>: the value of a staking operation, with the event of its success.\<close>

definition report :: "string \<Rightarrow> ('a \<Rightarrow> bytes option) \<Rightarrow> 'a state_op \<Rightarrow> tx_value tx_op" where
  "report msg ev m =
     and_then (tried m) (\<lambda>r.
       ok (case r of Inr x \<Rightarrow> (Inr (), ev x) | Inl e \<Rightarrow> (Inl (FailedWith msg e), None)))"

definition run_type ::
  "chain \<Rightarrow> json \<Rightarrow> execute_fee \<Rightarrow> address \<Rightarrow> call_env \<Rightarrow> transaction_type \<Rightarrow> tx_value tx_op" where
  "run_type X J ef account env ty =
     (case ty of
        NativeTokenTransfer recipient amount \<Rightarrow> run_token_transfer J ef account recipient amount
      | SmartContractDeployment access ct code deposit salt \<Rightarrow>
          run_deployment X J ef account env access ct code deposit salt
      | SmartContractInit code_address args deposit \<Rightarrow>
          run_init X J ef account env code_address args deposit
      | SmartContractFunctionCall a fn args deposit \<Rightarrow>
          run_function_call X J ef account env a fn args deposit
      | CreateStakingPool ci min_s max_s min_p max_p period \<Rightarrow>
          and_then (pay (get_create_staking_pool_fee ef)) (\<lambda>_.
            report ''Error executing CreateStakingPool'' (\<lambda>a. Some (be_bytes 20 a))
              (execute_native_staking_create_pool (ch_ext X) account (ce_cluster_address env)
                 (ce_nonce env) (ce_block_number env) ci min_s max_s min_p max_p period))
      | Stake p amount \<Rightarrow>
          and_then (pay (get_stake_fee ef)) (\<lambda>_.
            report ''Error executing Stake'' (\<lambda>_. None)
              (execute_native_staking_stake p account (ce_block_number env) amount))
      | UnStake p amount \<Rightarrow>
          and_then (pay (get_unstake_fee ef)) (\<lambda>_.
            report ''Error executing UnStake'' (\<lambda>_. None)
              (execute_native_staking_un_stake p account (ce_block_number env) amount))
      | StakingPoolContract p ci \<Rightarrow>
          and_then (pay (get_staking_pool_contract_fee ef)) (\<lambda>_.
            report ''Error executing StakingPoolContract'' (\<lambda>_. None)
              (execute_native_staking_update_contract p ci account (ce_block_number env))))"

section \<open>ExecuteTransaction::execute\_transaction\<close>

definition tx_body ::
  "chain \<Rightarrow> json \<Rightarrow> transaction \<Rightarrow> address \<Rightarrow> call_env \<Rightarrow> tx_value tx_op" where
  "tx_body X J tx account env =
     (let ef = execute_fee_new tx system_fee_config_new in
      and_then (or_bail (get_transaction_size_fee ef)) (\<lambda>fee.
      and_then (pay fee) (\<lambda>_.
      and_then (or_bail (tx_hash (ch_ext X) tx)) (\<lambda>h.
      and_then (on_state (get_nonce account)) (\<lambda>n.
        run_type X J ef account (env\<lparr>ce_nonce := n, ce_transaction_hash := h\<rparr>) (tx_type tx))))))"

definition execute_transaction ::
  "chain \<Rightarrow> json \<Rightarrow> transaction \<Rightarrow> address \<Rightarrow> call_env \<Rightarrow>
   ((error + unit) \<times> bytes option \<times> balance \<times> gas) state_op" where
  "execute_transaction X J tx account env = (\<lambda>s.
     case fee_manager_new (tx_fee_limit tx) of
       Inl e \<Rightarrow> (Inr (Inl e, None, 0, 0), s)
     | Inr fm0 \<Rightarrow>
        (case tx_body X J tx account env (fm0, s) of
           (Inr (r, ev), (fm, t)) \<Rightarrow> (Inr (r, ev, get_fee_used fm, get_gas_used fm), t)
         | (Inl (Bail e), (fm, t)) \<Rightarrow> (Inr (Inl e, None, get_fee_used fm, get_gas_used fm), t)
         | (Inl (BailFree e), (fm, t)) \<Rightarrow> (Inr (Inl e, None, 0, 0), t)
         | (Inl Unwind, (fm, t)) \<Rightarrow> (Inl Panic, t)))"

section \<open>ExecuteTransaction::execute\_estimate\_fee\<close>

text \<open>The estimate runs contracts with a fixed gas limit and neither transfers nor mints.\<close>

definition estimate_gas :: "execute_fee \<Rightarrow> gas \<Rightarrow> unit tx_op" where
  "estimate_gas ef burnt = pay (convert_from_gas_to_fee ef burnt)"

definition estimate_deployment ::
  "chain \<Rightarrow> execute_fee \<Rightarrow> address \<Rightarrow> call_env \<Rightarrow> access_type \<Rightarrow> contract_type \<Rightarrow> bytes \<Rightarrow> balance \<Rightarrow>
   bytes \<Rightarrow> unit tx_op" where
  "estimate_deployment X ef account env access ct code deposit salt =
     and_then (or_bail (salt_of salt)) (\<lambda>h.
     let scheme = create_scheme_of X ct account code h;
         ctx = context_of (create_evm_address X scheme (ce_nonce env)) account deposit in
     and_then (pay_contract_fee ef ct) (\<lambda>_.
     and_then (on_state (ex_deployment (executor_for X ct)
                  (top_call account ctx READONLY_CALL_DEFAULT_GAS_LIMIT deposit env)
                  scheme (access_type_to_i8 access) code)) (\<lambda>(a, burnt).
       estimate_gas ef burnt)))"

definition estimate_init ::
  "chain \<Rightarrow> execute_fee \<Rightarrow> address \<Rightarrow> call_env \<Rightarrow> address \<Rightarrow> bytes \<Rightarrow> balance \<Rightarrow> unit tx_op" where
  "estimate_init X ef account env code_address args deposit =
     and_then (on_state (get_contract code_address)) (\<lambda>con.
     and_then (contract_type_of con) (\<lambda>ct.
     and_then (pay_contract_fee ef ct) (\<lambda>_.
     and_then (on_state (ex_init (executor_for X ct)
                  (top_call account (context_of account account deposit)
                     READONLY_CALL_DEFAULT_GAS_LIMIT deposit env) con args)) (\<lambda>(inst, burnt).
       estimate_gas ef burnt))))"

definition estimate_function_call ::
  "chain \<Rightarrow> execute_fee \<Rightarrow> address \<Rightarrow> call_env \<Rightarrow> address \<Rightarrow> bytes \<Rightarrow> bytes \<Rightarrow> balance \<Rightarrow> unit tx_op" where
  "estimate_function_call X ef account env a fn args deposit =
     and_then (on_state (is_valid_contract_instance a)) (\<lambda>valid.
       if \<not> valid then pay (get_token_transfer_fee ef)
       else
         and_then (on_state (get_contract_instance a)) (\<lambda>inst.
         and_then (on_state (get_contract (ci_contract_address inst))) (\<lambda>con.
         and_then (contract_type_of con) (\<lambda>ct.
         and_then (pay_contract_fee ef ct) (\<lambda>_.
         and_then (on_state (ex_function_call (executor_for X ct)
                      (top_call account (context_of a account deposit)
                         READONLY_CALL_DEFAULT_GAS_LIMIT deposit env)
                      con inst fn args False)) (\<lambda>(result, burnt).
           estimate_gas ef burnt))))))"

definition estimate_type ::
  "chain \<Rightarrow> execute_fee \<Rightarrow> address \<Rightarrow> call_env \<Rightarrow> transaction_type \<Rightarrow> unit tx_op" where
  "estimate_type X ef account env ty =
     (case ty of
        NativeTokenTransfer recipient amount \<Rightarrow> pay (get_token_transfer_fee ef)
      | SmartContractDeployment access ct code deposit salt \<Rightarrow>
          estimate_deployment X ef account env access ct code deposit salt
      | SmartContractInit code_address args deposit \<Rightarrow>
          estimate_init X ef account env code_address args deposit
      | SmartContractFunctionCall a fn args deposit \<Rightarrow>
          estimate_function_call X ef account env a fn args deposit
      | CreateStakingPool ci min_s max_s min_p max_p period \<Rightarrow>
          and_then (pay (get_create_staking_pool_fee ef)) (\<lambda>_.
          and_then (on_state (execute_native_staking_create_pool (ch_ext X) account
                      (ce_cluster_address env) (ce_nonce env) (ce_block_number env)
                      ci min_s max_s min_p max_p period)) (\<lambda>_. ok ()))
      | Stake p amount \<Rightarrow>
          and_then (pay (get_stake_fee ef)) (\<lambda>_.
            on_state (execute_native_staking_stake p account (ce_block_number env) amount))
      | UnStake p amount \<Rightarrow>
          and_then (pay (get_unstake_fee ef)) (\<lambda>_.
            on_state (execute_native_staking_un_stake p account (ce_block_number env) amount))
      | StakingPoolContract p ci \<Rightarrow>
          and_then (pay (get_staking_pool_contract_fee ef)) (\<lambda>_.
            on_state (execute_native_staking_update_contract p ci account (ce_block_number env))))"

definition estimate_body :: "chain \<Rightarrow> transaction \<Rightarrow> address \<Rightarrow> call_env \<Rightarrow> unit tx_op" where
  "estimate_body X tx account env =
     and_then (on_state (increment_nonce account)) (\<lambda>_.
      let ef = execute_fee_new tx system_fee_config_new in
      and_then (or_bail (get_transaction_size_fee ef)) (\<lambda>fee.
      and_then (pay fee) (\<lambda>_.
      and_then (or_bail (tx_hash (ch_ext X) tx)) (\<lambda>h.
      and_then (on_state (get_nonce account)) (\<lambda>n.
        estimate_type X ef account (env\<lparr>ce_nonce := n, ce_transaction_hash := h\<rparr>) (tx_type tx))))))"

definition execute_estimate_fee ::
  "chain \<Rightarrow> transaction \<Rightarrow> address \<Rightarrow> call_env \<Rightarrow> (balance + balance) state_op" where
  "execute_estimate_fee X tx account env = (\<lambda>s.
     case fee_manager_new (tx_fee_limit tx) of
       Inl e \<Rightarrow> (Inr (Inl 0), s)
     | Inr fm0 \<Rightarrow>
        (case estimate_body X tx account env (fm0, s) of
           (Inr _, (fm, t)) \<Rightarrow> (Inr (Inr (get_fee_used fm)), t)
         | (Inl Unwind, (fm, t)) \<Rightarrow> (Inl Panic, t)
         | (Inl _, (fm, t)) \<Rightarrow> (Inr (Inl (get_fee_used fm)), t)))"

section \<open>What every transaction keeps\<close>

definition tx_rel ::
  "(updated_state \<Rightarrow> updated_state \<Rightarrow> bool) \<Rightarrow> fee_manager \<times> updated_state \<Rightarrow>
   fee_manager \<times> updated_state \<Rightarrow> bool" where
  "tx_rel Q = (\<lambda>(fm, s) (fm', s'). fm_le fm fm' \<and> Q s s')"

lemma tx_rel_frame: "frame Q \<Longrightarrow> frame (tx_rel Q)"
  using fml.frame_axioms by (auto simp: frame_def tx_rel_def)

lemma keeps_on_fee: "frame Q \<Longrightarrow> keeps fm_le m \<Longrightarrow> keeps (tx_rel Q) (on_fee m)"
  by (auto simp: keeps_def tx_rel_def on_fee_def frame_def split: prod.splits sum.splits)
    (metis snd_conv)+

lemma keeps_tried: "keeps Q m \<Longrightarrow> keeps (tx_rel Q) (tried m)"
  by (auto simp: keeps_def tx_rel_def tried_def fml.frame_refl split: prod.splits sum.splits)
    (metis snd_conv)+

lemma execute_transaction_rel:
  assumes "frame Q" and "keeps (tx_rel Q) (tx_body X J tx account env)"
  shows "keeps Q (execute_transaction X J tx account env)"
proof (rule keepsI)
  fix s r t assume run: "execute_transaction X J tx account env s = (r, t)"
  have "Q s u" if "tx_body X J tx account env (fm, s) = (x, (fm', u))" for fm x fm' u
    using keepsD [OF assms(2) that] by (simp add: tx_rel_def)
  with run show "Q s t"
    using frame.frame_refl [OF assms(1)]
    by (auto simp: execute_transaction_def split: sum.splits prod.splits tx_exit.splits)
qed

text \<open>
  A relation that the operations of the state available to a transaction of \<open>account\<close> keep.
\<close>

locale tx_frame = state_frame +
  fixes account :: address
  assumes R_token: "keeps R (execute_native_token_transfer account r n)"
    and R_staking:
      "keeps R (create_pool Y account c nn bn cio mns mxs mnp mxp per)"
      "keeps R (stake p account bn n)" "keeps R (un_stake p account bn n)"
      "keeps R (update_contract ci p bn)"
begin

lemma pair_frame: "frame (tx_rel rel)"
  by (rule tx_rel_frame [OF rel_frame])

lemmas tx_rules = frame.keeps_rules [OF pair_frame]

lemma keeps_or_bail: "keeps (tx_rel rel) (or_bail r)"
  unfolding or_bail_def by (auto intro!: tx_rules)

lemma keeps_on_state: "keeps rel m \<Longrightarrow> keeps (tx_rel rel) (on_state m)"
  unfolding on_state_def by (auto intro!: tx_rules keeps_tried keeps_or_bail)

lemma keeps_pay: "keeps (tx_rel rel) (pay fee)"
  unfolding pay_def by (rule keeps_on_fee [OF rel_frame]) simp

lemma keeps_burn_or_bail: "keeps (tx_rel rel) (burn_or_bail g)"
  unfolding burn_or_bail_def by (rule keeps_on_fee [OF rel_frame]) simp

lemma keeps_gas_limit: "keeps (tx_rel rel) (on_fee get_gas_limit)"
  by (rule keeps_on_fee [OF rel_frame]) simp

lemma keeps_json: "keeps (tx_rel rel) (json_event J ev)"
  unfolding json_event_def by (auto intro!: tx_rules keeps_or_bail)

lemma keeps_pay_contract_fee: "keeps (tx_rel rel) (pay_contract_fee ef ct)"
  unfolding pay_contract_fee_def by (auto intro!: tx_rules keeps_or_bail keeps_pay)

lemma keeps_report: "keeps rel m \<Longrightarrow> keeps (tx_rel rel) (report msg ev m)"
  unfolding report_def by (auto intro!: tx_rules keeps_tried)

lemma keeps_contract_type_of: "keeps (tx_rel rel) (contract_type_of con)"
  unfolding contract_type_of_def by (rule keeps_or_bail)

lemma keeps_token: "keeps rel (execute_native_token_transfer account r n)"
  by (rule keeps_relI [OF _ R_token]) (simp add: execute_native_token_transfer_def)

lemma keeps_staking_ops:
  "keeps rel (execute_native_staking_create_pool Y account c nn bn cio mns mxs mnp mxp per)"
  "keeps rel (execute_native_staking_stake p account bn n)"
  "keeps rel (execute_native_staking_un_stake p account bn n)"
  "keeps rel (execute_native_staking_update_contract p ci account bn)"
  unfolding execute_native_staking_create_pool_def execute_native_staking_stake_def
    execute_native_staking_un_stake_def execute_native_staking_update_contract_def
  by (simp_all add: keeps_relI R_staking)

lemma keeps_valid_instance: "keeps rel (is_valid_contract_instance a)"
  unfolding is_valid_contract_instance_def by (auto intro!: call_rules)

lemmas run_rules =
  tx_rules keeps_tried keeps_on_state keeps_or_bail keeps_pay keeps_burn_or_bail keeps_gas_limit
  keeps_json keeps_pay_contract_fee keeps_report keeps_contract_type_of keeps_token
  keeps_staking_ops keeps_valid_instance keeps_state_ops keeps_state_derived keeps_executor

lemma keeps_run_token_transfer: "keeps (tx_rel rel) (run_token_transfer J ef account r n)"
  unfolding run_token_transfer_def by (auto intro!: run_rules split: sum.split)

lemma keeps_run_deployment:
  "keeps (tx_rel rel) (run_deployment X J ef account env access ct code d salt)"
  unfolding run_deployment_def Let_def by (auto intro!: run_rules split: sum.split prod.split)

lemma keeps_run_init: "keeps (tx_rel rel) (run_init X J ef account env ca args d)"
  unfolding run_init_def by (auto intro!: run_rules split: sum.split prod.split)

lemma keeps_run_contract_call:
  "keeps (tx_rel rel) (run_contract_call X ef account env a fn args d)"
  unfolding run_contract_call_def by (auto intro!: run_rules split: prod.split)

lemma keeps_run_function_call:
  "keeps (tx_rel rel) (run_function_call X J ef account env a fn args d)"
  unfolding run_function_call_def instance_is_valid_def
  by (auto intro!: run_rules keeps_run_token_transfer keeps_run_contract_call split: sum.split)

lemma keeps_run_type: "keeps (tx_rel rel) (run_type X J ef account env ty)"
  by (cases ty) (auto simp: run_type_def intro!: run_rules keeps_run_token_transfer
      keeps_run_deployment keeps_run_init keeps_run_function_call)

lemma keeps_tx_body: "keeps (tx_rel rel) (tx_body X J tx account env)"
  unfolding tx_body_def Let_def by (auto intro!: run_rules keeps_run_type)

theorem keeps_execute_transaction: "keeps rel (execute_transaction X J tx account env)"
  by (rule execute_transaction_rel [OF rel_frame keeps_tx_body])

lemma keeps_estimate_gas: "keeps (tx_rel rel) (estimate_gas ef g)"
  unfolding estimate_gas_def by (rule keeps_pay)

lemma keeps_estimate_type: "keeps (tx_rel rel) (estimate_type X ef account env ty)"
  by (cases ty)
    (auto simp: estimate_type_def estimate_deployment_def estimate_init_def
      estimate_function_call_def Let_def intro!: run_rules keeps_estimate_gas split: prod.split)

lemma keeps_estimate_body: "keeps (tx_rel rel) (estimate_body X tx account env)"
  unfolding estimate_body_def Let_def by (auto intro!: run_rules keeps_estimate_type)

end

section \<open>Instances\<close>

lemma keeps_conserves_spec:
  assumes "\<And>s. wf_ledger (ledger_of s) \<Longrightarrow> snd (obs ledger_of m s) = g (ledger_of s)"
    and "\<And>L. wf_ledger L \<Longrightarrow> wf_ledger (g L) \<and> total_supply (g L) = total_supply L"
  shows "keeps conserves m"
  unfolding keeps_def conserves_def
proof (intro allI impI)
  fix s assume wf: "wf_ledger (ledger_of s)"
  then have "ledger_of (snd (m s)) = g (ledger_of s)" using assms(1) [of s] by (simp add: obs_def)
  with assms(2) [OF wf] show "wf_ledger (ledger_of (snd (m s))) \<and>
      total_supply (ledger_of (snd (m s))) = total_supply (ledger_of s)" by simp
qed

lemma stake_spec_supply:
  assumes "wf_ledger L"
  shows "wf_ledger (snd (stake_spec p a n amount L)) \<and>
         total_supply (snd (stake_spec p a n amount L)) = total_supply L"
proof -
  obtain r L1 where tr: "transfer_spec a p amount L = (r, L1)" by fastforce
  have L1: "wf_ledger L1" "total_supply L1 = total_supply L"
    using wf_transfer_spec [OF assms, of a p amount] transfer_spec_supply [of a p amount L] tr by simp_all
  have sa: "sa_account_address (staker L a p) = a" "sa_pool_address (staker L a p) = p"
    using staker_addresses [OF assms] by simp_all
  show ?thesis
    using assms L1 sa wf_poolD [OF assms] tr
    by (auto simp: stake_spec_def Let_def split: sum.splits)
qed

lemma un_stake_spec_supply:
  assumes "wf_ledger L"
  shows "wf_ledger (snd (un_stake_spec p a n amount L)) \<and>
         total_supply (snd (un_stake_spec p a n amount L)) = total_supply L"
  using assms wf_poolD [OF assms] wf_stakeD [OF assms]
  by (auto simp: un_stake_spec_def Let_def transfer_spec_supply intro!: wf_transfer_spec
      split: sum.splits)

lemma conserves_pool:
  assumes "sp_pool_address w = p"
  shows "keeps conserves (modify (\<lambda>s. s\<lparr>staking_pools := (staking_pools s)(p \<mapsto> Updated (Some w))\<rparr>))"
proof -
  have "ledger_of (s\<lparr>staking_pools := (staking_pools s)(p \<mapsto> Updated (Some w))\<rparr>) =
        set_pool p w (ledger_of s)" for s
    by (auto simp: ledger_of_def set_pool_def)
  with assms show ?thesis by (simp add: keeps_def modify_def conserves_def)
qed

lemma update_contract_obs:
  "obs ledger_of (update_contract ci p n) s =
     (case l_pool (ledger_of s) p of
        Inl e \<Rightarrow> (Inl e, ledger_of s)
      | Inr w \<Rightarrow> (Inr (), set_pool p (w\<lparr>sp_contract_instance_address := Some ci,
                                           sp_updated_block_number := n\<rparr>) (ledger_of s)))"
  by (simp add: update_contract_def obs_simps split: sum.splits)

lemma keeps_conserves_staking:
  "keeps conserves (stake p a bn n)"
  "keeps conserves (un_stake p a bn n)"
  "keeps conserves (update_contract ci p bn)"
  "keeps conserves (create_pool Y a c nn bn cio mns mxs mnp mxp per)"
proof -
  show "keeps conserves (stake p a bn n)"
    by (rule keeps_conserves_spec [where g = "\<lambda>L. snd (stake_spec p a bn n L)"])
      (simp_all add: stake_obs stake_spec_supply)
  show "keeps conserves (un_stake p a bn n)"
    by (rule keeps_conserves_spec [where g = "\<lambda>L. snd (un_stake_spec p a bn n L)"])
      (simp_all add: un_stake_obs un_stake_spec_supply)
  show "keeps conserves (update_contract ci p bn)"
    by (rule keeps_conserves_spec [where g = "\<lambda>L. case l_pool L p of Inl e \<Rightarrow> L
          | Inr w \<Rightarrow> set_pool p (w\<lparr>sp_contract_instance_address := Some ci,
                                     sp_updated_block_number := bn\<rparr>) L"])
      (auto simp: update_contract_obs wf_poolD split: sum.splits)
  show "keeps conserves (create_pool Y a c nn bn cio mns mxs mnp mxp per)"
    unfolding create_pool_def Let_def
    by (auto intro!: cs.keeps_rules conserves_pool keeps_conserves_account simp: staking_pool_new_def)
qed

definition supply_le :: "updated_state \<Rightarrow> updated_state \<Rightarrow> bool" where
  "supply_le s t \<longleftrightarrow>
     (wf_ledger (ledger_of s) \<longrightarrow>
        wf_ledger (ledger_of t) \<and> total_supply (ledger_of s) \<le> total_supply (ledger_of t))"

lemma supply_le_frame: "frame supply_le"
  by (auto simp: frame_def supply_le_def)

lemma keeps_supply_le: "keeps conserves m \<Longrightarrow> keeps supply_le m"
  by (auto simp: keeps_def supply_le_def conserves_def)

lemma keeps_supply_le_mint: "keeps supply_le (mint n a)"
  unfolding keeps_def supply_le_def
proof (intro allI impI)
  fix s assume wf: "wf_ledger (ledger_of s)"
  have "ledger_of (snd (mint n a s)) = snd (obs ledger_of (mint n a) s)" by (simp add: obs_def)
  moreover have "total_supply (ledger_of s) \<le> total_supply (set_account a (v\<lparr>acc_balance := b\<rparr>) (ledger_of s))"
    if "l_account (ledger_of s) a = Inr v" "checked_add (acc_balance v) n = Some b" for v b
  proof -
    have "unat (acc_balance v) \<le> unat b" using that(2) by (auto simp: checked_simps)
    then show ?thesis
      using total_supply_set_account [of a "v\<lparr>acc_balance := b\<rparr>" "ledger_of s"] that(1)
      by (simp add: balance_at_def)
  qed
  ultimately show "wf_ledger (ledger_of (snd (mint n a s))) \<and>
      total_supply (ledger_of s) \<le> total_supply (ledger_of (snd (mint n a s)))"
    using wf wf_accountD [OF wf] by (auto simp: mint_obs split: sum.splits option.splits)
qed

lemma supply_le_state: "state_frame supply_le"
  by (simp add: state_frame_def supply_le_frame keeps_supply_le keeps_conserves_gets
      keeps_conserves_account keeps_conserves_writes)

lemma cache_modify_pool [simp]:
  "keeps keeps_cache (modify (\<lambda>s. s\<lparr>staking_pools := (staking_pools s)(p \<mapsto> w)\<rparr>))"
  by (simp add: keeps_def keeps_cache_def cache_ok_def modify_def)

interpretation tx_cached: tx_frame keeps_cache account for account
  by (simp add: tx_frame_def tx_frame_axioms_def cached.state_frame_axioms
      execute_native_token_transfer_def create_pool_def Let_def update_contract_def
      create_system_account_def create_account_def is_valid_account_def)

interpretation tx_supply: tx_frame supply_le account for account
  by (simp add: tx_frame_def tx_frame_axioms_def supply_le_state keeps_supply_le
      keeps_conserves_staking execute_native_token_transfer_def keeps_supply_le_mint
      keeps_conserves_account)

lemma tx_conserves: "account \<noteq> MINT_MASTER_ADDRESS \<Longrightarrow> tx_frame conserves account"
  by (simp add: tx_frame_def tx_frame_axioms_def tokens.state_frame_axioms
      keeps_conserves_staking execute_native_token_transfer_def is_mint_def
      keeps_conserves_account)

section \<open>Solvency of staking pools\<close>

text \<open>
  A step keeps the pool \<open>q\<close> solvent: the stakes recorded for it sum to at most its balance.
\<close>

definition keeps_solvent :: "address \<Rightarrow> updated_state \<Rightarrow> updated_state \<Rightarrow> bool" where
  "keeps_solvent q s t \<longleftrightarrow>
     (wf_ledger (ledger_of s) \<and> solvent q (ledger_of s) \<longrightarrow>
        wf_ledger (ledger_of t) \<and> solvent q (ledger_of t))"

lemma solvent_frame: "frame (keeps_solvent q)"
  by (auto simp: frame_def keeps_solvent_def)

lemma pool_stake_set_account [simp]: "pool_stake (set_account a v L) q = pool_stake L q"
  by (simp add: pool_stake_def staked_at_def)

lemma solventI:
  assumes "keeps supply_le m"
    and "\<And>s. wf_ledger (ledger_of s) \<Longrightarrow> solvent q (ledger_of s) \<Longrightarrow> solvent q (snd (obs ledger_of m s))"
  shows "keeps (keeps_solvent q) m"
  using assms by (simp add: keeps_def supply_le_def keeps_solvent_def obs_def)

lemma solvent_reads: "keeps supply_le m \<Longrightarrow> reads ledger_of f m \<Longrightarrow> keeps (keeps_solvent q) m"
  by (rule solventI) (simp_all add: reads_def)

lemma solvent_set_account:
  "solvent q L \<Longrightarrow> balance_at L q \<le> balance_at (set_account a v L) q \<Longrightarrow> solvent q (set_account a v L)"
  by (simp add: solvent_def)

lemma solvent_nonce: "keeps (keeps_solvent q) (increment_nonce a)"
  by (rule solventI)
    (auto simp: keeps_supply_le keeps_conserves_account increment_nonce_obs balance_at_def
      dest: wf_accountD intro!: solvent_set_account split: sum.splits option.splits)

lemma solvent_mint: "keeps (keeps_solvent q) (mint n a)"
  by (rule solventI)
    (auto simp: keeps_supply_le_mint mint_obs balance_at_def checked_simps
      dest: wf_accountD intro!: solvent_set_account split: sum.splits option.splits)

lemma solvent_transfer:
  assumes "a \<noteq> q" shows "keeps (keeps_solvent q) (transfer a b n)"
proof (rule solventI)
  fix s assume wf: "wf_ledger (ledger_of s)" and sol: "solvent q (ledger_of s)"
  obtain r L where L: "transfer_spec a b n (ledger_of s) = (r, L)" by fastforce
  with sol show "solvent q (snd (obs ledger_of (transfer a b n) s))"
    using transfer_spec_pool_stake [OF L] transfer_spec_balance_mono [OF L, of q] assms
    by (simp add: transfer_obs [OF wf] solvent_def)
qed (simp add: keeps_supply_le keeps_conserves_account)

lemma solvent_staking:
  assumes "a \<noteq> q"
  shows "keeps (keeps_solvent q) (stake p a bn n)" and "keeps (keeps_solvent q) (un_stake p a bn n)"
proof -
  show "keeps (keeps_solvent q) (stake p a bn n)"
    by (rule solventI)
      (simp_all add: keeps_supply_le keeps_conserves_staking stake_obs
        stake_spec_solvent [OF prod.collapse [symmetric] _ assms])
  show "keeps (keeps_solvent q) (un_stake p a bn n)"
    by (rule solventI)
      (simp_all add: keeps_supply_le keeps_conserves_staking un_stake_obs
        un_stake_spec_solvent [OF prod.collapse [symmetric] _ assms])
qed

lemma solvent_same:
  assumes "keeps supply_le m"
    and "\<And>s. l_account (ledger_of (snd (m s))) = l_account (ledger_of s)"
    and "\<And>s. l_stake (ledger_of (snd (m s))) = l_stake (ledger_of s)"
  shows "keeps (keeps_solvent q) m"
  using assms(1)
  by (rule solventI) (simp add: solvent_def pool_stake_def staked_at_def balance_at_def obs_def assms(2,3))


lemma solvent_ops:
  "keeps (keeps_solvent q) (get_account a)"
  "keeps (keeps_solvent q) (store_transaction_metadata md)"
  "keeps (keeps_solvent q) (update_contract ci p bn)"
  "keeps (keeps_solvent q) (create_system_account a)"
proof -
  show "keeps (keeps_solvent q) (get_account a)"
    using acc.get_reads by (rule solvent_reads [OF keeps_supply_le [OF keeps_conserves_gets(1)]])
  show "keeps (keeps_solvent q) (store_transaction_metadata md)"
    by (rule solvent_same [OF keeps_supply_le [OF keeps_conserves_writes(6)]])
      (simp_all add: store_transaction_metadata_def modify_def ledger_of_def)
  show "keeps (keeps_solvent q) (update_contract ci p bn)"
    by (rule solventI)
      (auto simp: keeps_supply_le keeps_conserves_staking update_contract_obs solvent_def split: sum.splits)
  show "keeps (keeps_solvent q) (create_system_account a)"
    by (rule solventI [OF keeps_supply_le [OF keeps_conserves_account(3)]])
      (auto simp: create_system_account_def create_account_obs account_new_system_def
        balance_at_def intro!: solvent_set_account split: sum.splits)
qed

lemma solvent_create_pool: "keeps (keeps_solvent q) (create_pool Y a c nn bn cio mns mxs mnp mxp per)"
proof -
  have pool: "keeps (keeps_solvent q)
      (modify (\<lambda>s. s\<lparr>staking_pools := (staking_pools s)(p \<mapsto> Updated (Some w))\<rparr>))"
    if "sp_pool_address w = p" for p w
    by (rule solvent_same [OF keeps_supply_le [OF conserves_pool [OF that]]])
      (simp_all add: modify_def ledger_of_def)
  show ?thesis
    unfolding create_pool_def Let_def
    by (auto intro!: frame.keeps_rules [OF solvent_frame] solvent_ops pool simp: staking_pool_new_def)
qed

text \<open>The transactions that do not run a contract: transfers and the staking operations.\<close>

definition runs_no_contract :: "transaction_type \<Rightarrow> bool" where
  "runs_no_contract ty =
     (case ty of
        SmartContractDeployment _ _ _ _ _ \<Rightarrow> False
      | SmartContractInit _ _ _ \<Rightarrow> False
      | SmartContractFunctionCall _ _ _ _ \<Rightarrow> False
      | _ \<Rightarrow> True)"

lemma solvent_tx_body:
  assumes "account \<noteq> q" and "runs_no_contract (tx_type tx)"
  shows "keeps (tx_rel (keeps_solvent q)) (tx_body X J tx account env)"
proof -
  note rules = frame.keeps_rules [OF tx_rel_frame [OF solvent_frame]]
  have bail: "keeps (tx_rel (keeps_solvent q)) (or_bail r)" for r :: "error + 'a"
    unfolding or_bail_def by (auto intro!: rules)
  have pay: "keeps (tx_rel (keeps_solvent q)) (pay fee)" for fee
    unfolding pay_def by (rule keeps_on_fee [OF solvent_frame]) simp
  have rep: "keeps (tx_rel (keeps_solvent q)) (report msg ev m)"
    if "keeps (keeps_solvent q) m" for msg and ev :: "'b \<Rightarrow> bytes option" and m
    unfolding report_def by (auto intro!: rules keeps_tried that)
  have nonce: "keeps (keeps_solvent q) (get_nonce account)"
    unfolding get_nonce_def by (auto intro!: frame.keeps_rules [OF solvent_frame] solvent_ops)
  have token: "keeps (keeps_solvent q) (execute_native_token_transfer account b n)" for b n
    using assms(1) by (simp add: execute_native_token_transfer_def solvent_mint solvent_transfer)
  have json: "keeps (tx_rel (keeps_solvent q)) (json_event J ev)" for ev
    unfolding json_event_def by (auto intro!: rules bail)
  have "keeps (tx_rel (keeps_solvent q)) (run_type X J ef account e (tx_type tx))" for ef e
    using assms(2)
    by (cases "tx_type tx")
      (auto simp: runs_no_contract_def run_type_def run_token_transfer_def
        execute_native_staking_create_pool_def execute_native_staking_stake_def execute_native_staking_un_stake_def
        execute_native_staking_update_contract_def
        intro!: rules pay rep json token keeps_tried solvent_create_pool solvent_ops
          solvent_staking [OF assms(1)] split: sum.split)
  then show ?thesis
    unfolding tx_body_def Let_def on_state_def by (auto intro!: rules bail pay keeps_tried nonce)
qed

lemma solvent_execute:
  "account \<noteq> q \<Longrightarrow> runs_no_contract (tx_type tx) \<Longrightarrow>
     keeps (keeps_solvent q) (execute_transaction X J tx account env)"
  by (rule execute_transaction_rel [OF solvent_frame solvent_tx_body])

lemma grows_execute: "keeps grows (execute_transaction X J tx account env)"
  and cache_execute: "keeps keeps_cache (execute_transaction X J tx account env)"
  using tx_cached.keeps_execute_transaction by (simp_all add: keeps_def cached.rel_def)

lemma supply_execute: "keeps supply_le (execute_transaction X J tx account env)"
  using tx_supply.keeps_execute_transaction by (simp add: keeps_def tx_supply.rel_def)

lemma conserves_execute:
  assumes "account \<noteq> MINT_MASTER_ADDRESS"
  shows "keeps conserves (execute_transaction X J tx account env)"
  using tx_frame.keeps_execute_transaction [OF tx_conserves [OF assms]]
  by (simp add: keeps_def state_frame.rel_def [OF tokens.state_frame_axioms])

section \<open>Properties\<close>

lemma tx_body_fee:
  assumes "fee_manager_new limit = Inr fm" and "tx_body X J tx account env (fm, s) = (x, (fm', t))"
  shows "unat (get_fee_used fm') \<le> unat limit"
proof -
  have "fm_le fm fm'" using keepsD [OF tx_cached.keeps_tx_body assms(2)] by (simp add: tx_rel_def)
  with fm_ok_new [OF assms(1)] have "fm_ok fm'" "fm_fee_limit fm' = limit"
    by (auto simp: fm_le_def intro: fm_ok_le)
  then show ?thesis by (simp add: unat_get_fee_used)
qed

lemma estimate_body_fee:
  assumes "fee_manager_new limit = Inr fm" and "estimate_body X tx account env (fm, s) = (x, (fm', t))"
  shows "unat (get_fee_used fm') \<le> unat limit"
proof -
  have "fm_le fm fm'" using keepsD [OF tx_cached.keeps_estimate_body assms(2)] by (simp add: tx_rel_def)
  with fm_ok_new [OF assms(1)] have "fm_ok fm'" "fm_fee_limit fm' = limit"
    by (auto simp: fm_le_def intro: fm_ok_le)
  then show ?thesis by (simp add: unat_get_fee_used)
qed

lemma execute_transaction_fee:
  assumes "execute_transaction X J tx account env s = (Inr (r, ev, fee, g), t)"
  shows "unat fee \<le> unat (tx_fee_limit tx)"
  using assms tx_body_fee [of "tx_fee_limit tx" _ X J tx account env s]
  by (auto simp: execute_transaction_def split: sum.splits prod.splits tx_exit.splits)

text \<open>
  C14: Merging the state of an executed transaction back gives exactly that state. Whatever a
  transaction does on a clone \<open>s\<close> of the state of the block (transfers, staking, deployed contracts and
  instances, values of contracts, events) and whether it succeeds, fails or panics, \<^verbatim>\<open>merge\<close> of
  the clone into \<open>s\<close> is the clone: no write is lost and no entry of \<open>s\<close> is resurrected.
\<close>

theorem merge_of_executed_transaction:
  "merge s (snd (execute_transaction X J tx account env s)) =
     snd (execute_transaction X J tx account env s)"
  by (rule merge_grows [OF keeps_snd [OF grows_execute]])

text \<open>
  C20: A transaction is never charged more than its fee limit: on every path, failures and early
  returns included, the fee that the execution reports is at most the limit, and so is the fee that
  the estimate reports.
\<close>

theorem transaction_fee_within_limit:
  assumes "execute_transaction X J tx account env s = (Inr (r, ev, fee, g), t)"
    and "execute_estimate_fee X tx account env s' = (Inr estimate, t')"
  shows "fee \<le> tx_fee_limit tx \<and> case_sum id id estimate \<le> tx_fee_limit tx"
proof
  show "fee \<le> tx_fee_limit tx"
    using execute_transaction_fee [OF assms(1)] by (simp add: word_le_nat_alt)
  show "case_sum id id estimate \<le> tx_fee_limit tx"
    using assms(2) estimate_body_fee [of "tx_fee_limit tx" _ X tx account env s']
    by (auto simp: execute_estimate_fee_def word_le_nat_alt split: sum.splits prod.splits tx_exit.splits)
qed

text \<open>
  C19: A transaction never destroys tokens, and only a transaction of the mint master creates any:
  the total supply never decreases, and it stays the same for every other account, whatever the
  transaction does and whether it succeeds or fails.
\<close>

theorem transaction_supply:
  assumes "wf_ledger (ledger_of s)" and "execute_transaction X J tx account env s = (r, t)"
  shows "wf_ledger (ledger_of t) \<and> total_supply (ledger_of s) \<le> total_supply (ledger_of t) \<and>
         (account \<noteq> MINT_MASTER_ADDRESS \<longrightarrow> total_supply (ledger_of t) = total_supply (ledger_of s))"
  using keepsD [OF supply_execute assms(2)] keepsD [OF conserves_execute assms(2)] assms(1)
  by (auto simp: supply_le_def conserves_def)

section \<open>The price of a contract call\<close>

lemma on_state_run:
  "m s = (Inr x, t) \<Longrightarrow> and_then (on_state m) f (fm, s) = f x (fm, t)"
  "m s = (Inl e, t) \<Longrightarrow> e \<noteq> Panic \<Longrightarrow> and_then (on_state m) f (fm, s) = (Inl (Bail e), (fm, t))"
  "m s = (Inl Panic, t) \<Longrightarrow> and_then (on_state m) f (fm, s) = (Inl Unwind, (fm, t))"
  by (simp_all add: on_state_def tried_def or_bail_def and_then_def ok_def fail_def)

lemma or_bail_run:
  "and_then (or_bail (Inr x)) f st = f x st"
  "and_then (or_bail (Inl e)) f st = (Inl (Bail e), st)"
  by (simp_all add: or_bail_def and_then_def ok_def fail_def)

lemma pay_run:
  "fee \<le> fm_left_limit fm \<Longrightarrow>
     and_then (pay fee) f (fm, s) = f () (fm\<lparr>fm_left_limit := fm_left_limit fm - fee\<rparr>, s)"
  by (simp add: pay_def on_fee_def update_fee_def checked_sub_def and_then_def word_le_nat_alt)

lemma gas_run:
  "and_then (on_fee get_gas_limit) f (fm, s) = f (buy_gas (fm_gas_station fm) (fm_left_limit fm)) (fm, s)"
  by (simp add: on_fee_def get_gas_limit_def gets_def and_then_def)

lemma burn_0_run: "and_then (burn_or_bail 0) f (fm, s) = f () (fm\<lparr>fm_gas_used := fm_gas_used fm\<rparr>, s)"
  using unat_bounded [of "fm_gas_used fm"]
  by (simp add: burn_or_bail_def on_fee_def update_gas_and_fee_used_def sell_gas_def checked_sub_def
      add_gas_used_def checked_add_def and_then_def)

lemma burn_bought_run:
  assumes "fm_gas_station fm = from_fixed_price GAS_PRICE EVM_GAS_PRICE"
    and "g < buy_gas (fm_gas_station fm) (fm_left_limit fm)"
  obtains fm' where "and_then (burn_or_bail g) f (fm, s) = f () (fm', s)"
proof -
  have "fst (update_gas_and_fee_used g fm) = Inr ()"
    using assms
    by (intro sold_gas_within_bought_parts(1) [of fm "fm_fee_limit fm" "fm_gas_used fm" "fm_left_limit fm"
          "buy_gas (fm_gas_station fm) (fm_left_limit fm)"])
      (simp_all add: get_gas_limit_def gets_def)
  then obtain fm' where "update_gas_and_fee_used g fm = (Inr (), fm')" by (metis prod.collapse)
  then show ?thesis by (intro that) (simp add: burn_or_bail_def on_fee_def and_then_def)
qed

lemma l1xvm_call_value:
  assumes "l1xvm_function_call X below ca con inst fn args ro s = (r, t)"
  shows "r = Inl Panic \<or> (\<exists>out g. r = Inr (Exit (Succeed Returned) out, g) \<and> g < ca_gas_limit ca) \<or>
         (\<exists>e out. r = Inr (Exit (ExitErr e) out, 0))"
proof -
  have run: "x = Inl Panic \<or> (\<exists>out g. x = Inr (Exit (Succeed Returned) out, g) \<and> g < ca_gas_limit ca) \<or>
      (\<exists>e out. x = Inr (Exit (ExitErr e) out, 0))"
    if "l1xvm_run X below ca con inst fn args ro u = (x, v)" for u x v
  proof (cases x)
    case (Inl e)
    with that show ?thesis
      by (auto simp: l1xvm_run_def Let_def failed_exit_def catching_event merge_from_def op_runs ok_run
          split: sum.splits prod.splits if_splits)
  next
    case (Inr y)
    then obtain result g where "x = Inr (result, g)" by (cases y) simp
    with that l1xvm_run_outcome [of X below ca con inst fn args ro u result g v] show ?thesis by auto
  qed
  obtain x u where tr: "just_transfer_tokens (ca_account_address ca) (ci_instance_address inst)
      (ca_deposit ca) s = (x, u)" by fastforce
  show ?thesis
    using assms run tr
    by (auto simp: l1xvm_function_call_def catching_def attempt_def failed_exit_def ok_run fail_run
        split: if_splits sum.splits)
qed

lemma charge_l1xvm_call:
  assumes "l1xvm_function_call X below ca con inst fn args ro s = (x, t)"
    and "fm_gas_station fm = from_fixed_price GAS_PRICE EVM_GAS_PRICE"
    and "ca_gas_limit ca = buy_gas (fm_gas_station fm) (fm_left_limit fm)"
    and "and_then (on_state (l1xvm_function_call X below ca con inst fn args ro)) (\<lambda>(result, burnt).
           and_then (burn_or_bail burnt) (\<lambda>_.
             ok (case reason_of result of (reason, out) \<Rightarrow> analyze_reason reason out))) (fm, s) =
         (r, (fm', t'))"
  shows "r = Inl Unwind \<or> (\<exists>out. r = Inr (Inr (), Some out)) \<or>
         (\<exists>e out. r = Inr (Inl e, Some out) \<and> fm_left_limit fm' = fm_left_limit fm)"
  using l1xvm_call_value [OF assms(1)]
proof (elim disjE exE conjE)
  assume "x = Inl Panic"
  with assms(1,4) show ?thesis by (simp add: on_state_run)
next
  fix out g assume "x = Inr (Exit (Succeed Returned) out, g)" and "g < ca_gas_limit ca"
  moreover from this assms(2,3) obtain fm1 where
    "and_then (burn_or_bail g) (\<lambda>_. ok (Inr (), Some out) :: tx_value tx_op) (fm, t) =
       (Inr (Inr (), Some out), (fm1, t))"
    using burn_bought_run [of fm g "\<lambda>_. ok (Inr (), Some out) :: tx_value tx_op" t]
    by (auto simp: ok_run)
  ultimately have "(r, (fm', t')) = (Inr (Inr (), Some out), (fm1, t))"
    using assms(1) by (simp add: assms(4) [symmetric] on_state_run analyze_reason_def)
  then show ?thesis by simp
next
  fix e out assume "x = Inr (Exit (ExitErr e) out, 0)"
  with assms(1,4) show ?thesis by (auto simp: on_state_run burn_0_run analyze_reason_def ok_run)
qed

lemma run_contract_call_l1xvm:
  assumes "get_contract_instance a s = (Inr inst, s1)"
    and "get_contract (ci_contract_address inst) s1 = (Inr con, s2)"
    and "contract_type_try_from (con_type con) = Inr L1XVM"
    and "get_contract_fee ef L1XVM = Inr fee" and "fee \<le> fm_left_limit fm"
    and "fm1 = fm\<lparr>fm_left_limit := fm_left_limit fm - fee\<rparr>"
    and "ca = top_call account (context_of a account d)
                (buy_gas (fm_gas_station fm1) (fm_left_limit fm1)) d env"
  shows "run_contract_call X ef account env a fn args d (fm, s) =
    and_then (on_state (l1xvm_function_call X (levels X call_levels) ca con inst fn args False))
      (\<lambda>(result, burnt). and_then (burn_or_bail burnt) (\<lambda>_.
         ok (case reason_of result of (reason, out) \<Rightarrow> analyze_reason reason out))) (fm1, s2)"
  using assms
  by (simp add: run_contract_call_def on_state_run contract_type_of_def or_bail_run
      pay_contract_fee_def pay_run gas_run l1xvm_executor_def and_then_assoc)

text \<open>
  A call of an L1X contract whose base fee can be paid never fails for lack of a fee limit: it
  never returns early, since the gas it may burn is worth no more than what is left. It ends with the
  outcome of the contract, and if that is a failure, the base fee is all that is charged.
\<close>

theorem l1xvm_call_is_always_payable:
  assumes "get_contract_instance a s = (Inr inst, s1)"
    and "get_contract (ci_contract_address inst) s1 = (Inr con, s2)"
    and "contract_type_try_from (con_type con) = Inr L1XVM"
    and "get_contract_fee ef L1XVM = Inr fee" and "fee \<le> fm_left_limit fm"
    and "fm_gas_station fm = from_fixed_price GAS_PRICE EVM_GAS_PRICE"
    and "run_contract_call X ef account env a fn args d (fm, s) = (r, (fm', t))"
  shows "r = Inl Unwind \<or> (\<exists>out. r = Inr (Inr (), Some out)) \<or>
         (\<exists>e out. r = Inr (Inl e, Some out) \<and> fm_left_limit fm' = fm_left_limit fm - fee)"
proof -
  let ?fm = "fm\<lparr>fm_left_limit := fm_left_limit fm - fee\<rparr>"
  let ?ca = "top_call account (context_of a account d)
     (buy_gas (fm_gas_station ?fm) (fm_left_limit ?fm)) d env"
  obtain x u where call:
    "l1xvm_function_call X (levels X call_levels) ?ca con inst fn args False s2 = (x, u)" by fastforce
  note run = run_contract_call_l1xvm [OF assms(1-5) refl refl, of X account env fn args d]
  from charge_l1xvm_call [OF call, of ?fm r fm' t] assms(6,7) show ?thesis
    by (simp add: run top_call_def)
qed

definition l1x_db :: db where
  "l1x_db = demo_db
     \<lparr>db_get_contract := (\<lambda>a. Inr (demo_contract [])),
      db_get_contract_instance := (\<lambda>a. Inr demo_instance)\<rparr>"

definition demo_tx :: "transaction_type \<Rightarrow> balance \<Rightarrow> transaction" where
  "demo_tx ty limit =
     \<lparr>tx_version = V3, tx_nonce = 1, tx_type = ty, tx_fee_limit = limit, tx_signature = [],
      tx_verifying_key = [], tx_eth_original = None\<rparr>"

section \<open>The estimate of a fee\<close>

lemma fee_untouched:
  "fst (snd (tried m st)) = fst st"
  "fst (snd (or_bail v st)) = fst st"
  "fst (snd (on_state m st)) = fst st"
  "fst (snd (report msg ev m st)) = fst st"
  "fst (snd (json_event J e st)) = fst st"
  by (auto simp: tried_def or_bail_def on_state_def report_def json_event_def and_then_def ok_def
      fail_def split: sum.splits prod.splits)

text \<open>\<open>charged m\<close>: every early return of \<open>m\<close> reports the fee used.\<close>

definition charged :: "'a tx_op \<Rightarrow> bool" where
  "charged m \<longleftrightarrow> (\<forall>st e st'. m st \<noteq> (Inl (BailFree e), st'))"

lemma charged_ops:
  "charged (ok x)" "charged (tried m)" "charged (or_bail v)" "charged (pay fee)"
  by (auto simp: charged_def tried_def or_bail_def ok_def fail_def pay_def on_fee_def
      split: sum.splits prod.splits)

lemma charged_and_then:
  assumes "charged m" and "\<And>x. charged (f x)"
  shows "charged (and_then m f)"
  unfolding charged_def
proof (intro allI notI)
  fix st e st' assume "and_then m f st = (Inl (BailFree e), st')"
  then show False
    using assms unfolding and_then_Inl charged_def by blast
qed

lemma charged_derived:
  "charged (on_state n)" "charged (report msg ev n)" "charged (json_event J e)"
  unfolding on_state_def report_def json_event_def by (auto intro!: charged_ops charged_and_then)

lemma fee_pay:
  "fst (snd (pay fee (fm, s))) = fst (snd (pay fee (fm, s')))"
  "fst (pay fee (fm, s)) = fst (pay fee (fm, s'))"
  by (simp_all add: pay_def on_fee_def split: sum.splits prod.splits)

lemma fee_pay_then:
  assumes "\<And>x st. fst (snd (f x st)) = fst st" and "\<And>x st. fst (snd (f' x st)) = fst st"
  shows "fst (snd (and_then (pay fee) f (fm, s))) = fst (snd (and_then (pay fee) f' (fm, s')))"
  using assms fee_pay [of fee fm s s'] by (auto simp: and_then_def split: sum.splits prod.splits)

lemma run_type_native:
  assumes "runs_no_contract ty"
  shows "fst (snd (run_type X J ef account env ty (fm, s))) =
         fst (snd (estimate_type X ef account env' ty (fm, s')))"
    and "charged (run_type X J ef account env ty)"
proof -
  have pay_only: "fst (snd (pay fee (fm, s'))) = fst (snd (and_then (pay fee) (\<lambda>_. ok ()) (fm, s')))" for fee
    by (auto simp: and_then_def ok_def split: sum.splits prod.splits)
  have after: "fst (snd (and_then m f st)) = fst st"
    if "\<And>st. fst (snd (m st)) = fst st" "\<And>x st. fst (snd (f x st)) = fst st"
    for m :: "'b tx_op" and f :: "'b \<Rightarrow> 'c tx_op" and st
    using that(1) [of st] that(2) by (cases "m st") (auto simp: and_then_def split: sum.split)
  show "fst (snd (run_type X J ef account env ty (fm, s))) =
        fst (snd (estimate_type X ef account env' ty (fm, s')))"
    using assms
    by (cases ty) (auto simp: runs_no_contract_def run_type_def estimate_type_def run_token_transfer_def
        pay_only fee_untouched intro!: fee_pay_then after split: sum.split)
  show "charged (run_type X J ef account env ty)"
    using assms
    by (cases ty; simp add: runs_no_contract_def run_type_def run_token_transfer_def;
        intro charged_and_then charged_ops charged_derived)
      (auto intro: charged_ops charged_derived split: sum.split)
qed

lemma tx_body_native:
  assumes "runs_no_contract (tx_type tx)" and "increment_nonce account s = (Inr (), s1)"
  shows "fst (snd (tx_body X J tx account env (fm, s1))) = fst (snd (estimate_body X tx account env (fm, s)))"
    and "charged (tx_body X J tx account env)"
proof -
  let ?ef = "execute_fee_new tx system_fee_config_new"
  have same: "fst (snd (and_then m f st)) = fst (snd (and_then m f' st))"
    if "\<And>x fm' u. fst (snd (f x (fm', u))) = fst (snd (f' x (fm', u)))"
    for m :: "'b tx_op" and f :: "'b \<Rightarrow> 'c tx_op" and f' :: "'b \<Rightarrow> 'd tx_op" and st
    using that by (cases "m st") (auto simp: and_then_def split: sum.split)
  show "fst (snd (tx_body X J tx account env (fm, s1))) = fst (snd (estimate_body X tx account env (fm, s)))"
    using assms(2) unfolding tx_body_def estimate_body_def Let_def
    by (simp add: on_state_run) (intro same run_type_native(1) [OF assms(1)])
  show "charged (tx_body X J tx account env)"
    unfolding tx_body_def Let_def
    by (intro charged_and_then charged_ops charged_derived run_type_native(2) [OF assms(1)])
qed

text \<open>
  C21: For a transaction that runs no contract, the estimated fee is the fee that its execution
  reports on the state with the sender's nonce incremented, which is where a block executes it. This
  holds whether the transaction succeeds or fails, and for a limit that is too low as well.
\<close>

theorem estimate_matches_fee:
  assumes "runs_no_contract (tx_type tx)" and "increment_nonce account s = (Inr (), s1)"
    and "execute_transaction X J tx account env s1 = (Inr (r, ev, fee, g), t)"
    and "execute_estimate_fee X tx account env s = (Inr estimate, t')"
  shows "case_sum id id estimate = fee"
proof -
  let ?fm = "\<lparr>fm_fee_limit = tx_fee_limit tx, fm_gas_used = 0, fm_left_limit = tx_fee_limit tx,
              fm_gas_station = from_fixed_price GAS_PRICE EVM_GAS_PRICE\<rparr>"
  obtain x fm1 u y fm2 v where
    bodies: "tx_body X J tx account env (?fm, s1) = (x, (fm1, u))"
      "estimate_body X tx account env (?fm, s) = (y, (fm2, v))"
    by (metis prod.collapse)
  then have "fm1 = fm2"
    using tx_body_native(1) [OF assms(1,2), of X J env ?fm] by simp
  moreover have "\<And>e. x \<noteq> Inl (BailFree e)"
    using tx_body_native(2) [OF assms(1,2), of X J env] bodies(1) unfolding charged_def by blast
  ultimately show ?thesis
    using assms(3,4) bodies
    by (auto simp: execute_transaction_def execute_estimate_fee_def fee_manager_new_def
        split: sum.splits prod.splits tx_exit.splits)
qed

section \<open>Sample runs\<close>

definition demo_json :: json where
  "demo_json _ = Inr []"

definition tx_chain :: chain where
  "tx_chain = (demo_chain (\<lambda>_ _. EvmTrap 0))
     \<lparr>ch_ext := (ch_ext (demo_chain (\<lambda>_ _. EvmTrap 0)))\<lparr>x_bincode_tx := (\<lambda>_. Some [])\<rparr>\<rparr>"

lemma demo_tx_simps:
  "tx_type (demo_tx ty n) = ty" "tx_fee_limit (demo_tx ty n) = n"
  "tx_hash (ch_ext tx_chain) (demo_tx ty n) = Inr 0"
  by (simp_all add: tx_hash_def demo_tx_def tx_chain_def demo_chain_def)

lemma demo_fees:
  "get_transaction_size_fee (execute_fee_new (demo_tx (NativeTokenTransfer a n) l) system_fee_config_new) = Inr 2"
  "get_token_transfer_fee (execute_fee_new tx system_fee_config_new) = 1"
  by (simp_all add: get_transaction_size_fee_def transaction_size_fee_def execute_fee_new_def demo_tx_def
      system_fee_config_new_def fee_config_config_def get_token_transfer_fee_def sized_fee_def
      checked_mul_def checked_add_def)

lemma demo_transfer:
  assumes "wf_ledger (ledger_of s)" and "l_account (ledger_of s) 1 = Inr acc" and "acc_balance acc = 100"
    and "l_account (ledger_of s) 3 = Inl e"
  obtains t where "execute_transaction tx_chain demo_json (demo_tx (NativeTokenTransfer 3 30) 10) 1
      demo_env s = (Inr (Inr (), Some [], 3, 0), t)"
proof -
  obtain s1 where get: "get_account 1 s = (l_account (ledger_of s) 1, s1)" and L: "ledger_of s1 = ledger_of s"
    by (rule acc.get_run)
  then have s1: "get_nonce 1 s = (Inr (acc_nonce acc), s1)"
    using assms(2) by (simp add: get_nonce_def and_then_def ok_def)
  obtain r t where t: "transfer 1 3 30 s1 = (r, t)" by fastforce
  have "r = Inr ()"
    using transfer_run [OF _ t] assms L by (simp add: transfer_spec_def account_new_def)
  with t have run: "execute_native_token_transfer 1 3 30 s1 = (Inr (), t)"
    by (simp add: execute_native_token_transfer_def is_mint_def)
  have "run_token_transfer demo_json ef 1 3 30 (fm, s1) =
      (Inr (Inr (), Some []), (fm\<lparr>fm_left_limit := fm_left_limit fm - 1\<rparr>, t))"
    if "get_token_transfer_fee ef = 1" "1 \<le> fm_left_limit fm" for ef fm
    using that run
    by (simp add: run_token_transfer_def pay_run)
      (simp add: tried_def and_then_def json_event_def demo_json_def or_bail_def ok_def)
  with s1 show ?thesis
    by (intro that [of t])
      (simp add: execute_transaction_def fee_manager_new_def tx_body_def Let_def demo_fees or_bail_run
        pay_run demo_tx_simps on_state_run run_type_def get_fee_used_def get_gas_used_def)
qed

lemma demo_increment:
  obtains s1 where "increment_nonce 1 demo_state = (Inr (), s1)"
    and "ledger_of s1 = set_account 1 ((account_new 1)\<lparr>acc_balance := 100, acc_nonce := 1\<rparr>) (ledger_of demo_state)"
proof -
  have "obs ledger_of (increment_nonce 1) demo_state =
      (Inr (), set_account 1 ((account_new 1)\<lparr>acc_balance := 100, acc_nonce := 1\<rparr>) (ledger_of demo_state))"
    by (simp add: increment_nonce_obs demo_ledger demo_db_def account_new_def checked_add_def)
  then show ?thesis
    by (intro that [of "snd (increment_nonce 1 demo_state)"]) (simp_all add: obs_def prod_eq_iff)
qed

lemma demo_after_increment:
  obtains s1 t where "increment_nonce 1 demo_state = (Inr (), s1)"
    and "execute_transaction tx_chain demo_json (demo_tx (NativeTokenTransfer 3 30) 10) 1 demo_env s1 =
           (Inr (Inr (), Some [], 3, 0), t)"
proof -
  obtain s1 where s1: "increment_nonce 1 demo_state = (Inr (), s1)"
    "ledger_of s1 = set_account 1 ((account_new 1)\<lparr>acc_balance := 100, acc_nonce := 1\<rparr>) (ledger_of demo_state)"
    by (rule demo_increment)
  have L: "wf_ledger (ledger_of s1)"
    "l_account (ledger_of s1) 1 = Inr ((account_new 1)\<lparr>acc_balance := 100, acc_nonce := 1\<rparr>)"
    "l_account (ledger_of s1) 3 = Inl (DbError ''account does not exist'')"
    using demo_wf by (simp_all add: s1(2) account_new_def demo_ledger demo_db_def)
  obtain t where "execute_transaction tx_chain demo_json (demo_tx (NativeTokenTransfer 3 30) 10) 1
      demo_env s1 = (Inr (Inr (), Some [], 3, 0), t)"
    by (rule demo_transfer [OF L(1,2) _ L(3)]) simp
  with s1(1) show ?thesis by (rule that)
qed

lemma demo_estimate:
  obtains t where "execute_estimate_fee tx_chain (demo_tx (NativeTokenTransfer 3 30) 10) 1 demo_env demo_state =
    (Inr (Inr 3), t)"
proof -
  obtain s1 where s1: "increment_nonce 1 demo_state = (Inr (), s1)"
    "ledger_of s1 = set_account 1 ((account_new 1)\<lparr>acc_balance := 100, acc_nonce := 1\<rparr>) (ledger_of demo_state)"
    by (rule demo_increment)
  obtain s2 where "get_account 1 s1 = (l_account (ledger_of s1) 1, s2)" by (rule acc.get_run)
  then have "get_nonce 1 s1 = (Inr 1, s2)"
    by (simp add: get_nonce_def and_then_def ok_def s1(2))
  with s1(1) show ?thesis
    by (intro that [of s2])
      (simp add: execute_estimate_fee_def fee_manager_new_def estimate_body_def Let_def demo_fees or_bail_run
        pay_run demo_tx_simps on_state_run estimate_type_def get_fee_used_def,
       simp add: pay_def on_fee_def update_fee_def checked_sub_def get_fee_used_def)
qed

theorem transaction_fee_within_limit_witness:
  "\<exists>t t'. execute_transaction tx_chain demo_json (demo_tx (NativeTokenTransfer 3 30) 10) 1 demo_env demo_state =
       (Inr (Inr (), Some [], 3, 0), t) \<and>
     execute_estimate_fee tx_chain (demo_tx (NativeTokenTransfer 3 30) 10) 1 demo_env demo_state =
       (Inr (Inr 3), t') \<and> (3 :: balance) \<le> tx_fee_limit (demo_tx (NativeTokenTransfer 3 30) 10)"
proof -
  have a: "l_account (ledger_of demo_state) 1 = Inr ((account_new 1)\<lparr>acc_balance := 100\<rparr>)"
    "l_account (ledger_of demo_state) 3 = Inl (DbError ''account does not exist'')"
    by (simp_all add: demo_ledger demo_db_def)
  obtain t where t: "execute_transaction tx_chain demo_json (demo_tx (NativeTokenTransfer 3 30) 10) 1
      demo_env demo_state = (Inr (Inr (), Some [], 3, 0), t)"
    by (rule demo_transfer [OF demo_wf a(1) _ a(2)]) simp
  obtain t' where t': "execute_estimate_fee tx_chain (demo_tx (NativeTokenTransfer 3 30) 10) 1 demo_env
      demo_state = (Inr (Inr 3), t')" by (rule demo_estimate)
  from transaction_fee_within_limit [OF t t'] t t' show ?thesis by blast
qed

theorem transaction_supply_witness:
  "total_supply (ledger_of (snd (execute_transaction tx_chain demo_json
     (demo_tx (NativeTokenTransfer 3 30) 10) 1 demo_env demo_state))) = total_supply (ledger_of demo_state)"
  using transaction_supply [OF demo_wf prod.collapse [symmetric], of tx_chain demo_json _ 1]
  by (simp add: MINT_MASTER_ADDRESS_def)

theorem estimate_matches_fee_witness:
  "\<exists>s1 t t'. execute_transaction tx_chain demo_json (demo_tx (NativeTokenTransfer 3 30) 10) 1 demo_env s1 =
       (Inr (Inr (), Some [], 3, 0), t) \<and>
     execute_estimate_fee tx_chain (demo_tx (NativeTokenTransfer 3 30) 10) 1 demo_env demo_state =
       (Inr (Inr 3), t') \<and> case_sum id id (Inr 3 :: balance + balance) = (3 :: balance)"
proof -
  obtain s1 t where s1: "increment_nonce 1 demo_state = (Inr (), s1)"
    "execute_transaction tx_chain demo_json (demo_tx (NativeTokenTransfer 3 30) 10) 1 demo_env s1 =
       (Inr (Inr (), Some [], 3, 0), t)" by (rule demo_after_increment)
  obtain t' where t': "execute_estimate_fee tx_chain (demo_tx (NativeTokenTransfer 3 30) 10) 1 demo_env
      demo_state = (Inr (Inr 3), t')" by (rule demo_estimate)
  have "runs_no_contract (tx_type (demo_tx (NativeTokenTransfer 3 30) 10))"
    by (simp add: demo_tx_simps runs_no_contract_def)
  from estimate_matches_fee [OF this s1 t'] s1(2) t' show ?thesis by blast
qed

lemma l1x_ledger:
  "l_instance (ledger_of (updated_state_new l1x_db)) a = Inr demo_instance"
  "l_contract (ledger_of (updated_state_new l1x_db)) a = Inr (demo_contract [])"
  by (simp_all add: ledger_of_def updated_state_new_def l1x_db_def)

theorem l1xvm_call_is_always_payable_witness:
  "\<exists>e out fm' t. run_contract_call tx_chain
     (execute_fee_new (demo_tx (SmartContractFunctionCall 8 [] [] 0) 10) system_fee_config_new) 1 demo_env 8 [] [] 0
     (\<lparr>fm_fee_limit = 10, fm_gas_used = 0, fm_left_limit = 10,
       fm_gas_station = from_fixed_price GAS_PRICE EVM_GAS_PRICE\<rparr>, updated_state_new l1x_db) =
     (Inr (Inl e, Some out), (fm', t)) \<and> fm_left_limit fm' = 9"
proof -
  let ?s = "updated_state_new l1x_db"
  let ?ef = "execute_fee_new (demo_tx (SmartContractFunctionCall 8 [] [] 0) 10) system_fee_config_new"
  let ?fm = "\<lparr>fm_fee_limit = 10, fm_gas_used = 0, fm_left_limit = 10,
              fm_gas_station = from_fixed_price GAS_PRICE EVM_GAS_PRICE\<rparr>"
  obtain s1 where s1: "get_contract_instance 8 ?s = (Inr demo_instance, s1)" "ledger_of s1 = ledger_of ?s"
    using inst.get_run [of 8 ?s] by (metis l1x_ledger(1))
  obtain s2 where s2: "get_contract (ci_contract_address demo_instance) s1 = (Inr (demo_contract []), s2)"
    using con.get_run [of "ci_contract_address demo_instance" s1] by (metis l1x_ledger(2) s1(2))
  have ty: "contract_type_try_from (con_type (demo_contract [])) = Inr L1XVM"
    by (simp add: demo_contract_def contract_type_try_from_def)
  have fee: "get_contract_fee ?ef L1XVM = Inr 1"
    by (simp add: get_contract_fee_def contract_fee_of_def execute_fee_new_def system_fee_config_new_def
        fee_config_config_def default_contract_fee_def demo_tx_def sized_fee_def checked_add_def
        checked_mul_def usize_len_def)
  have "\<exists>e out t'. l1xvm_function_call tx_chain l (top_call 1 (context_of 8 1 0) g 0 demo_env)
      (demo_contract []) demo_instance [] [] False s2 = (Inr (Exit (ExitErr e) out, 0), t')" for l g
    by (simp add: l1xvm_function_call_def top_call_def MAX_CROSS_CONTRACT_CALL_DEPTH_def l1xvm_run_def
        run_internal_def load_program_def tx_chain_def demo_chain_def demo_contract_def failed_exit_def ok_run)
  then obtain e out t where call: "l1xvm_function_call tx_chain (levels tx_chain call_levels)
      (top_call 1 (context_of 8 1 0) (buy_gas (from_fixed_price GAS_PRICE EVM_GAS_PRICE) 9) 0 demo_env)
      (demo_contract []) demo_instance [] [] False s2 = (Inr (Exit (ExitErr e) out, 0), t)" by blast
  have run: "run_contract_call tx_chain ?ef 1 demo_env 8 [] [] 0 (?fm, ?s) =
      (Inr (Inl e, Some out), (?fm\<lparr>fm_left_limit := 9\<rparr>, t))"
    by (subst run_contract_call_l1xvm [OF s1(1) s2 ty fee _ refl refl])
      (simp_all add: on_state_run call burn_0_run analyze_reason_def ok_run)
  with l1xvm_call_is_always_payable [OF s1(1) s2 ty fee _ _ run] show ?thesis by auto
qed

end
