(* ===== verification/L1X_Block_Store.thy ===== *)
theory L1X_Block_Store
  imports L1X_Storage
begin

text \<open>
  The PostgreSQL backend of blocks (\<^verbatim>\<open>block/src/state_pg.rs\<close>): block heads, headers, transactions,
  the flags of executed blocks and transaction receipts. A table whose rows the queries filter is
  the list of its rows in the order of insertion; an insert with \<^verbatim>\<open>ON CONFLICT DO NOTHING\<close> appends
  a row unless its key is taken. The conventions for columns are those of \<open>L1X_Storage\<close>.

  The codec of transactions and the calendar library are the record \<open>store_ext\<close>. A
  \<^verbatim>\<open>NaiveDateTime\<close> is its number of milliseconds, and the library rejects one out of its range.

  The theory shows that a stored block is read back, how the head of the chain advances, and that
  the flag of an executed block is never taken back.
\<close>

section \<open>Tables\<close>

record block_head_row =
  hd_block_number :: "block_number option"
  hd_block_hash :: "block_hash option"

record block_header_row =
  hr_block_number :: block_number
  hr_block_hash :: "block_hash option"
  hr_parent_hash :: "block_hash option"
  hr_timestamp :: "int option"
  hr_block_type :: "int option"
  hr_num_transactions :: "32 word option"
  hr_cluster_address :: "address option"
  hr_block_version :: "int option"
  hr_state_hash :: "block_hash option"
  hr_epoch :: nat

record block_transaction_row =
  br_transaction_hash :: transaction_hash
  br_block_number :: block_number
  br_block_hash :: "block_hash option"
  br_fee_used :: "balance option"
  br_from_address :: "address option"
  br_timestamp :: "int option"
  br_transaction :: "bytes option"
  br_tx_sequence :: "32 word option"

record block_tables =
  t_block_head :: "address \<rightharpoonup> block_head_row"
  t_block_header :: "block_header_row list"
  t_block_meta_info :: "address \<times> block_number \<rightharpoonup> bool option"
  t_block_transaction :: "block_transaction_row list"
  t_genesis_epoch_block :: "(block_number \<times> epoch) list"

type_synonym 'a block_op = "(block_tables, error, 'a) op"

record store_ext =
  se_ext :: ext
  se_decode :: "bytes \<Rightarrow> transaction option"
  se_decode_v2 :: "bytes \<Rightarrow> transaction_v2 option"
  se_decode_v1 :: "bytes \<Rightarrow> transaction_v1 option"
  se_in_range :: "int \<Rightarrow> bool"
  se_max_datetime :: int

record chain_state =
  cs_cluster_address :: address
  cs_block_number :: block_number
  cs_block_hash :: block_hash

text \<open>\<open>insert_new key r rows\<close> is an insert that does nothing on a conflict.\<close>

definition insert_new :: "('r \<Rightarrow> 'k) \<Rightarrow> 'r \<Rightarrow> 'r list \<Rightarrow> 'r list" where
  "insert_new key r rows = (if key r \<in> key ` set rows then rows else rows @ [r])"

definition convert_to_naive_datetime :: "store_ext \<Rightarrow> timestamp \<Rightarrow> int" where
  "convert_to_naive_datetime S now =
     (let ms = sint (ucast now :: 64 word) in if se_in_range S ms then ms else 0)"

definition block_timestamp_to_naive_datetime :: "store_ext \<Rightarrow> block_timestamp \<Rightarrow> int" where
  "block_timestamp_to_naive_datetime S ts =
     (let ms = sint ts * 1000 in if se_in_range S ms then ms else 0)"

section \<open>The head of a cluster\<close>

definition pg_is_block_head :: "address \<Rightarrow> bool block_op" where
  "pg_is_block_head c = gets (\<lambda>d. t_block_head d c \<noteq> None)"

definition pg_store_block_head :: "address \<Rightarrow> block_number \<Rightarrow> block_hash \<Rightarrow> unit block_op" where
  "pg_store_block_head c n h = modify (\<lambda>d.
     case t_block_head d c of
       Some _ \<Rightarrow> d
     | None \<Rightarrow> d\<lparr>t_block_head := (t_block_head d)(c \<mapsto> \<lparr>hd_block_number = Some n,
                                                             hd_block_hash = Some h\<rparr>)\<rparr>)"

definition pg_update_block_head :: "address \<Rightarrow> block_number \<Rightarrow> block_hash \<Rightarrow> unit block_op" where
  "pg_update_block_head c n h =
     and_then (pg_is_block_head c) (\<lambda>present.
       if \<not> present then pg_store_block_head c n h
       else modify (\<lambda>d. d\<lparr>t_block_head := (\<lambda>x. if x = c
                then map_option (\<lambda>r. r\<lparr>hd_block_hash := Some h, hd_block_number := Some n\<rparr>)
                       (t_block_head d x)
                else t_block_head d x)\<rparr>))"

definition pg_load_chain_state :: "address \<Rightarrow> chain_state block_op" where
  "pg_load_chain_state c = (\<lambda>d.
     case t_block_head d c of
       None \<Rightarrow> (Inr \<lparr>cs_cluster_address = c, cs_block_number = 0, cs_block_hash = 0\<rparr>, d)
     | Some r \<Rightarrow>
        (case hd_block_number r of
           None \<Rightarrow> (Inl Panic, d)
         | Some n \<Rightarrow> (Inr \<lparr>cs_cluster_address = c, cs_block_number = n,
                            cs_block_hash = (case hd_block_hash r of Some h \<Rightarrow> h | None \<Rightarrow> 0)\<rparr>, d)))"

definition pg_load_genesis_block_time :: "(64 word \<times> 64 word) block_op" where
  "pg_load_genesis_block_time = (\<lambda>d.
     case t_genesis_epoch_block d of
       [] \<Rightarrow> (Inl (DbError ''Record not found''), d)
     | (n, e) # _ \<Rightarrow> if unat n < 2 ^ 64 then (Inr (ucast n, e), d) else (Inl Panic, d))"

definition pg_store_genesis_block_time :: "block_number \<Rightarrow> epoch \<Rightarrow> unit block_op" where
  "pg_store_genesis_block_time n e = modify (\<lambda>d.
     d\<lparr>t_genesis_epoch_block := insert_new fst (n, e) (t_genesis_epoch_block d)\<rparr>)"

section \<open>Transactions\<close>

definition transaction_row ::
  "store_ext \<Rightarrow> timestamp \<Rightarrow> block_number \<Rightarrow> block_hash \<Rightarrow> transaction \<Rightarrow> 32 word \<Rightarrow>
   error + block_transaction_row" where
  "transaction_row S now n h tx seq =
     (case x_bincode_tx (se_ext S) tx of
        None \<Rightarrow> Inl SerializeError
      | Some bs \<Rightarrow>
         (case tx_hash (se_ext S) tx of
            Inl e \<Rightarrow> Inl e
          | Inr th \<Rightarrow>
             (case account_address (se_ext S) (tx_verifying_key tx) of
                Inl e \<Rightarrow> Inl e
              | Inr a \<Rightarrow> Inr
                 \<lparr>br_transaction_hash = th, br_block_number = n, br_block_hash = Some h,
                  br_fee_used = Some (tx_fee_limit tx), br_from_address = Some a,
                  br_timestamp = Some (convert_to_naive_datetime S now), br_transaction = Some bs,
                  br_tx_sequence = Some seq\<rparr>)))"

definition transaction_key :: "block_transaction_row \<Rightarrow> transaction_hash \<times> block_number" where
  "transaction_key r = (br_transaction_hash r, br_block_number r)"

definition insert_transaction :: "block_transaction_row \<Rightarrow> block_tables \<Rightarrow> block_tables" where
  "insert_transaction r d =
     d\<lparr>t_block_transaction := insert_new transaction_key r (t_block_transaction d)\<rparr>"

definition pg_store_transaction ::
  "store_ext \<Rightarrow> timestamp \<Rightarrow> block_number \<Rightarrow> block_hash \<Rightarrow> transaction \<Rightarrow> 32 word \<Rightarrow> unit block_op" where
  "pg_store_transaction S now n h tx seq =
     (case transaction_row S now n h tx seq of
        Inl e \<Rightarrow> fail e
      | Inr r \<Rightarrow> modify (insert_transaction r))"

text \<open>The rows of a batch are all built before any is inserted; the sequence runs over the batch.\<close>

fun transaction_rows ::
  "store_ext \<Rightarrow> timestamp \<Rightarrow> 32 word \<Rightarrow> (block_number \<times> block_hash \<times> transaction) list \<Rightarrow>
   error + block_transaction_row list" where
  "transaction_rows S now seq [] = Inr []"
| "transaction_rows S now seq ((n, h, tx) # txs) =
     (case transaction_row S now n h tx seq of
        Inl e \<Rightarrow> Inl e
      | Inr r \<Rightarrow>
         (case transaction_rows S now (seq + 1) txs of Inl e \<Rightarrow> Inl e | Inr rs \<Rightarrow> Inr (r # rs)))"

definition pg_batch_store_transactions ::
  "store_ext \<Rightarrow> timestamp \<Rightarrow> (block_number \<times> block_hash \<times> transaction) list \<Rightarrow> unit block_op" where
  "pg_batch_store_transactions S now txs =
     (case transaction_rows S now 0 txs of
        Inl e \<Rightarrow> fail e
      | Inr rs \<Rightarrow> modify (fold insert_transaction rs))"

definition pg_get_transaction_count :: "address \<Rightarrow> block_number option \<Rightarrow> 64 word block_op" where
  "pg_get_transaction_count a n = gets (\<lambda>d. of_nat (length (filter
     (\<lambda>r. br_from_address r = Some a \<and> (case n of None \<Rightarrow> True | Some m \<Rightarrow> br_block_number r \<le> m))
     (t_block_transaction d))))"

definition deserialize_transaction :: "store_ext \<Rightarrow> bytes \<Rightarrow> error + transaction" where
  "deserialize_transaction S bs =
     (case se_decode S bs of
        Some tx \<Rightarrow> Inr tx
      | None \<Rightarrow>
         (case se_decode_v2 S bs of
            Some v \<Rightarrow> Inr (transaction_from_v2 v)
          | None \<Rightarrow>
             (case se_decode_v1 S bs of
                Some v \<Rightarrow> Inr (transaction_from_v1 v)
              | None \<Rightarrow> Inl (Failed ''bincode''))))"

definition pg_load_transaction :: "store_ext \<Rightarrow> transaction_hash \<Rightarrow> transaction option block_op" where
  "pg_load_transaction S h = (\<lambda>d.
     case find (\<lambda>r. br_transaction_hash r = h) (t_block_transaction d) of
       None \<Rightarrow> (Inl (DbError ''Diesel query failed''), d)
     | Some r \<Rightarrow>
        (case br_transaction r of
           None \<Rightarrow> (Inl Panic, d)
         | Some bs \<Rightarrow> (map_sum id Some (deserialize_transaction S bs), d)))"

fun decode_rows :: "store_ext \<Rightarrow> block_transaction_row list \<Rightarrow> error + transaction list" where
  "decode_rows S [] = Inr []"
| "decode_rows S (r # rs) =
     (case br_transaction r of
        None \<Rightarrow> Inl (Failed ''Transaction data is None'')
      | Some bs \<Rightarrow>
         (case deserialize_transaction S bs of
            Inl e \<Rightarrow> Inl e
          | Inr tx \<Rightarrow> (case decode_rows S rs of Inl e \<Rightarrow> Inl e | Inr txs \<Rightarrow> Inr (tx # txs))))"

text \<open>\<^verbatim>\<open>ORDER BY tx_sequence ASC\<close>, which puts a null last.\<close>

definition sequence_key :: "block_transaction_row \<Rightarrow> nat" where
  "sequence_key r = (case br_tx_sequence r of Some w \<Rightarrow> unat w | None \<Rightarrow> 2 ^ 32)"

definition pg_load_transactions :: "store_ext \<Rightarrow> block_number \<Rightarrow> transaction list block_op" where
  "pg_load_transactions S n = (\<lambda>d.
     (decode_rows S (sort_key sequence_key
        (filter (\<lambda>r. br_block_number r = n) (t_block_transaction d))), d))"

section \<open>Headers\<close>

definition header_row :: "store_ext \<Rightarrow> block_header \<Rightarrow> block_header_row" where
  "header_row S h =
     \<lparr>hr_block_number = bh_block_number h, hr_block_hash = Some (bh_block_hash h),
      hr_parent_hash = Some (bh_parent_hash h),
      hr_timestamp = Some (block_timestamp_to_naive_datetime S (bh_timestamp h)),
      hr_block_type = Some (block_type_to_i8 (bh_block_type h)),
      hr_num_transactions = Some (bh_num_transactions h),
      hr_cluster_address = Some (bh_cluster_address h),
      hr_block_version = Some (if unat (bh_block_version h) < 2 ^ 31
                               then uint (bh_block_version h) else 0),
      hr_state_hash = Some (bh_state_hash h), hr_epoch = unat (bh_epoch h)\<rparr>"

definition insert_header :: "block_header_row \<Rightarrow> block_tables \<Rightarrow> block_tables" where
  "insert_header r d = d\<lparr>t_block_header := insert_new hr_block_number r (t_block_header d)\<rparr>"

definition pg_store_block_header :: "store_ext \<Rightarrow> block_header \<Rightarrow> unit block_op" where
  "pg_store_block_header S h = modify (insert_header (header_row S h))"

definition pg_batch_store_block_headers :: "store_ext \<Rightarrow> block_header list \<Rightarrow> unit block_op" where
  "pg_batch_store_block_headers S hs = modify (fold insert_header (map (header_row S) hs))"

definition hash_column :: "block_hash option \<Rightarrow> block_hash" where
  "hash_column c = (case c of Some h \<Rightarrow> h | None \<Rightarrow> 0)"

definition version_of_row :: "int option \<Rightarrow> 32 word" where
  "version_of_row c = (case c of Some v \<Rightarrow> (if v \<ge> 0 then of_int v else 0) | None \<Rightarrow> 0)"

definition epoch_of_row :: "nat \<Rightarrow> epoch" where
  "epoch_of_row e = (if e < 2 ^ 63 then of_nat e else 0)"

definition header_of_row :: "store_ext \<Rightarrow> block_number \<Rightarrow> block_header_row \<Rightarrow> error + block_header" where
  "header_of_row S n r =
     (case hr_cluster_address r of
        None \<Rightarrow> Inl Panic
      | Some c \<Rightarrow>
         (case hr_block_type r of
            None \<Rightarrow> Inl (Failed ''Block type is None'')
          | Some t \<Rightarrow>
             (case block_type_try_from t of
                Inl e \<Rightarrow> Inl e
              | Inr ty \<Rightarrow>
                 (case hr_num_transactions r of
                    None \<Rightarrow> Inl Panic
                  | Some k \<Rightarrow> Inr
                     \<lparr>bh_block_number = n, bh_block_hash = hash_column (hr_block_hash r),
                      bh_parent_hash = hash_column (hr_parent_hash r), bh_block_type = ty,
                      bh_cluster_address = c,
                      bh_timestamp = of_int ((case hr_timestamp r of Some ts \<Rightarrow> ts
                                              | None \<Rightarrow> se_max_datetime S) div 1000),
                      bh_num_transactions = k, bh_epoch = epoch_of_row (hr_epoch r),
                      bh_block_version = version_of_row (hr_block_version r),
                      bh_state_hash = hash_column (hr_state_hash r)\<rparr>))))"

definition pg_load_block_header :: "store_ext \<Rightarrow> block_number \<Rightarrow> address \<Rightarrow> block_header block_op" where
  "pg_load_block_header S n c = (\<lambda>d.
     case find (\<lambda>r. hr_block_number r = n) (t_block_header d) of
       None \<Rightarrow> (Inl (DbError ''No matching records found for block''), d)
     | Some r \<Rightarrow> (header_of_row S n r, d))"

definition pg_is_block_header_stored :: "block_number \<Rightarrow> bool block_op" where
  "pg_is_block_header_stored n =
     gets (\<lambda>d. find (\<lambda>r. hr_block_number r = n) (t_block_header d) \<noteq> None)"

definition pg_get_block_number_by_hash :: "block_hash \<Rightarrow> block_number block_op" where
  "pg_get_block_number_by_hash h = (\<lambda>d.
     case find (\<lambda>r. hr_block_hash r = Some h) (t_block_header d) of
       None \<Rightarrow> (Inl (DbError ''Diesel query failed''), d)
     | Some r \<Rightarrow> (Inr (hr_block_number r), d))"

section \<open>Blocks\<close>

definition insert_meta :: "address \<times> block_number \<Rightarrow> block_tables \<Rightarrow> block_tables" where
  "insert_meta k d =
     (case t_block_meta_info d k of
        Some _ \<Rightarrow> d
      | None \<Rightarrow> d\<lparr>t_block_meta_info := (t_block_meta_info d)(k \<mapsto> Some False)\<rparr>)"

fun store_each ::
  "store_ext \<Rightarrow> timestamp \<Rightarrow> block_number \<Rightarrow> block_hash \<Rightarrow> 32 word \<Rightarrow> transaction list \<Rightarrow>
   unit block_op" where
  "store_each S now n h seq [] = ok ()"
| "store_each S now n h seq (tx # txs) =
     attempt (pg_store_transaction S now n h tx seq) (\<lambda>_. store_each S now n h (seq + 1) txs)"

definition pg_store_block :: "store_ext \<Rightarrow> timestamp \<Rightarrow> block \<Rightarrow> unit block_op" where
  "pg_store_block S now b =
     (let h = blk_header b; n = bh_block_number h; c = bh_cluster_address h in
      and_then (store_each S now n (bh_block_hash h) 0 (blk_transactions b)) (\<lambda>_.
      and_then (pg_store_block_header S h) (\<lambda>_.
      and_then (pg_load_chain_state c) (\<lambda>cs.
      and_then (if cs_block_number cs = n - 1
                then pg_update_block_head c n (bh_block_hash h) else ok ()) (\<lambda>_.
        modify (insert_meta (c, n)))))))"

definition pg_batch_store_blocks :: "store_ext \<Rightarrow> timestamp \<Rightarrow> block list \<Rightarrow> unit block_op" where
  "pg_batch_store_blocks S now bs =
     (if bs = [] then fail (Failed ''No blocks to store'')
      else
        let h = blk_header (last bs) in
        and_then (modify (fold insert_meta (map (\<lambda>b. (bh_cluster_address (blk_header b),
                                                       bh_block_number (blk_header b))) bs))) (\<lambda>_.
        and_then (pg_batch_store_transactions S now (concat (map (\<lambda>b.
                    map (\<lambda>tx. (bh_block_number (blk_header b), bh_block_hash (blk_header b), tx))
                      (blk_transactions b)) bs))) (\<lambda>_.
        and_then (pg_batch_store_block_headers S (map blk_header bs)) (\<lambda>_.
          pg_update_block_head (bh_cluster_address h) (bh_block_number h) (bh_block_hash h)))))"

definition pg_load_block :: "store_ext \<Rightarrow> block_number \<Rightarrow> address \<Rightarrow> block block_op" where
  "pg_load_block S n c =
     and_then (pg_load_block_header S n c) (\<lambda>h.
     and_then (pg_load_transactions S n) (\<lambda>txs.
       ok \<lparr>blk_header = h, blk_transactions = txs\<rparr>))"

definition pg_block_head :: "store_ext \<Rightarrow> address \<Rightarrow> block block_op" where
  "pg_block_head S c =
     and_then (pg_load_chain_state c) (\<lambda>cs. pg_load_block S (cs_block_number cs) c)"

definition pg_block_head_header :: "store_ext \<Rightarrow> address \<Rightarrow> block_header block_op" where
  "pg_block_head_header S c =
     and_then (pg_load_chain_state c) (\<lambda>cs. pg_load_block_header S (cs_block_number cs) c)"

definition pg_is_block_executed :: "block_number \<Rightarrow> address \<Rightarrow> bool block_op" where
  "pg_is_block_executed n c = gets (\<lambda>d. t_block_meta_info d (c, n) = Some (Some True))"

definition pg_set_block_executed :: "block_number \<Rightarrow> address \<Rightarrow> unit block_op" where
  "pg_set_block_executed n c = modify (\<lambda>d. d\<lparr>t_block_meta_info :=
     (\<lambda>k. if k = (c, n) then map_option (\<lambda>_. Some True) (t_block_meta_info d k)
          else t_block_meta_info d k)\<rparr>)"

section \<open>Receipts and listings\<close>

record transaction_receipt =
  rc_transaction :: transaction
  rc_tx_hash :: transaction_hash
  rc_status :: bool
  rc_from :: address
  rc_block_number :: block_number
  rc_block_hash :: block_hash
  rc_fee_used :: balance
  rc_timestamp :: int

text \<open>\<^verbatim>\<open>ORDER BY timestamp DESC\<close>, which puts a null first.\<close>

definition latest_row :: "block_transaction_row list \<Rightarrow> block_transaction_row option" where
  "latest_row rows =
     (case find (\<lambda>r. br_timestamp r = None) rows of
        Some r \<Rightarrow> Some r
      | None \<Rightarrow>
         (case sort_key (\<lambda>r. - (case br_timestamp r of Some t \<Rightarrow> t | None \<Rightarrow> 0)) rows of
            [] \<Rightarrow> None
          | r # _ \<Rightarrow> Some r))"

text \<open>The status and the fee of a transaction; a transaction without metadata counts as executed when
  its block has any transaction.\<close>

definition receipt_status ::
  "transaction_hash \<Rightarrow> block_hash \<Rightarrow> database \<times> block_tables \<Rightarrow> error + bool \<times> balance" where
  "receipt_status th bh = (\<lambda>(d, b).
     case fst (pg_load_transaction_metadata th d) of
       Inr m \<Rightarrow> Inr (tm_is_successful m, tm_fee m)
     | Inl _ \<Rightarrow>
        (case find (\<lambda>r. hr_block_hash r = Some bh) (t_block_header b) of
           None \<Rightarrow> Inr (False, 0)
         | Some r \<Rightarrow>
            (case hr_num_transactions r of
               None \<Rightarrow> Inl (Failed ''Failed to parse num_transactions in given block'')
             | Some k \<Rightarrow> Inr (0 < sint k, 0))))"

definition receipt_of_row ::
  "store_ext \<Rightarrow> block_transaction_row \<Rightarrow> database \<times> block_tables \<Rightarrow> error + transaction_receipt" where
  "receipt_of_row S r st =
     (case br_block_hash r of
        None \<Rightarrow> Inl (Failed ''Failed to parse block hash'')
      | Some bh \<Rightarrow>
         (case br_from_address r of
            None \<Rightarrow> Inl (Failed ''Failed to decode from address'')
          | Some a \<Rightarrow>
             (case br_transaction r of
                None \<Rightarrow> Inl Panic
              | Some bs \<Rightarrow>
                 (case deserialize_transaction S bs of
                    Inl e \<Rightarrow> Inl e
                  | Inr tx \<Rightarrow>
                     (case receipt_status (br_transaction_hash r) bh st of
                        Inl e \<Rightarrow> Inl e
                      | Inr (success, fee) \<Rightarrow> Inr
                         \<lparr>rc_transaction = tx, rc_tx_hash = br_transaction_hash r, rc_status = success,
                          rc_from = a, rc_block_number = br_block_number r, rc_block_hash = bh,
                          rc_fee_used = fee,
                          rc_timestamp = (case br_timestamp r of Some t \<Rightarrow> t
                                          | None \<Rightarrow> se_max_datetime S) div 1000\<rparr>)))))"

definition pg_load_transaction_receipt ::
  "store_ext \<Rightarrow> transaction_hash \<Rightarrow> address \<Rightarrow>
   (database \<times> block_tables, error, transaction_receipt option) op" where
  "pg_load_transaction_receipt S th c = (\<lambda>(d, b).
     case latest_row (filter (\<lambda>r. br_transaction_hash r = th) (t_block_transaction b)) of
       None \<Rightarrow> (Inl (DbError ''Diesel query failed''), (d, b))
     | Some r \<Rightarrow>
        if t_block_meta_info b (c, br_block_number r) = Some (Some True)
        then (map_sum id Some (receipt_of_row S r (d, b)), (d, b))
        else (Inl (Failed ''Block is not executed yet''), (d, b)))"

text \<open>The listings report the fee limit as the fee and every transaction as successful; a missing
  transaction is an error in one of them (\<open>missing\<close>) and a panic in the other.\<close>

fun listed_rows ::
  "store_ext \<Rightarrow> error \<Rightarrow> block_transaction_row list \<Rightarrow> error + transaction_receipt list" where
  "listed_rows S missing [] = Inr []"
| "listed_rows S missing (r # rs) =
     (case br_fee_used r of
        None \<Rightarrow> Inl (Failed ''Block number is None'')
      | Some fee \<Rightarrow>
         (case br_transaction r of
            None \<Rightarrow> Inl missing
          | Some bs \<Rightarrow>
             (case deserialize_transaction S bs of
                Inl e \<Rightarrow> Inl e
              | Inr tx \<Rightarrow>
                 (case listed_rows S missing rs of
                    Inl e \<Rightarrow> Inl e
                  | Inr l \<Rightarrow> Inr
                     (\<lparr>rc_transaction = tx, rc_tx_hash = br_transaction_hash r, rc_status = True,
                       rc_from = (case br_from_address r of Some a \<Rightarrow> a | None \<Rightarrow> 0),
                       rc_block_number = br_block_number r,
                       rc_block_hash = hash_column (br_block_hash r), rc_fee_used = fee,
                       rc_timestamp = 0\<rparr> # l)))))"

definition pg_load_transaction_receipt_by_address ::
  "store_ext \<Rightarrow> address \<Rightarrow> transaction_receipt list block_op" where
  "pg_load_transaction_receipt_by_address S a = (\<lambda>d.
     (listed_rows S Panic (filter (\<lambda>r. br_from_address r = Some a) (t_block_transaction d)), d))"

definition pg_load_transactions_response ::
  "store_ext \<Rightarrow> block_number \<Rightarrow> transaction_receipt list block_op" where
  "pg_load_transactions_response S n = (\<lambda>d.
     (listed_rows S (Failed ''Transaction data is None'')
        (filter (\<lambda>r. br_block_number r = n) (t_block_transaction d)), d))"

record block_response =
  blr_header :: block_header
  blr_transactions :: "transaction_receipt list"

definition pg_load_block_response :: "store_ext \<Rightarrow> block_number \<Rightarrow> address \<Rightarrow> block_response block_op" where
  "pg_load_block_response S n c =
     and_then (pg_load_block_header S n c) (\<lambda>h.
     and_then (pg_load_transactions_response S n) (\<lambda>txs.
       ok \<lparr>blr_header = h, blr_transactions = txs\<rparr>))"

text \<open>The header of the RPC model, with hashes for their hexadecimal strings.\<close>

record rpc_block_header =
  rh_block_number :: "64 word"
  rh_block_hash :: "block_hash option"
  rh_parent_hash :: "block_hash option"
  rh_block_type :: int
  rh_cluster_address :: address
  rh_num_transactions :: "32 word"
  rh_timestamp :: int
  rh_block_version :: int
  rh_state_hash :: block_hash
  rh_epoch :: nat

definition rpc_header_of_row :: "block_header_row \<Rightarrow> error + rpc_block_header" where
  "rpc_header_of_row r =
     (if 2 ^ 64 \<le> unat (hr_block_number r) \<or> 2 ^ 64 \<le> hr_epoch r then Inl Panic
      else case (hr_cluster_address r, hr_num_transactions r, hr_block_version r, hr_state_hash r) of
             (Some c, Some k, Some v, Some sh) \<Rightarrow> Inr
               \<lparr>rh_block_number = ucast (hr_block_number r), rh_block_hash = hr_block_hash r,
                rh_parent_hash = hr_parent_hash r,
                rh_block_type = (case hr_block_type r of Some t \<Rightarrow> t | None \<Rightarrow> 0),
                rh_cluster_address = c, rh_num_transactions = k, rh_timestamp = 0,
                rh_block_version = v, rh_state_hash = sh, rh_epoch = hr_epoch r\<rparr>
           | _ \<Rightarrow> Inl Panic)"

fun rpc_headers_of_rows :: "block_header_row list \<Rightarrow> error + rpc_block_header list" where
  "rpc_headers_of_rows [] = Inr []"
| "rpc_headers_of_rows (r # rs) =
     (case rpc_header_of_row r of
        Inl e \<Rightarrow> Inl e
      | Inr h \<Rightarrow> (case rpc_headers_of_rows rs of Inl e \<Rightarrow> Inl e | Inr hs \<Rightarrow> Inr (h # hs)))"

definition pg_load_latest_block_headers :: "32 word \<Rightarrow> address \<Rightarrow> rpc_block_header list block_op" where
  "pg_load_latest_block_headers k c =
     and_then (pg_load_chain_state c) (\<lambda>cs d.
       (rpc_headers_of_rows (filter (\<lambda>r. cs_block_number cs - ucast k < hr_block_number r)
          (t_block_header d)), d))"

section \<open>Inserts\<close>

lemma insert_new_fresh: "key r \<notin> key ` set rows \<Longrightarrow> insert_new key r rows = rows @ [r]"
  by (simp add: insert_new_def)

lemma find_append: "find P (xs @ ys) = (case find P xs of Some x \<Rightarrow> Some x | None \<Rightarrow> find P ys)"
  by (induction xs) auto

lemma find_insert_new:
  "find P rows = Some x \<Longrightarrow> find P (insert_new key r rows) = Some x"
  by (simp add: insert_new_def find_append)

lemma fold_insert_transaction:
  assumes "distinct (map transaction_key rs)"
    and "\<forall>r \<in> set rs. transaction_key r \<notin> transaction_key ` set (t_block_transaction d)"
  shows "fold insert_transaction rs d = d\<lparr>t_block_transaction := t_block_transaction d @ rs\<rparr>"
  using assms
proof (induction rs arbitrary: d)
  case Nil
  then show ?case by simp
next
  case (Cons r rs)
  have "insert_transaction r d = d\<lparr>t_block_transaction := t_block_transaction d @ [r]\<rparr>"
    using Cons.prems(2) by (simp add: insert_transaction_def insert_new_fresh)
  moreover have "fold insert_transaction rs (d\<lparr>t_block_transaction := t_block_transaction d @ [r]\<rparr>) =
      d\<lparr>t_block_transaction := t_block_transaction d @ r # rs\<rparr>"
    using Cons.prems by (subst Cons.IH) (auto, metis imageI)
  ultimately show ?case by simp
qed

section \<open>The rows of a block\<close>

text \<open>The rows that storing the transactions one by one adds: those that can be built.\<close>

fun seq_rows ::
  "store_ext \<Rightarrow> timestamp \<Rightarrow> block_number \<Rightarrow> block_hash \<Rightarrow> 32 word \<Rightarrow> transaction list \<Rightarrow>
   block_transaction_row list" where
  "seq_rows S now n h seq [] = []"
| "seq_rows S now n h seq (tx # txs) =
     (case transaction_row S now n h tx seq of Inl _ \<Rightarrow> [] | Inr r \<Rightarrow> [r]) @
     seq_rows S now n h (seq + 1) txs"

lemma store_each_run:
  "store_each S now n h seq txs d = (Inr (), fold insert_transaction (seq_rows S now n h seq txs) d)"
  by (induction txs arbitrary: seq d)
    (auto simp: attempt_def pg_store_transaction_def modify_def fail_def ok_def split: sum.splits)

definition storable_tx :: "store_ext \<Rightarrow> transaction \<Rightarrow> bool" where
  "storable_tx S tx \<longleftrightarrow>
     (case x_bincode_tx (se_ext S) tx of None \<Rightarrow> False | Some bs \<Rightarrow> se_decode S bs = Some tx) \<and>
     \<not> isl (tx_hash (se_ext S) tx) \<and> \<not> isl (account_address (se_ext S) (tx_verifying_key tx))"

definition storable :: "store_ext \<Rightarrow> block \<Rightarrow> bool" where
  "storable S b \<longleftrightarrow>
     list_all (storable_tx S) (blk_transactions b) \<and>
     distinct (map (tx_hash (se_ext S)) (blk_transactions b)) \<and>
     length (blk_transactions b) < 2 ^ 32 \<and>
     unat (bh_block_version (blk_header b)) < 2 ^ 31 \<and> unat (bh_epoch (blk_header b)) < 2 ^ 63 \<and>
     se_in_range S (sint (bh_timestamp (blk_header b)) * 1000)"

lemma storable_row:
  assumes "storable_tx S tx"
  obtains r bs where "transaction_row S now n h tx seq = Inr r" "br_block_number r = n"
    "br_tx_sequence r = Some seq" "br_transaction r = Some bs" "deserialize_transaction S bs = Inr tx"
    "tx_hash (se_ext S) tx = Inr (br_transaction_hash r)"
proof -
  obtain bs where bs: "x_bincode_tx (se_ext S) tx = Some bs" "se_decode S bs = Some tx"
    using assms by (auto simp: storable_tx_def split: option.splits)
  obtain th a where "tx_hash (se_ext S) tx = Inr th" "account_address (se_ext S) (tx_verifying_key tx) = Inr a"
    using assms by (auto simp: storable_tx_def isl_def) (meson sumE)
  with bs show ?thesis
    by (intro that [of "\<lparr>br_transaction_hash = th, br_block_number = n, br_block_hash = Some h,
                  br_fee_used = Some (tx_fee_limit tx), br_from_address = Some a,
                  br_timestamp = Some (convert_to_naive_datetime S now), br_transaction = Some bs,
                  br_tx_sequence = Some seq\<rparr>" bs])
      (simp_all add: transaction_row_def deserialize_transaction_def)
qed

lemma seq_rows_storable:
  assumes "list_all (storable_tx S) txs" and "unat seq + length txs \<le> 2 ^ 32"
  shows "decode_rows S (seq_rows S now n h seq txs) = Inr txs"
    and "map (\<lambda>r. Inr (br_transaction_hash r)) (seq_rows S now n h seq txs) = map (tx_hash (se_ext S)) txs"
    and "\<forall>r \<in> set (seq_rows S now n h seq txs). br_block_number r = n \<and> unat seq \<le> sequence_key r"
    and "sorted (map sequence_key (seq_rows S now n h seq txs))"
proof -
  have "decode_rows S (seq_rows S now n h seq txs) = Inr txs \<and>
      map (\<lambda>r. Inr (br_transaction_hash r)) (seq_rows S now n h seq txs) = map (tx_hash (se_ext S)) txs \<and>
      (\<forall>r \<in> set (seq_rows S now n h seq txs). br_block_number r = n \<and> unat seq \<le> sequence_key r) \<and>
      sorted (map sequence_key (seq_rows S now n h seq txs))"
    using assms
  proof (induction txs arbitrary: seq)
    case Nil
    then show ?case by simp
  next
    case (Cons tx txs)
    obtain r bs where r: "transaction_row S now n h tx seq = Inr r" "br_block_number r = n"
      "br_tx_sequence r = Some seq" "br_transaction r = Some bs" "deserialize_transaction S bs = Inr tx"
      "tx_hash (se_ext S) tx = Inr (br_transaction_hash r)"
      by (rule storable_row [of S tx now n h seq]) (use Cons.prems(1) in simp)
    show ?case
    proof (cases "txs = []")
      case True
      with r show ?thesis by (simp add: sequence_key_def)
    next
      case False
      have seq: "unat (seq + 1) = unat seq + 1"
        using Cons.prems(2) False by (cases txs) (simp_all add: unat_word_ariths)
      then have IH: "decode_rows S (seq_rows S now n h (seq + 1) txs) = Inr txs"
        "map (\<lambda>r. Inr (br_transaction_hash r)) (seq_rows S now n h (seq + 1) txs) = map (tx_hash (se_ext S)) txs"
        "\<forall>r \<in> set (seq_rows S now n h (seq + 1) txs). br_block_number r = n \<and> unat seq + 1 \<le> sequence_key r"
        "sorted (map sequence_key (seq_rows S now n h (seq + 1) txs))"
        using Cons.IH [of "seq + 1"] Cons.prems by simp_all
      have "sequence_key r = unat seq" using r(3) by (simp add: sequence_key_def)
      with r IH show ?thesis by fastforce
    qed
  qed
  then show "decode_rows S (seq_rows S now n h seq txs) = Inr txs"
    and "map (\<lambda>r. Inr (br_transaction_hash r)) (seq_rows S now n h seq txs) = map (tx_hash (se_ext S)) txs"
    and "\<forall>r \<in> set (seq_rows S now n h seq txs). br_block_number r = n \<and> unat seq \<le> sequence_key r"
    and "sorted (map sequence_key (seq_rows S now n h seq txs))" by blast+
qed

section \<open>A stored block is read back\<close>

lemma header_roundtrip:
  assumes "storable S b"
  shows "header_of_row S (bh_block_number (blk_header b)) (header_row S (blk_header b)) = Inr (blk_header b)"
proof -
  let ?h = "blk_header b"
  have "version_of_row (Some (uint (bh_block_version ?h))) = bh_block_version ?h"
    by (simp add: version_of_row_def)
  moreover have "epoch_of_row (unat (bh_epoch ?h)) = bh_epoch ?h"
    using assms by (simp add: epoch_of_row_def storable_def)
  moreover have "block_type_try_from (block_type_to_i8 t) = Inr t" for t
    by (cases t) (simp_all add: block_type_try_from_def)
  moreover have "(of_int (sint (bh_timestamp ?h) * 1000 div 1000) :: block_timestamp) = bh_timestamp ?h"
    by simp
  ultimately show ?thesis
    using assms
    by (simp add: header_of_row_def header_row_def hash_column_def storable_def
        block_timestamp_to_naive_datetime_def)
qed

lemma load_chain_state_tables:
  "t_block_head d = t_block_head d' \<Longrightarrow> fst (pg_load_chain_state c d) = fst (pg_load_chain_state c d')"
  by (simp add: pg_load_chain_state_def split: option.splits)

lemma load_chain_state_state: "snd (pg_load_chain_state c d) = d"
  by (simp add: pg_load_chain_state_def split: option.splits)

text \<open>What storing a block does, when the head of its cluster can be read.\<close>

lemma store_block_run:
  assumes "fst (pg_load_chain_state (bh_cluster_address (blk_header b)) d) = Inr cs"
  shows "pg_store_block S now b d =
    (let h = blk_header b; n = bh_block_number h; c = bh_cluster_address h;
         d1 = insert_header (header_row S h)
                (fold insert_transaction (seq_rows S now n (bh_block_hash h) 0 (blk_transactions b)) d)
     in (Inr (), insert_meta (c, n) (if cs_block_number cs = n - 1
           then snd (pg_update_block_head c n (bh_block_hash h) d1) else d1)))"
proof -
  let ?h = "blk_header b" let ?n = "bh_block_number ?h" let ?c = "bh_cluster_address ?h"
  let ?d1 = "insert_header (header_row S ?h)
     (fold insert_transaction (seq_rows S now ?n (bh_block_hash ?h) 0 (blk_transactions b)) d)"
  have "t_block_head (fold insert_transaction rs d) = t_block_head d" for rs
    by (induction rs arbitrary: d) (simp_all add: insert_transaction_def)
  then have "t_block_head ?d1 = t_block_head d" by (simp add: insert_header_def)
  then have "fst (pg_load_chain_state ?c ?d1) = Inr cs"
    using assms load_chain_state_tables by metis
  then have run: "pg_load_chain_state ?c ?d1 = (Inr cs, ?d1)"
    using load_chain_state_state [of ?c ?d1] by (simp add: prod_eq_iff)
  have "fst (pg_update_block_head c n k d) = Inr ()" for c n k d
    by (simp add: pg_update_block_head_def pg_is_block_head_def pg_store_block_head_def op_runs modify_def)
  then obtain d2 where "pg_update_block_head ?c ?n (bh_block_hash ?h) ?d1 = (Inr (), d2)"
    by (metis prod.collapse)
  then show ?thesis
    using run
    by (simp add: pg_store_block_def Let_def and_then_def store_each_run pg_store_block_header_def modify_def
        ok_def)
qed

lemma head_keeps:
  "t_block_header (snd (pg_update_block_head c n k d)) = t_block_header d"
  "t_block_transaction (snd (pg_update_block_head c n k d)) = t_block_transaction d"
  "t_block_meta_info (snd (pg_update_block_head c n k d)) = t_block_meta_info d"
  by (simp_all add: pg_update_block_head_def pg_is_block_head_def pg_store_block_head_def op_runs
      modify_def split: option.splits)

lemma meta_keeps:
  "t_block_header (insert_meta k d) = t_block_header d"
  "t_block_transaction (insert_meta k d) = t_block_transaction d"
  "t_block_head (insert_meta k d) = t_block_head d"
  by (simp_all add: insert_meta_def split: option.splits)

text \<open>
  C27: A block stored in the database is read back as it was stored: the header with every field and
  the transactions in their order. The block must be new, its transactions encodable with different
  hashes, and its version, epoch and timestamp within the columns.
\<close>

theorem stored_block_is_loaded:
  assumes "storable S b"
    and "fst (pg_load_chain_state (bh_cluster_address (blk_header b)) d) = Inr cs"
    and "\<forall>r \<in> set (t_block_header d). hr_block_number r \<noteq> bh_block_number (blk_header b)"
    and "\<forall>r \<in> set (t_block_transaction d). br_block_number r \<noteq> bh_block_number (blk_header b)"
  shows "\<exists>d'. pg_store_block S now b d = (Inr (), d') \<and>
           pg_load_block S (bh_block_number (blk_header b)) c d' = (Inr b, d')"
proof -
  let ?h = "blk_header b" let ?n = "bh_block_number ?h"
  let ?rs = "seq_rows S now ?n (bh_block_hash ?h) 0 (blk_transactions b)"
  have txs: "list_all (storable_tx S) (blk_transactions b)" "length (blk_transactions b) < 2 ^ 32"
    "distinct (map (tx_hash (se_ext S)) (blk_transactions b))"
    using assms(1) by (simp_all add: storable_def)
  have "unat (0 :: 32 word) + length (blk_transactions b) \<le> 2 ^ 32" using txs(2) by simp
  note rows = seq_rows_storable [OF txs(1) this, of now ?n "bh_block_hash ?h"]
  have "distinct (map transaction_key ?rs)"
  proof -
    have "distinct (map (\<lambda>r. Inr (br_transaction_hash r) :: error + transaction_hash) ?rs)"
      using rows(2) txs(3) by simp
    then show ?thesis by (auto simp: distinct_map inj_on_def transaction_key_def)
  qed
  moreover have "\<forall>r \<in> set ?rs. transaction_key r \<notin> transaction_key ` set (t_block_transaction d)"
    using rows(3) assms(4) by (fastforce simp: transaction_key_def)
  ultimately have rs: "fold insert_transaction ?rs d =
      d\<lparr>t_block_transaction := t_block_transaction d @ ?rs\<rparr>"
    by (rule fold_insert_transaction)
  define d1 where "d1 = insert_header (header_row S ?h) (fold insert_transaction ?rs d)"
  define d' where "d' = snd (pg_store_block S now b d)"
  have d1: "t_block_header d1 = t_block_header d @ [header_row S ?h]"
    "t_block_transaction d1 = t_block_transaction d @ ?rs"
    using assms(3) by (auto simp: d1_def rs insert_header_def insert_new_def header_row_def)
  have store: "pg_store_block S now b d = (Inr (), d')"
    by (simp add: d'_def store_block_run [OF assms(2)] Let_def)
  have tables: "t_block_header d' = t_block_header d @ [header_row S ?h]"
    "t_block_transaction d' = t_block_transaction d @ ?rs"
    by (simp_all add: d'_def store_block_run [OF assms(2)] Let_def d1_def [symmetric] d1 head_keeps meta_keeps)
  have "find (\<lambda>r. hr_block_number r = ?n) (t_block_header d) = None"
    using assms(3) by (simp add: find_None_iff)
  moreover have "hr_block_number (header_row S ?h) = ?n" by (simp add: header_row_def)
  ultimately have "find (\<lambda>r. hr_block_number r = ?n) (t_block_header d') = Some (header_row S ?h)"
    by (simp add: tables find_append)
  moreover have "sort_key sequence_key (filter (\<lambda>r. br_block_number r = ?n) (t_block_transaction d')) = ?rs"
    using assms(4) rows(3,4) by (simp add: tables sort_key_id_if_sorted filter_True)
  ultimately have "pg_load_block S ?n c d' = (Inr b, d')"
    using header_roundtrip [OF assms(1)] rows(1)
    by (simp add: pg_load_block_def pg_load_block_header_def pg_load_transactions_def and_then_def ok_def)
  with store show ?thesis by blast
qed

section \<open>The head of the chain\<close>

text \<open>
  Storing a block moves the head of its cluster exactly when the block is the next one after the
  head; a block that comes too early or too late leaves the head, and the head of every other cluster
  stays. A batch instead sets the head to its last block, whatever the head was.
\<close>

theorem head_after_store:
  assumes "pg_store_block S now b d = (Inr (), d')"
    and "fst (pg_load_chain_state (bh_cluster_address (blk_header b)) d) = Inr cs"
    and "pg_batch_store_blocks S now bs d = (Inr (), e)"
  shows "fst (pg_load_chain_state c d') =
           (if c = bh_cluster_address (blk_header b) \<and> cs_block_number cs = bh_block_number (blk_header b) - 1
            then Inr \<lparr>cs_cluster_address = c, cs_block_number = bh_block_number (blk_header b),
                      cs_block_hash = bh_block_hash (blk_header b)\<rparr>
            else fst (pg_load_chain_state c d)) \<and>
         fst (pg_load_chain_state (bh_cluster_address (blk_header (last bs))) e) =
           Inr \<lparr>cs_cluster_address = bh_cluster_address (blk_header (last bs)),
                cs_block_number = bh_block_number (blk_header (last bs)),
                cs_block_hash = bh_block_hash (blk_header (last bs))\<rparr>"
proof
  have txs: "t_block_head (fold insert_transaction rs x) = t_block_head x" for rs x
    by (induction rs arbitrary: x) (simp_all add: insert_transaction_def)
  have upd: "fst (pg_load_chain_state c (snd (pg_update_block_head c' n k x))) =
      (if c = c' then Inr \<lparr>cs_cluster_address = c, cs_block_number = n, cs_block_hash = k\<rparr>
       else fst (pg_load_chain_state c x))" for c c' n k x
    by (auto simp: pg_update_block_head_def pg_is_block_head_def pg_store_block_head_def
        pg_load_chain_state_def op_runs modify_def split: option.splits)
  let ?h = "blk_header b"
  let ?d1 = "insert_header (header_row S ?h) (fold insert_transaction
      (seq_rows S now (bh_block_number ?h) (bh_block_hash ?h) 0 (blk_transactions b)) d)"
  have "t_block_head ?d1 = t_block_head d" by (simp add: insert_header_def txs)
  then have d1: "fst (pg_load_chain_state c ?d1) = fst (pg_load_chain_state c d)" for c
    by (rule load_chain_state_tables)
  have d': "d' = insert_meta (bh_cluster_address ?h, bh_block_number ?h)
      (if cs_block_number cs = bh_block_number ?h - 1
       then snd (pg_update_block_head (bh_cluster_address ?h) (bh_block_number ?h) (bh_block_hash ?h) ?d1)
       else ?d1)"
    using assms(1) by (simp add: store_block_run [OF assms(2)] Let_def)
  have meta: "fst (pg_load_chain_state c (insert_meta k x)) = fst (pg_load_chain_state c x)" for k x
    by (rule load_chain_state_tables) (rule meta_keeps)
  show "fst (pg_load_chain_state c d') =
      (if c = bh_cluster_address ?h \<and> cs_block_number cs = bh_block_number ?h - 1
       then Inr \<lparr>cs_cluster_address = c, cs_block_number = bh_block_number ?h, cs_block_hash = bh_block_hash ?h\<rparr>
       else fst (pg_load_chain_state c d))"
    by (simp add: d' meta upd d1)
  obtain x where "pg_update_block_head (bh_cluster_address (blk_header (last bs)))
      (bh_block_number (blk_header (last bs))) (bh_block_hash (blk_header (last bs))) x = (Inr (), e)"
    using assms(3) by (auto simp: pg_batch_store_blocks_def Let_def op_elims fail_run split: if_splits)
  then show "fst (pg_load_chain_state (bh_cluster_address (blk_header (last bs))) e) =
      Inr \<lparr>cs_cluster_address = bh_cluster_address (blk_header (last bs)),
           cs_block_number = bh_block_number (blk_header (last bs)),
           cs_block_hash = bh_block_hash (blk_header (last bs))\<rparr>"
    using upd [of _ _ _ _ x] by (metis snd_conv)
qed

section \<open>What is stored stays\<close>

text \<open>The operations that write the tables of blocks.\<close>

inductive block_step :: "store_ext \<Rightarrow> block_tables \<Rightarrow> block_tables \<Rightarrow> bool" for S where
  store: "block_step S d (snd (pg_store_block S now b d))"
| batch: "block_step S d (snd (pg_batch_store_blocks S now bs d))"
| executed: "block_step S d (snd (pg_set_block_executed n c d))"
| head: "block_step S d (snd (pg_update_block_head c n h d))"
| genesis: "block_step S d (snd (pg_store_genesis_block_time n e d))"

definition stays :: "block_tables \<Rightarrow> block_tables \<Rightarrow> bool" where
  "stays d d' \<longleftrightarrow>
     (\<forall>P r. find P (t_block_header d) = Some r \<longrightarrow> find P (t_block_header d') = Some r) \<and>
     (\<forall>P r. find P (t_block_transaction d) = Some r \<longrightarrow> find P (t_block_transaction d') = Some r) \<and>
     (\<forall>k. t_block_meta_info d k = Some (Some True) \<longrightarrow> t_block_meta_info d' k = Some (Some True))"

lemma stays_frame: "frame stays"
  by unfold_locales (auto simp: stays_def)

interpretation st: frame stays
  by (rule stays_frame)

lemma stays_modify: "(\<And>d. stays d (f d)) \<Longrightarrow> keeps stays (modify f)"
  by (simp add: keeps_def modify_def)

lemma stays_fold: "(\<And>x d. stays d (f x d)) \<Longrightarrow> stays d (fold f xs d)"
  by (induction xs arbitrary: d) (auto intro: st.frame_refl st.frame_trans)

lemma stays_inserts:
  "stays d (insert_transaction r d)" "stays d (insert_header hr d)" "stays d (insert_meta k d)"
  by (auto simp: stays_def insert_transaction_def insert_header_def insert_meta_def find_insert_new
      split: option.splits)

lemma stays_ops:
  "keeps stays (pg_update_block_head c n h)"
  "keeps stays (pg_load_chain_state c)"
  "keeps stays (pg_set_block_executed n c)"
  "keeps stays (pg_store_genesis_block_time n e)"
  by (auto simp: keeps_def stays_def pg_update_block_head_def pg_is_block_head_def pg_store_block_head_def
      pg_load_chain_state_def pg_set_block_executed_def pg_store_genesis_block_time_def op_runs
      modify_def split: option.splits)

lemma stays_store_each: "keeps stays (store_each S now n h seq txs)"
  by (simp add: keeps_def store_each_run stays_fold stays_inserts)

lemma stays_store_block: "keeps stays (pg_store_block S now b)"
  unfolding pg_store_block_def Let_def pg_store_block_header_def
  by (auto intro!: st.keeps_rules stays_store_each stays_ops stays_modify stays_inserts)

lemma stays_batch: "keeps stays (pg_batch_store_blocks S now bs)"
  unfolding pg_batch_store_blocks_def Let_def pg_batch_store_transactions_def
    pg_batch_store_block_headers_def
  by (auto intro!: st.keeps_rules stays_ops stays_modify stays_fold stays_inserts split: sum.split)

text \<open>
  What the database holds of the chain is never changed or taken back. Whatever blocks are stored
  afterwards, one by one or in batches, conflicting ones included, a stored header and a stored
  transaction are still what a query finds, and a block once marked as executed stays marked.
\<close>

theorem stored_blocks_are_permanent:
  assumes "(block_step S)\<^sup>*\<^sup>* d d'"
  shows "(find P (t_block_header d) = Some r \<longrightarrow> find P (t_block_header d') = Some r) \<and>
         (find Q (t_block_transaction d) = Some tr \<longrightarrow> find Q (t_block_transaction d') = Some tr) \<and>
         (fst (pg_is_block_executed n c d) = Inr True \<longrightarrow> fst (pg_is_block_executed n c d') = Inr True)"
proof -
  have "stays d d'"
    using assms
  proof (induction rule: rtranclp_induct)
    case base
    show ?case by (rule st.frame_refl)
  next
    case (step y z)
    from step.hyps(2) have "stays y z"
      by cases (simp_all add: keeps_snd stays_store_block stays_batch stays_ops)
    with step.IH show ?case by (rule st.frame_trans)
  qed
  then show ?thesis by (simp add: stays_def pg_is_block_executed_def gets_def)
qed

section \<open>Sample runs\<close>

text \<open>Transactions that differ in their nonce, encoded as that nonce.\<close>

definition stored_tx :: "8 word \<Rightarrow> transaction" where
  "stored_tx n =
     \<lparr>tx_version = V3, tx_nonce = ucast n, tx_type = NativeTokenTransfer 3 30, tx_fee_limit = 10,
      tx_signature = [], tx_verifying_key = [], tx_eth_original = None\<rparr>"

definition demo_store :: store_ext where
  "demo_store =
     \<lparr>se_ext = \<lparr>x_keccak256 = (\<lambda>bs. case bs of [b] \<Rightarrow> ucast b | _ \<Rightarrow> 0), x_sha256 = (\<lambda>_. 0),
                x_public_key = (\<lambda>_. Some []), x_signature = (\<lambda>_. None),
                x_ecdsa_verify = (\<lambda>_ _ _. False), x_json = (\<lambda>_. None),
                x_bincode_tx = (\<lambda>tx. Some [ucast (tx_nonce tx)]), x_bincode_block = (\<lambda>_. None),
                x_eth_decode = (\<lambda>_. None), x_recoverable = (\<lambda>_ _ _. None),
                x_recover_ecdsa = (\<lambda>_ _ _. None)\<rparr>,
      se_decode = (\<lambda>bs. case bs of [b] \<Rightarrow> Some (stored_tx b) | _ \<Rightarrow> None),
      se_decode_v2 = (\<lambda>_. None), se_decode_v1 = (\<lambda>_. None), se_in_range = (\<lambda>_. True),
      se_max_datetime = 0\<rparr>"

definition demo_block :: "block_number \<Rightarrow> block" where
  "demo_block n =
     \<lparr>blk_header = block_header_default\<lparr>bh_block_number := n, bh_block_hash := 7, bh_timestamp := 1700000000,
        bh_num_transactions := 2\<rparr>,
      blk_transactions = [stored_tx 1, stored_tx 2]\<rparr>"

definition no_blocks :: block_tables where
  "no_blocks = \<lparr>t_block_head = Map.empty, t_block_header = [], t_block_meta_info = Map.empty,
                t_block_transaction = [], t_genesis_epoch_block = []\<rparr>"

lemma demo_storable: "storable demo_store (demo_block n)"
  by (simp add: storable_def storable_tx_def demo_block_def demo_store_def stored_tx_def tx_hash_def
      account_address_def block_header_default_def)

lemma no_blocks_head:
  "fst (pg_load_chain_state c no_blocks) = Inr \<lparr>cs_cluster_address = c, cs_block_number = 0, cs_block_hash = 0\<rparr>"
  by (simp add: pg_load_chain_state_def no_blocks_def)

theorem stored_block_is_loaded_witness:
  "\<exists>d'. pg_store_block demo_store 0 (demo_block 1) no_blocks = (Inr (), d') \<and>
     pg_load_block demo_store 1 0 d' = (Inr (demo_block 1), d')"
  using stored_block_is_loaded [OF demo_storable [of 1] no_blocks_head, of 0 0]
  by (simp add: no_blocks_def demo_block_def)

theorem head_after_store_witness:
  "\<exists>d' e. pg_store_block demo_store 0 (demo_block 1) no_blocks = (Inr (), d') \<and>
     fst (pg_load_chain_state 0 d') = Inr \<lparr>cs_cluster_address = 0, cs_block_number = 1, cs_block_hash = 7\<rparr> \<and>
     pg_batch_store_blocks demo_store 0 [demo_block 5] no_blocks = (Inr (), e) \<and>
     fst (pg_load_chain_state 0 e) = Inr \<lparr>cs_cluster_address = 0, cs_block_number = 5, cs_block_hash = 7\<rparr>"
proof -
  obtain d' where store: "pg_store_block demo_store 0 (demo_block 1) no_blocks = (Inr (), d')"
    by (simp add: store_block_run [OF no_blocks_head] Let_def)
  have "\<exists>e. pg_batch_store_blocks demo_store 0 [demo_block 5] no_blocks = (Inr (), e)"
    by (simp add: pg_batch_store_blocks_def Let_def pg_batch_store_transactions_def transaction_row_def
        demo_block_def demo_store_def stored_tx_def tx_hash_def account_address_def op_runs
        pg_batch_store_block_headers_def pg_update_block_head_def pg_is_block_head_def
        pg_store_block_head_def modify_def)
  then obtain e where batch: "pg_batch_store_blocks demo_store 0 [demo_block 5] no_blocks = (Inr (), e)" ..
  from head_after_store [OF store no_blocks_head batch, of 0] store batch show ?thesis
    by (simp add: demo_block_def block_header_default_def)
qed

theorem stored_blocks_are_permanent_witness:
  "fst (pg_is_block_executed 1 0 (snd (pg_store_block demo_store 0 (demo_block 1)
     (snd (pg_set_block_executed 1 0 (insert_meta (0, 1) no_blocks)))))) = Inr True"
proof -
  let ?d = "snd (pg_set_block_executed 1 0 (insert_meta (0, 1) no_blocks))"
  have "fst (pg_is_block_executed 1 0 ?d) = Inr True"
    by (simp add: pg_is_block_executed_def pg_set_block_executed_def gets_def modify_def insert_meta_def
        no_blocks_def)
  moreover have "block_step demo_store ?d (snd (pg_store_block demo_store 0 (demo_block 1) ?d))"
    by (rule block_step.store)
  ultimately show ?thesis
    using stored_blocks_are_permanent [OF r_into_rtranclp, of demo_store ?d _ _ _ _ _ 1 0] by blast
qed

end
