(* ===== verification/L1X_Runtime_Config.thy ===== *)
theory L1X_Runtime_Config
  imports L1X_Prelude L1X_System
begin

text \<open>
  The three process-wide caches of \<^verbatim>\<open>runtime_config/src\<close>: the configuration of the network, the deny
  list and the staking pools of the nodes. Each is filled from the answer of a system contract. The
  decoders of other crates (base64, JSON, TOML, borsh, UTF-8) are the parameter \<open>config_ext\<close>; a
  hash map that a decoder returns is the list of its entries. The check of a transfer against the
  deny list is that of \<^verbatim>\<open>util/src/generic.rs\<close>. A floating point number is its bit pattern.
\<close>

type_synonym f64 = "64 word"

section \<open>The configuration of the network\<close>

record xscore_config =
  xs_xscore_threshold :: f64
  xs_weight_for_stakescore :: f64
  xs_weight_for_kinscore :: f64

record stake_score_config =
  ss_min_balance :: "128 word"
  ss_max_balance :: "128 word"
  ss_min_stake_age :: "64 word"
  ss_max_stake_age :: "64 word"
  ss_min_lock_period :: "64 word"
  ss_max_lock_period :: "64 word"
  ss_weight_for_stake_balance_6 :: f64
  ss_weight_for_stake_age_6 :: f64
  ss_weight_for_locking_period_6 :: f64
  ss_weight_for_stake_balance_12 :: f64
  ss_weight_for_stake_age_12 :: f64
  ss_weight_for_locking_period_12 :: f64
  ss_weight_for_stake_balance_18 :: f64
  ss_weight_for_stake_age_18 :: f64
  ss_weight_for_locking_period_18 :: f64

record kin_score_config =
  ks_min_uptime :: f64
  ks_max_uptime :: f64
  ks_min_participation :: "32 word"
  ks_max_participation :: "32 word"
  ks_min_response_time :: "64 word"
  ks_max_response_time :: "64 word"
  ks_min_security_measure :: f64
  ks_max_security_measure :: f64
  ks_xscore_threshold :: f64
  ks_weight_for_uptime :: f64
  ks_weight_for_participation_history :: f64
  ks_weight_for_response_time :: f64
  ks_weight_for_security_measure :: f64

record config_version1 =
  c1_org_nodes :: "address list"
  c1_whitelisted_nodes :: "address list option"
  c1_whitelisted_block_proposers :: "address list option"
  c1_blacklisted_nodes :: "address list option"
  c1_blacklisted_block_proposers :: "address list option"
  c1_max_block_height :: "64 word option"
  c1_max_validators :: "64 word"
  c1_xscore :: xscore_config
  c1_stake_score :: stake_score_config
  c1_kin_score :: kin_score_config
  c1_validated_block_reward :: balance

record runtime_config =
  rc_org_nodes :: "address set"
  rc_whitelisted_nodes :: "address set option"
  rc_whitelisted_block_proposers :: "address set option"
  rc_blacklisted_nodes :: "address set option"
  rc_blacklisted_block_proposers :: "address set option"
  rc_max_block_height :: "64 word option"
  rc_max_validators :: "64 word"
  rc_xscore :: xscore_config
  rc_stake_score :: stake_score_config
  rc_kin_score :: kin_score_config
  rc_validated_block_reward :: balance

definition runtime_config_from :: "config_version1 \<Rightarrow> runtime_config" where
  "runtime_config_from c =
     \<lparr>rc_org_nodes = set (c1_org_nodes c),
      rc_whitelisted_nodes = map_option set (c1_whitelisted_nodes c),
      rc_whitelisted_block_proposers = map_option set (c1_whitelisted_block_proposers c),
      rc_blacklisted_nodes = map_option set (c1_blacklisted_nodes c),
      rc_blacklisted_block_proposers = map_option set (c1_blacklisted_block_proposers c),
      rc_max_block_height = c1_max_block_height c, rc_max_validators = c1_max_validators c,
      rc_xscore = c1_xscore c, rc_stake_score = c1_stake_score c, rc_kin_score = c1_kin_score c,
      rc_validated_block_reward = c1_validated_block_reward c\<rparr>"

section \<open>The deny list\<close>

record role_based_lists =
  rbl_receivers :: "address list"
  rbl_senders :: "address list"

record role_based_lists_output =
  rbo_deny_list :: role_based_lists
  rbo_allow_list :: role_based_lists

record wb_addresses =
  wb_sender_addresses :: "address set"
  wb_receiver_addresses :: "address set"

record deny_config =
  dc_whitelisted_addresses :: "wb_addresses option"
  dc_blacklisted_addresses :: "wb_addresses option"

definition wb_addresses_from :: "role_based_lists \<Rightarrow> wb_addresses" where
  "wb_addresses_from v =
     \<lparr>wb_sender_addresses = set (rbl_senders v), wb_receiver_addresses = set (rbl_receivers v)\<rparr>"

definition deny_config_from :: "role_based_lists_output \<Rightarrow> deny_config" where
  "deny_config_from c =
     \<lparr>dc_whitelisted_addresses =
        (if rbl_receivers (rbo_allow_list c) = [] \<and> rbl_receivers (rbo_allow_list c) = [] then None
         else Some (wb_addresses_from (rbo_allow_list c))),
      dc_blacklisted_addresses =
        (if rbl_receivers (rbo_deny_list c) = [] \<and> rbl_senders (rbo_deny_list c) = [] then None
         else Some (wb_addresses_from (rbo_deny_list c)))\<rparr>"

section \<open>The staking pools of the nodes\<close>

record node_pool_info =
  npi_node :: address
  npi_staked_balance :: balance
  npi_locking_period :: timestamp
  npi_reward_wallet_address :: address
  npi_min_pool_balance :: balance
  npi_min_pool_balance_from :: "timestamp option"
  npi_max_pool_balance :: balance
  npi_max_pool_balance_from :: "timestamp option"

record staking_info =
  si_nodes :: "address \<rightharpoonup> node_pool_info"
  si_reward_node_map :: "address \<rightharpoonup> address"

definition staking_info_from :: "(address \<times> node_pool_info) list \<Rightarrow> staking_info" where
  "staking_info_from entries =
     fold (\<lambda>(a, info) si.
         \<lparr>si_nodes = (si_nodes si)(a \<mapsto> info),
          si_reward_node_map = (si_reward_node_map si)(npi_reward_wallet_address info \<mapsto> a)\<rparr>)
       entries \<lparr>si_nodes = Map.empty, si_reward_node_map = Map.empty\<rparr>"

section \<open>Decoding\<close>

record config_ext =
  cx_utf8_lossy :: "bytes \<Rightarrow> bytes"
  cx_json_string :: "bytes \<Rightarrow> bytes option"
  cx_base64 :: "bytes \<Rightarrow> bytes option"
  cx_toml :: "bytes \<Rightarrow> config_version1 option"
  cx_borsh_lists :: "bytes \<Rightarrow> role_based_lists_output option"
  cx_json_pools :: "bytes \<Rightarrow> (address \<times> node_pool_info) list option"
  cx_hex :: "bytes \<Rightarrow> bytes option"

definition QUOTE :: byte where "QUOTE = 0x22"

definition try_unquote_string_fast :: "config_ext \<Rightarrow> bytes \<Rightarrow> error + bytes" where
  "try_unquote_string_fast Z data =
     (if length data < 2 then Inl (Failed ''Data is too short'')
      else if hd data = QUOTE
      then (if last data = QUOTE then Inr (cx_utf8_lossy Z (butlast (tl data)))
            else Inl (Failed ''Last char''))
      else Inl (Failed ''First char''))"

definition decode_base64 :: "config_ext \<Rightarrow> bytes \<Rightarrow> error + bytes" where
  "decode_base64 Z data =
     (case (case try_unquote_string_fast Z data of
              Inr text \<Rightarrow> Some text
            | Inl _ \<Rightarrow> cx_json_string Z data) of
        None \<Rightarrow> Inl (Failed ''Can't decode Runtime Config from json'')
      | Some text \<Rightarrow>
         (case cx_base64 Z text of
            None \<Rightarrow> Inl (Failed ''Can't decode Runtime Config from base64'')
          | Some buffer \<Rightarrow> Inr buffer))"

definition address_string_try_from :: "config_ext \<Rightarrow> bytes \<Rightarrow> error + address" where
  "address_string_try_from Z s =
     (let v = (if take 2 s = [0x30, 0x78] then drop 2 s else s) in
      case cx_hex Z v of
        None \<Rightarrow> Inl (Failed ''Can't create address from string'')
      | Some bs \<Rightarrow> if length bs = 20 then Inr (le_word (rev bs))
                    else Inl (Failed ''Can't create address from vector''))"

section \<open>The caches\<close>

record runtime_caches =
  rt_config :: "runtime_config option"
  rt_deny :: "deny_config option"
  rt_staking :: "staking_info option"

type_synonym 'a cache_op = "(runtime_caches, error, 'a) op"

definition config_is_initialized :: "bool cache_op" where
  "config_is_initialized = gets (\<lambda>c. rt_config c \<noteq> None)"

definition config_refresh :: "config_ext \<Rightarrow> bytes \<Rightarrow> unit cache_op" where
  "config_refresh Z data = (\<lambda>c.
     case decode_base64 Z data of
       Inl e \<Rightarrow> (Inl e, c)
     | Inr toml \<Rightarrow>
        (case cx_toml Z (cx_utf8_lossy Z toml) of
           None \<Rightarrow> (Inl (Failed ''Can't decode Runtime Config from toml''), c)
         | Some v1 \<Rightarrow>
             if card (set (c1_org_nodes v1)) < 2 then (Inl (Failed ''Org_nodes length''), c)
             else (Inr (), c\<lparr>rt_config := Some (runtime_config_from v1)\<rparr>)))"

definition config_get :: "runtime_config cache_op" where
  "config_get = (\<lambda>c. case rt_config c of
     None \<Rightarrow> (Inl (Failed ''Runtime Config is not initialized''), c) | Some r \<Rightarrow> (Inr r, c))"

definition deny_is_initialized :: "bool cache_op" where
  "deny_is_initialized = gets (\<lambda>c. rt_deny c \<noteq> None)"

definition deny_refresh :: "config_ext \<Rightarrow> bytes \<Rightarrow> unit cache_op" where
  "deny_refresh Z data = (\<lambda>c.
     case decode_base64 Z data of
       Inl e \<Rightarrow> (Inl e, c)
     | Inr borsh \<Rightarrow>
        (case cx_borsh_lists Z borsh of
           None \<Rightarrow> (Inl (Failed ''borsh''), c)
         | Some l \<Rightarrow> (Inr (), c\<lparr>rt_deny := Some (deny_config_from l)\<rparr>)))"

definition deny_get :: "deny_config cache_op" where
  "deny_get = (\<lambda>c. case rt_deny c of
     None \<Rightarrow> (Inl (Failed ''Runtime Deny Config is not initialized''), c) | Some r \<Rightarrow> (Inr r, c))"

definition staking_is_initialized :: "bool cache_op" where
  "staking_is_initialized = gets (\<lambda>c. rt_staking c \<noteq> None)"

definition staking_refresh :: "config_ext \<Rightarrow> bytes \<Rightarrow> unit cache_op" where
  "staking_refresh Z data = (\<lambda>c.
     case cx_json_pools Z data of
       None \<Rightarrow> (Inl (Failed ''json''), c)
     | Some entries \<Rightarrow> (Inr (), c\<lparr>rt_staking := Some (staking_info_from entries)\<rparr>))"

definition staking_get :: "staking_info cache_op" where
  "staking_get = (\<lambda>c. case rt_staking c of
     None \<Rightarrow> (Inl (Failed ''Runtime Staking is not initialized''), c) | Some r \<Rightarrow> (Inr r, c))"

section \<open>Transfers and the deny list\<close>

definition is_transfer_allowed ::
  "wb_addresses option \<Rightarrow> wb_addresses option \<Rightarrow> address \<Rightarrow> address \<Rightarrow> bool" where
  "is_transfer_allowed white black from_a to_a =
     (let is_blacklisted_sender =
            (case black of Some b \<Rightarrow> from_a \<in> wb_sender_addresses b | None \<Rightarrow> False);
          is_whitelisted_receiver =
            (case white of Some w \<Rightarrow> to_a \<in> wb_receiver_addresses w | None \<Rightarrow> True);
          is_blacklisted_receiver =
            (case black of Some b \<Rightarrow> to_a \<in> wb_receiver_addresses b | None \<Rightarrow> False)
      in \<not> (is_blacklisted_receiver \<or> is_blacklisted_sender \<and> \<not> is_whitelisted_receiver))"

definition wb_list_check :: "address \<Rightarrow> address \<Rightarrow> unit cache_op" where
  "wb_list_check from_a to_a =
     and_then deny_get (\<lambda>config.
       require (is_transfer_allowed (dc_whitelisted_addresses config)
                  (dc_blacklisted_addresses config) from_a to_a)
         (Failed ''Insufficient privileges''))"

text \<open>
  What the deny list means. After a refresh a transfer passes exactly when its receiver is not
  denied and its sender is not denied either, unless the receiver is on the allow list; with an allow
  list that names no receiver a denied sender can pay everyone.
\<close>

theorem deny_list_decides:
  assumes "deny_refresh Z data c = (Inr (), c')"
  shows "\<exists>borsh l. decode_base64 Z data = Inr borsh \<and> cx_borsh_lists Z borsh = Some l \<and>
     (wb_list_check a b c' = (Inr (), c') \<longleftrightarrow>
        b \<notin> set (rbl_receivers (rbo_deny_list l)) \<and>
        (a \<in> set (rbl_senders (rbo_deny_list l)) \<longrightarrow>
           rbl_receivers (rbo_allow_list l) = [] \<or> b \<in> set (rbl_receivers (rbo_allow_list l))))"
proof -
  obtain borsh l where "decode_base64 Z data = Inr borsh" "cx_borsh_lists Z borsh = Some l"
    and "c' = c\<lparr>rt_deny := Some (deny_config_from l)\<rparr>"
    using assms by (auto simp: deny_refresh_def split: sum.splits option.splits)
  then show ?thesis
    by (auto simp: wb_list_check_def deny_get_def and_then_def require_def is_transfer_allowed_def Let_def
        deny_config_from_def wb_addresses_from_def ok_def fail_def)
qed

theorem deny_list_decides_witness:
  "let l = \<lparr>rbo_deny_list = \<lparr>rbl_receivers = [], rbl_senders = [7]\<rparr>,
            rbo_allow_list = \<lparr>rbl_receivers = [], rbl_senders = [8]\<rparr>\<rparr>;
       Z = \<lparr>cx_utf8_lossy = id, cx_json_string = (\<lambda>_. None), cx_base64 = Some, cx_toml = (\<lambda>_. None),
            cx_borsh_lists = (\<lambda>_. Some l), cx_json_pools = (\<lambda>_. None), cx_hex = (\<lambda>_. None)\<rparr>;
       c = \<lparr>rt_config = None, rt_deny = None, rt_staking = None\<rparr>
   in wb_list_check 7 9 (snd (deny_refresh Z [34, 34] c)) = (Inr (), snd (deny_refresh Z [34, 34] c))"
proof -
  let ?l = "\<lparr>rbo_deny_list = \<lparr>rbl_receivers = [], rbl_senders = [7]\<rparr>,
            rbo_allow_list = \<lparr>rbl_receivers = [], rbl_senders = [8]\<rparr>\<rparr>"
  let ?Z = "\<lparr>cx_utf8_lossy = id, cx_json_string = (\<lambda>_. None), cx_base64 = Some, cx_toml = (\<lambda>_. None),
            cx_borsh_lists = (\<lambda>_. Some ?l), cx_json_pools = (\<lambda>_. None), cx_hex = (\<lambda>_. None)\<rparr>"
  let ?c = "\<lparr>rt_config = None, rt_deny = None, rt_staking = None\<rparr>"
  have "deny_refresh ?Z [34, 34] ?c = (Inr (), snd (deny_refresh ?Z [34, 34] ?c))"
    by (simp add: deny_refresh_def decode_base64_def try_unquote_string_fast_def QUOTE_def)
  from deny_list_decides [OF this, of 7 9] show ?thesis by (simp add: Let_def)
qed

end
