(* ===== verification/L1X_Block.thy ===== *)
theory L1X_Block
  imports L1X_Transaction L1X_Block_Store L1X_Runtime_Config
begin

text \<open>
  The execution of a block (\<^verbatim>\<open>execute/src/execute_block.rs\<close>): the transactions in the order of their
  nonces, each on a clone of the state of the block, the fee limit that is locked before and
  refunded after, the refresh of the runtime caches when a system contract changed, the commit and
  the mark of the block. \<^verbatim>\<open>execute_block\<close> runs all this in one transaction of the database.

  A transaction of the block can stop early (\<^verbatim>\<open>continue_on_error\<close>); only a panic ends the loop. The
  order in which the commit enumerates its hash maps and the time it records are parameters.
\<close>

section \<open>System contracts\<close>

definition CONFIG_CONTRACT_INSTANCE_ADDRESS :: address where
  "CONFIG_CONTRACT_INSTANCE_ADDRESS = 0x6e47e973e3819126314bdd9e45c7ae5de34f9167"

definition DENYLIST_CONTRACT_INSTANCE_ADDRESS :: address where
  "DENYLIST_CONTRACT_INSTANCE_ADDRESS = 0x407e17179e40b1535b8ed0145fa0c111daa2cd72"

definition STAKING_CONTRACT_INSTANCE_ADDRESS :: address where
  "STAKING_CONTRACT_INSTANCE_ADDRESS = 0x9f10ca806f89c4d057ac80badb3f671219dfd319"

definition READONLY_SYSTEM_CALL_GAS_LIMIT :: gas where
  "READONLY_SYSTEM_CALL_GAS_LIMIT = - 1"

definition as_bytes :: "string \<Rightarrow> bytes" where
  "as_bytes = map (of_nat \<circ> of_char)"

definition config_params :: "bytes \<times> bytes" where
  "config_params = (as_bytes ''config'', as_bytes ''{}'')"

definition prev_config_params :: "bytes \<times> bytes" where
  "prev_config_params = (as_bytes ''prev_config'', as_bytes ''{}'')"

definition rb_lists_params :: "bytes \<times> bytes" where
  "rb_lists_params = (as_bytes ''get_rb_lists_borsh'', as_bytes ''{}'')"

definition pool_info_params :: "bytes \<times> bytes" where
  "pool_info_params = (as_bytes ''get_pool_info_for_all_nodes'', as_bytes ''{}'')"

section \<open>Parameters and state\<close>

record block_params =
  bx_json :: json
  bx_config :: config_ext
  bx_order :: "updated_state \<Rightarrow> commit_order"
  bx_now :: timestamp

record block_world =
  bw_db :: database
  bw_blocks :: block_tables
  bw_caches :: runtime_caches

definition env_of :: "block_header \<Rightarrow> call_env" where
  "env_of h =
     \<lparr>ce_cluster_address = bh_cluster_address h, ce_nonce = 0, ce_transaction_hash = 0,
      ce_block_number = bh_block_number h, ce_block_hash = bh_block_hash h,
      ce_block_timestamp = bh_timestamp h\<rparr>"

section \<open>One transaction of a block\<close>

definition block_execute_transaction ::
  "chain \<Rightarrow> json \<Rightarrow> transaction \<Rightarrow> address \<Rightarrow> call_env \<Rightarrow>
   (transaction_result + transaction_result) state_op" where
  "block_execute_transaction X J tx account env =
     and_then (execute_transaction X J tx account env) (\<lambda>(result, event, fee, g).
       ok (case result of
             Inr _ \<Rightarrow> Inr \<lparr>tr_event = event, tr_fee = fee, tr_gas_burnt = g, tr_is_success = True,
                           tr_error = None\<rparr>
           | Inl e \<Rightarrow> Inl \<lparr>tr_event = event, tr_fee = fee, tr_gas_burnt = g, tr_is_success = False,
                           tr_error = Some e\<rparr>))"

definition metadata_of :: "transaction_hash \<Rightarrow> balance \<Rightarrow> transaction_result \<Rightarrow> transaction_metadata" where
  "metadata_of h fee r =
     \<lparr>tm_transaction_hash = h, tm_fee = fee, tm_burnt_gas = tr_gas_burnt r,
      tm_is_successful = tr_is_success r\<rparr>"

definition event_list :: "transaction_result \<Rightarrow> bytes list" where
  "event_list r = (case tr_event r of None \<Rightarrow> [] | Some e \<Rightarrow> [e])"

definition lock_fee_limit :: "address \<Rightarrow> balance \<Rightarrow> unit state_op" where
  "lock_fee_limit account limit =
     and_then (increment_nonce account) (\<lambda>_.
       just_transfer_tokens account FEE_RECIPIENT_MASTER_ADDRESS limit)"

definition refund :: "address \<Rightarrow> balance \<Rightarrow> unit state_op" where
  "refund account unused = just_transfer_tokens FEE_RECIPIENT_MASTER_ADDRESS account unused"

text \<open>The state of the loop: the state of the block and the events so far.\<close>

type_synonym loop_op = "(updated_state \<times> bytes list, error, unit) op"

definition settle_success ::
  "transaction_hash \<Rightarrow> address \<Rightarrow> balance \<Rightarrow> transaction_result \<Rightarrow> updated_state \<Rightarrow> updated_state \<Rightarrow>
   updated_state" where
  "settle_success h account limit r b t =
     (let b' = merge b t in
      case checked_sub limit (tr_fee r) of
        None \<Rightarrow> b'
      | Some unused \<Rightarrow>
         (case refund account unused t of
            (Inl _, _) \<Rightarrow> b'
          | (Inr _, t') \<Rightarrow>
              snd (store_transaction_metadata (metadata_of h (tr_fee r) r) (merge b' t'))))"

definition settle_failure ::
  "transaction_hash \<Rightarrow> address \<Rightarrow> balance \<Rightarrow> transaction_result \<Rightarrow> updated_state \<Rightarrow> updated_state" where
  "settle_failure h account limit r b =
     (case checked_sub limit (tr_fee r) of
        None \<Rightarrow> b
      | Some unused \<Rightarrow>
         (case refund account unused b of
            (Inl _, b') \<Rightarrow> b'
          | (Inr _, b') \<Rightarrow> snd (store_transaction_metadata (metadata_of h (tr_fee r) r) b')))"

definition block_step :: "chain \<Rightarrow> json \<Rightarrow> block_header \<Rightarrow> transaction \<Rightarrow> loop_op" where
  "block_step X J h tx = (\<lambda>(b, events).
     case account_address (ch_ext X) (tx_verifying_key tx) of
       Inl _ \<Rightarrow> (Inr (), (b, events))
     | Inr account \<Rightarrow>
        (case tx_hash (ch_ext X) tx of
           Inl _ \<Rightarrow> (Inr (), (b, events))
         | Inr hash \<Rightarrow>
            (case lock_fee_limit account (tx_fee_limit tx) b of
               (Inl _, _) \<Rightarrow> (Inr (), (b, events))
             | (Inr _, t) \<Rightarrow>
                (let b1 = merge b t in
                 case block_execute_transaction X J tx account (env_of h) t of
                   (Inl e, _) \<Rightarrow> (Inl e, (b1, events))
                 | (Inr (Inr r), t1) \<Rightarrow>
                     (Inr (), (settle_success hash account (tx_fee_limit tx) r b1 t1,
                               events @ event_list r))
                 | (Inr (Inl r), _) \<Rightarrow>
                     (Inr (), (settle_failure hash account (tx_fee_limit tx) r b1, events))))))"

definition system_block_step :: "chain \<Rightarrow> json \<Rightarrow> block_header \<Rightarrow> transaction \<Rightarrow> loop_op" where
  "system_block_step X J h tx = (\<lambda>(b, events).
     case account_address (ch_ext X) (tx_verifying_key tx) of
       Inl _ \<Rightarrow> (Inr (), (b, events))
     | Inr account \<Rightarrow>
        (case tx_hash (ch_ext X) tx of
           Inl _ \<Rightarrow> (Inr (), (b, events))
         | Inr hash \<Rightarrow>
            (case increment_nonce account b of
               (Inl _, _) \<Rightarrow> (Inr (), (b, events))
             | (Inr _, t) \<Rightarrow>
                (let b1 = merge b t in
                 case block_execute_transaction X J tx account (env_of h) t of
                   (Inl e, _) \<Rightarrow> (Inl e, (b1, events))
                 | (Inr (Inr r), t1) \<Rightarrow>
                     (Inr (), (snd (store_transaction_metadata (metadata_of hash 0 r) (merge b1 t1)),
                               events @ event_list r))
                 | (Inr (Inl r), _) \<Rightarrow>
                     (Inr (), (snd (store_transaction_metadata (metadata_of hash 0 r) b1), events))))))"

section \<open>Changes of the system contracts\<close>

definition system_call ::
  "chain \<Rightarrow> address \<Rightarrow> bytes \<times> bytes \<Rightarrow> block_header \<Rightarrow> bytes state_op" where
  "system_call X a params h =
     smart_contract_read_only_call X a (fst params) (snd params) READONLY_SYSTEM_CALL_GAS_LIMIT (env_of h)"

definition refresh_system_runtime_config ::
  "chain \<Rightarrow> config_ext \<Rightarrow> updated_state \<Rightarrow> block_header \<Rightarrow> unit cache_op" where
  "refresh_system_runtime_config X Z s h = (\<lambda>c.
     case system_call X CONFIG_CONTRACT_INSTANCE_ADDRESS config_params h s of
       (Inl e, _) \<Rightarrow> (Inl e, c)
     | (Inr result, temp) \<Rightarrow>
        (case config_refresh Z result c of
           (Inr _, c1) \<Rightarrow> (Inr (), c1)
         | (Inl _, c1) \<Rightarrow>
            if rt_config c1 \<noteq> None then (Inr (), c1)
            else (case system_call X CONFIG_CONTRACT_INSTANCE_ADDRESS prev_config_params h temp of
                    (Inl e, _) \<Rightarrow> (Inl e, c1)
                  | (Inr previous, _) \<Rightarrow> config_refresh Z previous c1)))"

definition refresh_system_runtime_deny_config ::
  "chain \<Rightarrow> config_ext \<Rightarrow> updated_state \<Rightarrow> block_header \<Rightarrow> unit cache_op" where
  "refresh_system_runtime_deny_config X Z s h = (\<lambda>c.
     case system_call X DENYLIST_CONTRACT_INSTANCE_ADDRESS rb_lists_params h s of
       (Inl e, _) \<Rightarrow> (Inl e, c)
     | (Inr result, _) \<Rightarrow>
        (case deny_refresh Z result c of
           (Inr _, c1) \<Rightarrow> (Inr (), c1)
         | (Inl e, c1) \<Rightarrow> (if rt_deny c1 \<noteq> None then Inr () else Inl e, c1)))"

definition refresh_system_staking_config ::
  "chain \<Rightarrow> config_ext \<Rightarrow> updated_state \<Rightarrow> block_header \<Rightarrow> unit cache_op" where
  "refresh_system_staking_config X Z s h = (\<lambda>c.
     case system_call X STAKING_CONTRACT_INSTANCE_ADDRESS pool_info_params h s of
       (Inl e, _) \<Rightarrow> (Inl e, c)
     | (Inr result, _) \<Rightarrow> staking_refresh Z result c)"

definition apply_system_contracts_changes ::
  "chain \<Rightarrow> config_ext \<Rightarrow> updated_state \<Rightarrow> block_header \<Rightarrow> unit cache_op" where
  "apply_system_contracts_changes X Z s h =
     and_then (if is_contract_state_updated s CONFIG_CONTRACT_INSTANCE_ADDRESS
               then refresh_system_runtime_config X Z s h else ok ()) (\<lambda>_.
     and_then (if is_contract_state_updated s DENYLIST_CONTRACT_INSTANCE_ADDRESS
               then refresh_system_runtime_deny_config X Z s h else ok ()) (\<lambda>_.
       if is_contract_state_updated s STAKING_CONTRACT_INSTANCE_ADDRESS
       then refresh_system_staking_config X Z s h else ok ()))"

section \<open>A block\<close>

definition sorted_transactions :: "block \<Rightarrow> transaction list" where
  "sorted_transactions blk = sort_key tx_nonce (blk_transactions blk)"

definition commit_block ::
  "block_params \<Rightarrow> block \<Rightarrow> updated_state \<Rightarrow> (block_world, error, unit) op" where
  "commit_block Y blk b = (\<lambda>w.
     case commit (bx_order Y b) (bx_now Y) b (bw_db w) of
       (Inl e, d) \<Rightarrow> (Inl (FailedWith ''Could not commit Block state'' e), w\<lparr>bw_db := d\<rparr>)
     | (Inr _, d) \<Rightarrow>
        (case pg_set_block_executed (bh_block_number (blk_header blk))
                (bh_cluster_address (blk_header blk)) (bw_blocks w) of
           (r, tables) \<Rightarrow> (r, w\<lparr>bw_db := d, bw_blocks := tables\<rparr>)))"

definition execute_block_inner ::
  "chain \<Rightarrow> block_params \<Rightarrow> block \<Rightarrow> (block_world, error, bytes list) op" where
  "execute_block_inner X Y blk = (\<lambda>w.
     case for_each (block_step X (bx_json Y) (blk_header blk)) (sorted_transactions blk)
            (updated_state_new (pg_channel (bw_db w)), []) of
       (Inl e, _) \<Rightarrow> (Inl e, w)
     | (Inr _, (b, events)) \<Rightarrow>
        (case apply_system_contracts_changes X (bx_config Y) b (blk_header blk) (bw_caches w) of
           (r, c) \<Rightarrow>
             if r = Inl Panic then (Inl Panic, w\<lparr>bw_caches := c\<rparr>)
             else and_then (commit_block Y blk b) (\<lambda>_. ok events) (w\<lparr>bw_caches := c\<rparr>)))"

definition execute_system_block_inner ::
  "chain \<Rightarrow> block_params \<Rightarrow> block \<Rightarrow> (block_world, error, bytes list) op" where
  "execute_system_block_inner X Y blk = (\<lambda>w.
     case for_each (system_block_step X (bx_json Y) (blk_header blk)) (sorted_transactions blk)
            (updated_state_new (pg_channel (bw_db w)), []) of
       (Inl e, _) \<Rightarrow> (Inl e, w)
     | (Inr _, (b, events)) \<Rightarrow>
        (case apply_system_contracts_changes X (bx_config Y) b (blk_header blk) (bw_caches w) of
           (Inl e, c) \<Rightarrow> (Inl e, w\<lparr>bw_caches := c\<rparr>)
         | (Inr _, c) \<Rightarrow> and_then (commit_block Y blk b) (\<lambda>_. ok events) (w\<lparr>bw_caches := c\<rparr>)))"

text \<open>The tables are rolled back when the inner run fails or panics; the caches are not.\<close>

definition execute_block ::
  "chain \<Rightarrow> block_params \<Rightarrow> block \<Rightarrow> (block_world, error, bytes list) op" where
  "execute_block X Y blk = (\<lambda>w.
     case pg_is_block_executed (bh_block_number (blk_header blk))
            (bh_cluster_address (blk_header blk)) (bw_blocks w) of
       (Inl e, _) \<Rightarrow> (Inl e, w)
     | (Inr True, _) \<Rightarrow> (Inr [], w)
     | (Inr False, _) \<Rightarrow>
        (case (if is_system_block blk then execute_system_block_inner X Y blk w
               else execute_block_inner X Y blk w) of
           (Inr events, w') \<Rightarrow> (Inr events, w')
         | (Inl e, w') \<Rightarrow> (Inl (FailedWith ''Execute Block error'' e), w\<lparr>bw_caches := bw_caches w'\<rparr>)))"

text \<open>The estimate that the node serves: both results of the executor are reported as the fee.\<close>

definition block_estimate_fee ::
  "chain \<Rightarrow> database \<Rightarrow> transaction \<Rightarrow> address \<Rightarrow> block_header \<Rightarrow> error + balance" where
  "block_estimate_fee X d tx account h =
     (case execute_estimate_fee X tx account (env_of h) (updated_state_new (pg_channel d)) of
        (Inl e, _) \<Rightarrow> Inl e
      | (Inr (Inr fee), _) \<Rightarrow> Inr fee
      | (Inr (Inl fee), _) \<Rightarrow> Inr fee)"

section \<open>What a block keeps\<close>

text \<open>
  A relation that every admitted transaction of an account keeps, and the bookkeeping of the block
  too. The clones of the loop grow from the state of the block, so that each merge is the clone.
\<close>

definition loop_rel ::
  "(updated_state \<Rightarrow> updated_state \<Rightarrow> bool) \<Rightarrow> updated_state \<times> bytes list \<Rightarrow> updated_state \<times> bytes list \<Rightarrow> bool" where
  "loop_rel R = (\<lambda>(b, _) (b', _). grows b b' \<and> R b b')"

lemma grows_frame: "frame grows"
  by (rule gr.frame_axioms)

lemma loop_frame: "frame R \<Longrightarrow> frame (loop_rel R)"
  using grows_frame by (auto simp: frame_def loop_rel_def)

locale block_frame =
  fixes R :: "updated_state \<Rightarrow> updated_state \<Rightarrow> bool" and A :: "transaction \<Rightarrow> address \<Rightarrow> bool"
  assumes R_frame': "frame R"
    and R_tx: "A tx a \<Longrightarrow> keeps R (execute_transaction X J tx a env)"
    and R_fee: "A tx a \<Longrightarrow> keeps R (transfer a FEE_RECIPIENT_MASTER_ADDRESS n)"
    and R_ops: "keeps R (increment_nonce a)" "keeps R (transfer FEE_RECIPIENT_MASTER_ADDRESS a n)"
      "keeps R (store_transaction_metadata md)"
begin

definition brel :: "updated_state \<Rightarrow> updated_state \<Rightarrow> bool" where
  "brel s t \<longleftrightarrow> grows s t \<and> R s t"

lemma brel_frame: "frame brel"
  using grows_frame R_frame' by (auto simp: frame_def brel_def)

lemma brelI: "keeps grows m \<Longrightarrow> keeps R m \<Longrightarrow> keeps brel m"
  by (auto simp: keeps_def brel_def)

lemma brel_ops:
  "keeps brel (increment_nonce a)" "keeps brel (transfer FEE_RECIPIENT_MASTER_ADDRESS a n)"
  "keeps brel (store_transaction_metadata md)"
  by (simp_all add: brelI R_ops)

lemma brel_execute: "A tx a \<Longrightarrow> keeps brel (block_execute_transaction X J tx a env)"
  unfolding block_execute_transaction_def
  using brelI [OF grows_execute R_tx]
  by (auto intro!: frame.keeps_and_then [OF brel_frame] frame.keeps_ok [OF brel_frame] split: prod.split)

lemma brel_lock: "A tx a \<Longrightarrow> keeps brel (lock_fee_limit a n)"
  unfolding lock_fee_limit_def just_transfer_tokens_def
  by (rule frame.keeps_and_then [OF brel_frame brel_ops(1)], rule brelI) (simp_all add: R_fee)

lemma brel_trans: "brel s t \<Longrightarrow> brel t u \<Longrightarrow> brel s u"
  using frame.frame_trans [OF brel_frame] .

lemma brel_merge: "brel s t \<Longrightarrow> merge s t = t"
  by (simp add: brel_def merge_grows)

lemma brel_refund: "keeps brel (refund a n)"
  unfolding refund_def just_transfer_tokens_def by (rule brel_ops)

lemma brel_metadata: "brel s (snd (store_transaction_metadata md s))"
  by (rule keeps_snd [OF brel_ops(3)])

lemma brel_settle_success:
  assumes "brel b t" shows "brel b (settle_success h a limit r b t)"
proof (cases "checked_sub limit (tr_fee r)")
  case None
  with assms show ?thesis by (simp add: settle_success_def brel_merge)
next
  case (Some u)
  obtain x t' where ref: "refund a u t = (x, t')" by fastforce
  have tt: "brel t t'" by (rule keepsD [OF brel_refund ref])
  show ?thesis
  proof (cases x)
    case (Inr y)
    have "brel b (snd (store_transaction_metadata (metadata_of h (tr_fee r) r) t'))"
      using brel_trans [OF brel_trans [OF assms tt] brel_metadata] .
    with Some ref Inr show ?thesis
      by (simp add: settle_success_def brel_merge [OF assms] brel_merge [OF tt])
  qed (use assms Some ref in \<open>simp add: settle_success_def brel_merge\<close>)
qed

lemma brel_settle_failure: "brel b (settle_failure h a limit r b)"
proof (cases "checked_sub limit (tr_fee r)")
  case None
  then show ?thesis by (simp add: settle_failure_def frame.frame_refl [OF brel_frame])
next
  case (Some u)
  obtain x b' where ref: "refund a u b = (x, b')" by fastforce
  have "brel b b'" by (rule keepsD [OF brel_refund ref])
  with Some ref show ?thesis
    using brel_trans [OF _ brel_metadata] by (cases x) (simp_all add: settle_failure_def)
qed

lemma keeps_steps:
  assumes "\<And>a. account_address (ch_ext X) (tx_verifying_key tx) = Inr a \<Longrightarrow> A tx a"
  shows "keeps (loop_rel R) (block_step X J h tx)" and "keeps (loop_rel R) (system_block_step X J h tx)"
proof -
  have iff: "loop_rel R (b, ev) (b', ev') \<longleftrightarrow> brel b b'" for b ev b' ev'
    by (simp add: loop_rel_def brel_def)
  note refl = frame.frame_refl [OF brel_frame]
  note exec = keepsD [OF brel_execute [OF assms]]
  show "keeps (loop_rel R) (block_step X J h tx)"
  proof (rule keepsI)
    fix s r t assume run: "block_step X J h tx s = (r, t)"
    obtain b ev b' ev' where st: "s = (b, ev)" "t = (b', ev')" by fastforce
    show "loop_rel R s t"
    proof (cases "(\<exists>a. account_address (ch_ext X) (tx_verifying_key tx) = Inr a) \<and>
        (\<exists>hash. tx_hash (ch_ext X) tx = Inr hash)")
      case False
      then show ?thesis using run st
        by (auto simp: block_step_def iff refl split: sum.splits)
    next
      case True
      then obtain a hash where a: "account_address (ch_ext X) (tx_verifying_key tx) = Inr a"
        and hash: "tx_hash (ch_ext X) tx = Inr hash" by blast
      obtain x u where lock: "lock_fee_limit a (tx_fee_limit tx) b = (x, u)" by fastforce
      have bu: "brel b u" by (rule keepsD [OF brel_lock [OF assms [OF a]] lock])
      obtain y v where ex: "block_execute_transaction X J tx a (env_of h) u = (y, v)" by fastforce
      have uv: "brel u v" by (rule exec [OF a ex])
      have "brel b (settle_success hash a (tx_fee_limit tx) r' u v)" for r'
        using brel_trans [OF bu brel_settle_success [OF uv]] .
      moreover have "brel b (settle_failure hash a (tx_fee_limit tx) r' u)" for r'
        using brel_trans [OF bu brel_settle_failure] .
      ultimately show ?thesis
        using run st a hash lock ex bu
        by (auto simp: block_step_def iff refl brel_merge [OF bu] split: sum.splits)
    qed
  qed
  show "keeps (loop_rel R) (system_block_step X J h tx)"
  proof (rule keepsI)
    fix s r t assume run: "system_block_step X J h tx s = (r, t)"
    obtain b ev b' ev' where st: "s = (b, ev)" "t = (b', ev')" by fastforce
    show "loop_rel R s t"
    proof (cases "(\<exists>a. account_address (ch_ext X) (tx_verifying_key tx) = Inr a) \<and>
        (\<exists>hash. tx_hash (ch_ext X) tx = Inr hash)")
      case False
      then show ?thesis using run st
        by (auto simp: system_block_step_def iff refl split: sum.splits)
    next
      case True
      then obtain a hash where a: "account_address (ch_ext X) (tx_verifying_key tx) = Inr a"
        and hash: "tx_hash (ch_ext X) tx = Inr hash" by blast
      obtain x u where lock: "increment_nonce a b = (x, u)" by fastforce
      have bu: "brel b u" by (rule keepsD [OF brel_ops(1) lock])
      obtain y v where ex: "block_execute_transaction X J tx a (env_of h) u = (y, v)" by fastforce
      have uv: "brel u v" by (rule exec [OF a ex])
      have "brel b (snd (store_transaction_metadata md v))" "brel b (snd (store_transaction_metadata md u))" for md
        using brel_trans [OF brel_trans [OF bu uv] brel_metadata] brel_trans [OF bu brel_metadata] .
      then show ?thesis
        using run st a hash lock ex bu
        by (auto simp: system_block_step_def iff refl brel_merge [OF bu] brel_merge [OF uv] split: sum.splits)
    qed
  qed
qed

end

interpretation bk_cache: block_frame keeps_cache "\<lambda>_ _. True"
  by (simp add: block_frame_def ck.frame_axioms cache_execute)

interpretation bk_supply: block_frame supply_le "\<lambda>_ _. True"
  by (simp add: block_frame_def supply_le_frame supply_execute keeps_supply_le
      keeps_conserves_account keeps_conserves_writes)

interpretation bk_tokens: block_frame conserves "\<lambda>_ a. a \<noteq> MINT_MASTER_ADDRESS"
  by (simp add: block_frame_def conserves_frame conserves_execute keeps_conserves_account
      keeps_conserves_writes)

lemma block_frame_solvent:
  "q \<noteq> FEE_RECIPIENT_MASTER_ADDRESS \<Longrightarrow>
     block_frame (keeps_solvent q) (\<lambda>tx a. a \<noteq> q \<and> runs_no_contract (tx_type tx))"
  by (simp add: block_frame_def solvent_frame solvent_execute solvent_transfer solvent_nonce solvent_ops)

text \<open>The loop over the transactions of a block.\<close>

definition run_transactions :: "chain \<Rightarrow> block_params \<Rightarrow> block \<Rightarrow> loop_op" where
  "run_transactions X Y blk =
     for_each (if is_system_block blk then system_block_step X (bx_json Y) (blk_header blk)
               else block_step X (bx_json Y) (blk_header blk)) (sorted_transactions blk)"

definition final_state :: "chain \<Rightarrow> block_params \<Rightarrow> block \<Rightarrow> database \<Rightarrow> updated_state" where
  "final_state X Y blk d = fst (snd (run_transactions X Y blk (updated_state_new (pg_channel d), [])))"

definition db_ledger :: "database \<Rightarrow> ledger" where
  "db_ledger d = ledger_of (updated_state_new (pg_channel d))"

definition sent_by :: "chain \<Rightarrow> address \<Rightarrow> transaction \<Rightarrow> bool" where
  "sent_by X a tx \<longleftrightarrow> account_address (ch_ext X) (tx_verifying_key tx) = Inr a"

lemma keeps_for_each_in:
  assumes "frame R" and "\<And>x. x \<in> set xs \<Longrightarrow> keeps R (f x)"
  shows "keeps R (for_each f xs)"
  using assms(2) by (induction xs) (auto intro: frame.keeps_ok [OF assms(1)] frame.keeps_and_then [OF assms(1)])

lemma run_transactions_keeps:
  assumes "block_frame R A" and "\<And>a tx. tx \<in> set (blk_transactions blk) \<Longrightarrow> sent_by X a tx \<Longrightarrow> A tx a"
  shows "keeps (loop_rel R) (run_transactions X Y blk)"
  unfolding run_transactions_def sorted_transactions_def
  using assms(2)
  by (intro keeps_for_each_in loop_frame block_frame.R_frame' [OF assms(1)])
    (auto simp: sent_by_def intro!: block_frame.keeps_steps [OF assms(1)])

lemma final_state_rel:
  assumes "block_frame R A" and "\<And>a tx. tx \<in> set (blk_transactions blk) \<Longrightarrow> sent_by X a tx \<Longrightarrow> A tx a"
  shows "grows (updated_state_new (pg_channel d)) (final_state X Y blk d)"
    and "R (updated_state_new (pg_channel d)) (final_state X Y blk d)"
proof -
  have "keeps (loop_rel R) (run_transactions X Y blk)" by (rule run_transactions_keeps [OF assms])
  from keeps_snd [OF this, of "(updated_state_new (pg_channel d), [])"]
  show "grows (updated_state_new (pg_channel d)) (final_state X Y blk d)"
    and "R (updated_state_new (pg_channel d)) (final_state X Y blk d)"
    by (simp_all add: loop_rel_def final_state_def case_prod_unfold)
qed

lemma final_state_ok:
  "cache_ok (final_state X Y blk d)" "db_channel (final_state X Y blk d) = pg_channel d"
  using final_state_rel [OF bk_cache.block_frame_axioms, of blk X d Y] cache_new [of "pg_channel d"]
  by (simp_all only: keeps_cache_def grows_def) (simp add: updated_state_new_def)

lemma execute_block_cases:
  assumes "execute_block X Y blk w = (Inr events, w')"
  obtains "bw_db w' = bw_db w" and "bw_blocks w' = bw_blocks w"
  | "commit (bx_order Y (final_state X Y blk (bw_db w))) (bx_now Y)
        (final_state X Y blk (bw_db w)) (bw_db w) = (Inr (), bw_db w')"
      and "bw_blocks w' = snd (pg_set_block_executed (bh_block_number (blk_header blk))
             (bh_cluster_address (blk_header blk)) (bw_blocks w))"
  using assms
  by (auto simp: execute_block_def execute_block_inner_def execute_system_block_inner_def
      commit_block_def final_state_def run_transactions_def and_then_def ok_def
      split: sum.splits prod.splits bool.splits if_splits)

lemma wf_db_ledger: "wf_ledger (db_ledger d)"
  by (auto simp: wf_ledger_def db_ledger_def ledger_of_def updated_state_new_def nested_get_def
      pg_channel_def pg_get_account_def pg_get_staking_pool_def pg_get_staking_account_def
      split: option.splits if_splits)


lemma committed_supply:
  assumes "cache_ok s" and "db_channel s = pg_channel d" and "rows_complete d"
    and "enumerates ord s" and "commit ord now s d = (Inr (), e)"
  shows "total_supply (db_ledger e) = total_supply (ledger_of s)"
  using committed_account(1) [OF assms(1-3) commit_tables(1) [OF assms(1,4,5)]]
  by (simp add: total_supply_def db_ledger_def)

text \<open>
  C1: A block moves tokens and neither creates nor destroys them. The sum of all balances in the
  database never decreases by the execution of a block, and when none of its transactions is sent by
  the mint master it is the same, whatever its transactions and their contracts do and whichever of
  them fail.
\<close>

theorem block_conserves_supply:
  assumes "execute_block X Y blk w = (Inr events, w')" and "rows_complete (bw_db w)"
    and "enumerates (bx_order Y (final_state X Y blk (bw_db w))) (final_state X Y blk (bw_db w))"
  shows "total_supply (db_ledger (bw_db w)) \<le> total_supply (db_ledger (bw_db w')) \<and>
         (list_all (\<lambda>tx. \<not> sent_by X MINT_MASTER_ADDRESS tx) (blk_transactions blk) \<longrightarrow>
            total_supply (db_ledger (bw_db w')) = total_supply (db_ledger (bw_db w)))"
  using assms(1)
proof (cases rule: execute_block_cases)
  case 2
  let ?d = "bw_db w" let ?b = "final_state X Y blk ?d"
  have sup: "total_supply (db_ledger (bw_db w')) = total_supply (ledger_of ?b)"
    by (rule committed_supply [OF final_state_ok assms(2,3) 2(1)])
  have "supply_le (updated_state_new (pg_channel ?d)) ?b"
    using final_state_rel(2) [OF bk_supply.block_frame_axioms, of blk X ?d Y] by simp
  moreover have "conserves (updated_state_new (pg_channel ?d)) ?b"
    if "list_all (\<lambda>tx. \<not> sent_by X MINT_MASTER_ADDRESS tx) (blk_transactions blk)"
    using final_state_rel(2) [OF bk_tokens.block_frame_axioms, of blk X ?d Y] that
    by (auto simp: list_all_iff)
  ultimately show ?thesis
    using wf_db_ledger [of ?d] sup by (auto simp: supply_le_def conserves_def db_ledger_def)
qed simp


lemma committed_solvent:
  assumes "cache_ok s" and "db_channel s = pg_channel d" and "rows_complete d"
    and "enumerates ord s" and "commit ord now s d = (Inr (), e)"
  shows "solvent q (db_ledger e) = solvent q (ledger_of s)"
  using committed_account(1) [OF assms(1-3) commit_tables(1) [OF assms(1,4,5)]]
    committed_stake [OF assms(1,2) commit_tables(2) [OF assms(1,4,5)]]
  by (simp add: solvent_def pool_stake_def db_ledger_def)

text \<open>
  C4: Solvency of staking pools. If the stakes recorded in the database for a pool \<open>q\<close> sum to at most
  the balance of its account, they still do after a block whose transactions run no contract and are
  not sent by \<open>q\<close> itself: whatever they stake, withdraw, transfer, mint and pay in fees, at this pool
  or at others, and whichever of them fail part-way, and also when the block as a whole fails. The
  account that collects the fees is not a pool.
\<close>

theorem block_preserves_solvency:
  assumes "execute_block X Y blk w = (r, w')" and "rows_complete (bw_db w)"
    and "enumerates (bx_order Y (final_state X Y blk (bw_db w))) (final_state X Y blk (bw_db w))"
    and "list_all (\<lambda>tx. \<not> sent_by X q tx \<and> runs_no_contract (tx_type tx)) (blk_transactions blk)"
    and "q \<noteq> FEE_RECIPIENT_MASTER_ADDRESS"
    and "solvent q (db_ledger (bw_db w))"
  shows "solvent q (db_ledger (bw_db w'))"
proof (cases r)
  case (Inl e)
  with assms(1,6) show ?thesis
    by (auto simp: execute_block_def split: sum.splits prod.splits bool.splits if_splits)
next
  case (Inr events)
  from assms(1) [unfolded Inr] show ?thesis
  proof (cases rule: execute_block_cases)
    case 2
    let ?d = "bw_db w" let ?b = "final_state X Y blk ?d"
    have "keeps_solvent q (updated_state_new (pg_channel ?d)) ?b"
      using assms(4) by (intro final_state_rel(2) [OF block_frame_solvent [OF assms(5)]])
        (auto simp: list_all_iff)
    then have "solvent q (ledger_of ?b)"
      using assms(6) wf_db_ledger [of ?d] by (simp add: keeps_solvent_def db_ledger_def)
    then show ?thesis
      using committed_solvent [OF final_state_ok assms(2,3) 2(1)] by simp
  qed (simp add: assms(6))
qed

text \<open>
  C24: A block is executed at most once and all or nothing. A failed execution leaves every table as
  it was. A successful one of a stored block is marked, and executing the block again does nothing.
\<close>

theorem block_executed_once:
  assumes "execute_block X Y blk w = (r, w')"
    and "t_block_meta_info (bw_blocks w) (bh_cluster_address (blk_header blk), bh_block_number (blk_header blk)) \<noteq> None"
  shows "(isl r \<longrightarrow> bw_db w' = bw_db w \<and> bw_blocks w' = bw_blocks w) \<and>
         (\<not> isl r \<longrightarrow> execute_block X Y blk w' = (Inr [], w'))"
proof (cases r)
  case (Inl e)
  with assms(1) show ?thesis
    by (auto simp: execute_block_def pg_is_block_executed_def gets_def split: sum.splits prod.splits bool.splits if_splits)
next
  case (Inr events)
  have "pg_is_block_executed (bh_block_number (blk_header blk)) (bh_cluster_address (blk_header blk)) (bw_blocks w') =
      (Inr True, bw_blocks w')"
  proof (cases "fst (pg_is_block_executed (bh_block_number (blk_header blk)) (bh_cluster_address (blk_header blk))
      (bw_blocks w)) = Inr True")
    case True
    with assms(1) Inr have "w' = w"
      by (auto simp: execute_block_def pg_is_block_executed_def gets_def)
    with True show ?thesis by (simp add: pg_is_block_executed_def gets_def)
  next
    case False
    from assms(1) Inr have "execute_block X Y blk w = (Inr events, w')" by simp
    then have "bw_blocks w' = snd (pg_set_block_executed (bh_block_number (blk_header blk))
        (bh_cluster_address (blk_header blk)) (bw_blocks w))"
      using False
      by (auto simp: execute_block_def execute_block_inner_def execute_system_block_inner_def
        commit_block_def and_then_def ok_def pg_is_block_executed_def gets_def
        split: sum.splits prod.splits bool.splits if_splits)
    with assms(2) show ?thesis
      by (auto simp: pg_is_block_executed_def pg_set_block_executed_def gets_def modify_def)
  qed
  then show ?thesis using Inr by (simp add: execute_block_def)
qed

section \<open>A failed transaction\<close>

lemma lock_then_refund:
  assumes "transfer_spec a b limit L = (Inr (), L')" and "fee \<le> limit"
  shows "transfer_spec b a (limit - fee) L' = (Inr (), snd (transfer_spec a b fee L))"
    and "fst (transfer_spec a b fee L) = Inr ()"
proof -
  obtain f where f: "l_account L a = Inr f" "limit \<le> acc_balance f"
    using assms(1) by (auto simp: transfer_spec_def not_less split: sum.splits if_splits)
  have ff: "fee \<le> acc_balance f" using assms(2) f(2) by simp
  have u: "unat (limit - fee) = unat limit - unat fee" using assms(2) by (simp add: unat_sub)
  have "transfer_spec b a (limit - fee) L' = (Inr (), snd (transfer_spec a b fee L)) \<and>
      fst (transfer_spec a b fee L) = Inr ()"
  proof (cases "a = b")
    case True
    with assms(1) f have "L' = L" by (simp add: transfer_spec_def split: if_splits)
    moreover have "limit - fee \<le> acc_balance f"
      using f(2) u by (simp add: word_le_nat_alt)
    ultimately show ?thesis using True f ff by (simp add: transfer_spec_def not_less)
  next
    case False
    define t where "t = (case l_account L b of Inr t \<Rightarrow> t | Inl _ \<Rightarrow> account_new b)"
    have sum: "unat (acc_balance t) + unat limit < 2 ^ 128"
      and L': "L' = set_account b (t\<lparr>acc_balance := acc_balance t + limit\<rparr>)
                 (set_account a (f\<lparr>acc_balance := acc_balance f - limit\<rparr>) L)"
      using assms(1) f False by (auto simp: transfer_spec_def Let_def t_def not_less split: if_splits)
    have tf: "unat (acc_balance t) + unat fee < 2 ^ 128" using sum assms(2) by (simp add: word_le_nat_alt)
    have "unat (acc_balance t + limit) = unat (acc_balance t) + unat limit"
      using sum by (simp add: unat_word_ariths)
    then have ge: "\<not> acc_balance t + limit < limit - fee"
      using u by (simp add: word_less_nat_alt)
    have "unat (acc_balance f - limit) + unat (limit - fee) < 2 ^ 128"
      using u f(2) assms(2) unat_bounded [of "acc_balance f"] by (simp add: unat_sub word_le_nat_alt)
    then have "transfer_spec b a (limit - fee) L' =
        (Inr (), set_account a (f\<lparr>acc_balance := acc_balance f - fee\<rparr>)
           (set_account b (t\<lparr>acc_balance := acc_balance t + fee\<rparr>) L))"
      using False ge by (simp add: transfer_spec_def L' set_account_swap Let_def)
    moreover have "transfer_spec a b fee L =
        (Inr (), set_account b (t\<lparr>acc_balance := acc_balance t + fee\<rparr>)
           (set_account a (f\<lparr>acc_balance := acc_balance f - fee\<rparr>) L))"
      using False f ff tf by (simp add: transfer_spec_def Let_def t_def not_less)
    ultimately show ?thesis using False by (simp add: set_account_swap)
  qed
  then show "transfer_spec b a (limit - fee) L' = (Inr (), snd (transfer_spec a b fee L))"
    and "fst (transfer_spec a b fee L) = Inr ()" by blast+
qed


lemma block_execute_fee:
  assumes "block_execute_transaction X J tx a env s = (Inr r, t)"
  shows "tr_fee (case_sum id id r) \<le> tx_fee_limit tx"
proof -
  obtain res ev fee g where "execute_transaction X J tx a env s = (Inr (res, ev, fee, g), t)"
    and "tr_fee (case_sum id id r) = fee"
    using assms by (auto simp: block_execute_transaction_def and_then_def ok_def split: sum.splits prod.splits)
  with execute_transaction_fee show ?thesis by (simp add: word_le_nat_alt)
qed

text \<open>
  C12: What a failed transaction costs. Its sender pays exactly the fee it reports, which never
  exceeds the fee limit, to the fee recipient, and uses up one nonce; the refund of the rest of the
  locked limit cannot fail. The ledger is otherwise that before the transaction, and the outcome is
  recorded.
\<close>

theorem failed_transaction_pays_its_fee:
  assumes "wf_ledger (ledger_of b)" and "sent_by X a tx" and "tx_hash (ch_ext X) tx = Inr hash"
    and "increment_nonce a b = (Inr (), c)"
    and "just_transfer_tokens a FEE_RECIPIENT_MASTER_ADDRESS (tx_fee_limit tx) c = (Inr (), t)"
    and "block_execute_transaction X J tx a (env_of h) t = (Inr (Inl r), t1)"
  shows "\<exists>b' L. block_step X J h tx (b, events) = (Inr (), (b', events)) \<and>
           tr_fee r \<le> tx_fee_limit tx \<and>
           transfer_spec a FEE_RECIPIENT_MASTER_ADDRESS (tr_fee r) (ledger_of c) = (Inr (), L) \<and>
           ledger_of b' = L\<lparr>l_metadatas := l_metadatas L @ [Updated (Some (metadata_of hash (tr_fee r) r))]\<rparr>"
proof -
  let ?F = FEE_RECIPIENT_MASTER_ADDRESS
  have lock: "lock_fee_limit a (tx_fee_limit tx) b = (Inr (), t)"
    using assms(4,5) by (simp add: lock_fee_limit_def and_then_def)
  have tr: "transfer a ?F (tx_fee_limit tx) c = (Inr (), t)"
    using assms(5) by (simp add: just_transfer_tokens_def)
  have bc: "bk_tokens.brel b c" and ct: "bk_tokens.brel c t"
    using keepsD [OF bk_tokens.brel_ops(1) assms(4)]
      keepsD [OF bk_tokens.brelI [OF keeps_composed(5) keeps_conserves_account(1)] tr] .
  then have wf: "wf_ledger (ledger_of c)" "wf_ledger (ledger_of t)"
    using assms(1) by (simp_all add: bk_tokens.brel_def conserves_def)
  have fee: "tr_fee r \<le> tx_fee_limit tx"
    using block_execute_fee [OF assms(6)] by simp
  have "transfer_spec a ?F (tx_fee_limit tx) (ledger_of c) = (Inr (), ledger_of t)"
    by (rule transfer_run [OF wf(1) tr])
  note lr = lock_then_refund [OF this fee]
  obtain x t' where ref: "transfer ?F a (tx_fee_limit tx - tr_fee r) t = (x, t')" by fastforce
  have x: "x = Inr ()" and L: "ledger_of t' = snd (transfer_spec a ?F (tr_fee r) (ledger_of c))"
    using transfer_run [OF wf(2) ref] lr(1) by simp_all
  have sub: "checked_sub (tx_fee_limit tx) (tr_fee r) = Some (tx_fee_limit tx - tr_fee r)"
    using fee by (simp add: checked_sub_def word_le_nat_alt)
  have m: "merge b t = t" by (rule bk_tokens.brel_merge [OF bk_tokens.brel_trans [OF bc ct]])
  have "block_step X J h tx (b, events) =
      (Inr (), (snd (store_transaction_metadata (metadata_of hash (tr_fee r) r) t'), events))"
    using assms(2,3,6) lock m sub ref x
    by (simp add: block_step_def sent_by_def settle_failure_def refund_def just_transfer_tokens_def)
  moreover have "ledger_of (snd (store_transaction_metadata md t')) =
      (ledger_of t')\<lparr>l_metadatas := l_metadatas (ledger_of t') @ [Updated (Some md)]\<rparr>" for md
    by (simp add: store_transaction_metadata_def modify_def ledger_of_def)
  ultimately show ?thesis using fee L lr(2) by (metis prod.collapse)
qed

section \<open>A block whose only transaction cannot pay\<close>

definition block_chain :: chain where
  "block_chain = tx_chain\<lparr>ch_ext := (ch_ext tx_chain)\<lparr>x_public_key := (\<lambda>_. Some []), x_keccak256 := (\<lambda>_. 1)\<rparr>\<rparr>"

definition poor_tx :: transaction where
  "poor_tx = demo_tx (NativeTokenTransfer 3 30) 1"

lemma poor_tx_simps:
  "tx_fee_limit poor_tx = 1" "tx_nonce poor_tx = 1"
  "account_address (ch_ext block_chain) (tx_verifying_key poor_tx) = Inr 1"
  "tx_hash (ch_ext block_chain) poor_tx = Inr 1"
  by (simp_all add: poor_tx_def demo_tx_def account_address_def block_chain_def tx_chain_def
      demo_chain_def address_of_hash_def tx_hash_def)

lemma poor_tx_fails:
  "block_execute_transaction block_chain J poor_tx 1 env s =
     (Inr (Inl \<lparr>tr_event = None, tr_fee = 1, tr_gas_burnt = 0, tr_is_success = False,
                tr_error = Some InsufficientFeeLimit\<rparr>), s)"
  by (simp add: block_execute_transaction_def execute_transaction_def fee_manager_new_def tx_body_def
      Let_def poor_tx_def demo_fees or_bail_def pay_def on_fee_def update_fee_def and_then_def
      checked_sub_def get_fee_used_def get_gas_used_def demo_tx_simps ok_def)

definition poor_block :: block where
  "poor_block = \<lparr>blk_header = block_header_default, blk_transactions = [poor_tx]\<rparr>"

definition poor_params :: block_params where
  "poor_params = \<lparr>bx_json = demo_json,
     bx_config = \<lparr>cx_utf8_lossy = id, cx_json_string = (\<lambda>_. None), cx_base64 = (\<lambda>_. None),
                  cx_toml = (\<lambda>_. None), cx_borsh_lists = (\<lambda>_. None), cx_json_pools = (\<lambda>_. None),
                  cx_hex = (\<lambda>_. None)\<rparr>,
     bx_order = (\<lambda>_. demo_order\<lparr>o_accounts := [1, FEE_RECIPIENT_MASTER_ADDRESS]\<rparr>), bx_now = 0\<rparr>"

definition poor_world :: block_world where
  "poor_world = \<lparr>bw_db = demo_database,
     bw_blocks = no_blocks\<lparr>t_block_meta_info := [(0, 0) \<mapsto> None]\<rparr>,
     bw_caches = \<lparr>rt_config = None, rt_deny = None, rt_staking = None\<rparr>\<rparr>"

lemma poor_lock:
  "lock_fee_limit 1 1 (updated_state_new (pg_channel demo_database)) =
     (Inr (), (updated_state_new (pg_channel demo_database))\<lparr>accounts :=
     [1 \<mapsto> Updated (Some \<lparr>acc_address = 1, acc_balance = 99, acc_nonce = 4, acc_type = User\<rparr>),
      FEE_RECIPIENT_MASTER_ADDRESS \<mapsto> Updated (Some \<lparr>acc_address = FEE_RECIPIENT_MASTER_ADDRESS, acc_balance = 1, acc_nonce = 0, acc_type = User\<rparr>)]\<rparr>)"
  by (simp add: lock_fee_limit_def just_transfer_tokens_def increment_nonce_def transfer_def get_account_def update_account_def updated_state_new_def
      pg_channel_def pg_get_account_def demo_database_def op_simps and_then_def attempt_def Let_def
      checked_add_def checked_sub_def FEE_RECIPIENT_MASTER_ADDRESS_def account_new_def fun_upd_twist)


definition poor_state :: updated_state where
  "poor_state = (updated_state_new (pg_channel demo_database))\<lparr>
     accounts :=
       [1 \<mapsto> Updated (Some \<lparr>acc_address = 1, acc_balance = 99, acc_nonce = 4, acc_type = User\<rparr>),
        FEE_RECIPIENT_MASTER_ADDRESS \<mapsto> Updated (Some \<lparr>acc_address = FEE_RECIPIENT_MASTER_ADDRESS,
          acc_balance = 1, acc_nonce = 0, acc_type = User\<rparr>)],
     transaction_metadatas := [Updated (Some \<lparr>tm_transaction_hash = 1, tm_fee = 1, tm_burnt_gas = 0,
       tm_is_successful = False\<rparr>)]\<rparr>"

abbreviation poor_locked :: updated_state where
  "poor_locked \<equiv> snd (lock_fee_limit 1 1 (updated_state_new (pg_channel demo_database)))"

lemma poor_merge: "merge (updated_state_new (pg_channel demo_database)) poor_locked = poor_locked"
  by (rule bk_cache.brel_merge [OF keeps_snd [OF bk_cache.brel_lock [OF TrueI]]])

lemma poor_settle:
  "settle_failure 1 1 1 \<lparr>tr_event = None, tr_fee = 1, tr_gas_burnt = 0, tr_is_success = False,
      tr_error = Some InsufficientFeeLimit\<rparr> poor_locked = poor_state"
  unfolding poor_lock
  by (simp add: settle_failure_def
      refund_def just_transfer_tokens_def transfer_def get_account_def update_account_def
      op_simps and_then_def Let_def checked_sub_def checked_add_def store_transaction_metadata_def modify_def
      updated_state_new_def poor_state_def metadata_of_def attempt_def
      FEE_RECIPIENT_MASTER_ADDRESS_def fun_upd_twist)

lemma poor_step:
  "block_step block_chain J h poor_tx (updated_state_new (pg_channel demo_database), []) =
     (Inr (), (poor_state, []))"
  using poor_merge poor_settle unfolding poor_lock
  by (simp add: block_step_def poor_tx_simps poor_lock poor_tx_fails)

lemma poor_run:
  "run_transactions block_chain poor_params poor_block (updated_state_new (pg_channel demo_database), []) =
     (Inr (), (poor_state, []))"
  by (simp add: run_transactions_def sorted_transactions_def poor_block_def is_system_block_def
      block_header_default_def poor_step op_simps and_then_def)

lemma poor_final: "final_state block_chain poor_params poor_block (bw_db poor_world) = poor_state"
  by (simp add: final_state_def poor_world_def poor_run)

lemma poor_enumerates: "enumerates (bx_order poor_params poor_state) poor_state"
  by (auto simp: enumerates_def poor_params_def poor_state_def demo_order_def updated_state_new_def
      nested_get_def FEE_RECIPIENT_MASTER_ADDRESS_def split: if_splits)

lemma poor_execute:
  "\<exists>w'. execute_block block_chain poor_params poor_block poor_world = (Inr [], w')"
proof -
  have run: "for_each (block_step block_chain (bx_json poor_params) (blk_header poor_block)) (sorted_transactions poor_block)
      (updated_state_new (pg_channel demo_database), []) = (Inr (), (poor_state, []))"
    using poor_run by (simp add: run_transactions_def poor_block_def is_system_block_def block_header_default_def)
  have c: "\<exists>d. commit (bx_order poor_params poor_state) (bx_now poor_params) poor_state demo_database = (Inr (), d)"
    by (simp add: commit_def poor_params_def demo_order_def poor_state_def updated_state_new_def op_simps
        and_then_def commit_account_def commit_metadata_def pg_write_defs demo_database_def FEE_RECIPIENT_MASTER_ADDRESS_def)
  have a: "apply_system_contracts_changes block_chain (bx_config poor_params) poor_state h c = (Inr (), c)" for h c
    by (simp add: apply_system_contracts_changes_def is_contract_state_updated_def poor_state_def
        updated_state_new_def and_then_def ok_def)
  from c obtain d where d: "commit (bx_order poor_params poor_state) (bx_now poor_params) poor_state demo_database = (Inr (), d)"
    by blast
  show ?thesis
    using run d a
    by (simp add: execute_block_def execute_block_inner_def poor_world_def pg_is_block_executed_def gets_def
        poor_block_def is_system_block_def block_header_default_def commit_block_def and_then_def ok_def
        pg_set_block_executed_def modify_def)
qed


theorem block_conserves_supply_witness:
  "\<exists>w'. execute_block block_chain poor_params poor_block poor_world = (Inr [], w') \<and>
     total_supply (db_ledger demo_database) \<le> total_supply (db_ledger (bw_db w')) \<and>
     total_supply (db_ledger (bw_db w')) = total_supply (db_ledger demo_database)"
proof -
  obtain w' where w': "execute_block block_chain poor_params poor_block poor_world = (Inr [], w')"
    using poor_execute by blast
  have c: "rows_complete (bw_db poor_world)"
    by (simp add: rows_complete_def poor_world_def demo_database_def)
  have e: "enumerates (bx_order poor_params (final_state block_chain poor_params poor_block (bw_db poor_world)))
      (final_state block_chain poor_params poor_block (bw_db poor_world))"
    using poor_enumerates by (simp add: poor_final)
  have "list_all (\<lambda>tx. \<not> sent_by block_chain MINT_MASTER_ADDRESS tx) (blk_transactions poor_block)"
    by (simp add: poor_block_def sent_by_def poor_tx_simps MINT_MASTER_ADDRESS_def)
  with block_conserves_supply [OF w' c e] w' show ?thesis by (auto simp: poor_world_def)
qed

theorem block_preserves_solvency_witness:
  "solvent 5 (db_ledger (bw_db (snd (execute_block block_chain poor_params poor_block poor_world))))"
proof -
  have "rows_complete (bw_db poor_world)"
    by (simp add: rows_complete_def poor_world_def demo_database_def)
  moreover have "enumerates (bx_order poor_params (final_state block_chain poor_params poor_block (bw_db poor_world)))
      (final_state block_chain poor_params poor_block (bw_db poor_world))"
    using poor_enumerates by (simp add: poor_final)
  moreover have "list_all (\<lambda>tx. \<not> sent_by block_chain 5 tx \<and> runs_no_contract (tx_type tx))
      (blk_transactions poor_block)"
    by (simp add: poor_block_def sent_by_def poor_tx_simps) (simp add: poor_tx_def demo_tx_def runs_no_contract_def)
  moreover have "solvent 5 (db_ledger (bw_db poor_world))"
    by (simp add: solvent_def pool_stake_def staked_at_def db_ledger_def ledger_of_def updated_state_new_def
        pg_channel_def pg_get_staking_account_def nested_get_def poor_world_def demo_database_def)
  ultimately show ?thesis
    using block_preserves_solvency [OF prod.collapse [symmetric]] by (simp add: FEE_RECIPIENT_MASTER_ADDRESS_def)
qed

theorem block_executed_once_witness:
  "\<exists>w'. execute_block block_chain poor_params poor_block poor_world = (Inr [], w') \<and>
     execute_block block_chain poor_params poor_block w' = (Inr [], w')"
proof -
  obtain w' where w': "execute_block block_chain poor_params poor_block poor_world = (Inr [], w')"
    using poor_execute by blast
  have "t_block_meta_info (bw_blocks poor_world)
      (bh_cluster_address (blk_header poor_block), bh_block_number (blk_header poor_block)) \<noteq> None"
    by (simp add: poor_world_def poor_block_def block_header_default_def)
  with block_executed_once [OF w'] w' show ?thesis by auto
qed

theorem failed_transaction_pays_its_fee_witness:
  "\<exists>b' L c. block_step block_chain demo_json block_header_default poor_tx
       (updated_state_new (pg_channel demo_database), []) = (Inr (), (b', [])) \<and>
     increment_nonce 1 (updated_state_new (pg_channel demo_database)) = (Inr (), c) \<and>
     transfer_spec 1 FEE_RECIPIENT_MASTER_ADDRESS 1 (ledger_of c) = (Inr (), L) \<and>
     l_metadatas (ledger_of b') = l_metadatas L @ [Updated (Some \<lparr>tm_transaction_hash = 1, tm_fee = 1,
       tm_burnt_gas = 0, tm_is_successful = False\<rparr>)]"
proof -
  let ?b = "updated_state_new (pg_channel demo_database)"
  have wf: "wf_ledger (ledger_of ?b)" using wf_db_ledger [of demo_database] by (simp add: db_ledger_def)
  have s: "sent_by block_chain 1 poor_tx" by (simp add: sent_by_def poor_tx_simps)
  obtain c t where c: "increment_nonce 1 ?b = (Inr (), c)"
    and t: "just_transfer_tokens 1 FEE_RECIPIENT_MASTER_ADDRESS (tx_fee_limit poor_tx) c = (Inr (), t)"
    using poor_lock by (auto simp: lock_fee_limit_def and_then_def poor_tx_simps split: sum.splits prod.splits)
  show ?thesis
    using failed_transaction_pays_its_fee [OF wf s poor_tx_simps(4) c t poor_tx_fails, of demo_json block_header_default "[]"] c
    by (auto simp: metadata_of_def)
qed

end
