(* ===== verification/L1X_Consensus_Store.thy ===== *)
theory L1X_Consensus_Store
  imports L1X_Block
begin

text \<open>
  The PostgreSQL tables of the consensus: validators (\<^verbatim>\<open>validator/src/state_pg.rs\<close>), block proposers
  (\<^verbatim>\<open>block_proposer/src/state_pg.rs\<close>), votes (\<^verbatim>\<open>vote/src/state_pg.rs\<close>), vote results
  (\<^verbatim>\<open>vote_result/src/state_pg.rs\<close>) and the nodes of the network (\<^verbatim>\<open>node_info/src/state_pg.rs\<close>). The
  conventions are those of \<open>L1X_Block_Store\<close>: a table is the list of its rows in the order of
  insertion.

  An xscore is stored as a decimal number; the conversions between floating point and decimal
  numbers and the codec of the votes are the record \<open>table_ext\<close>. The theory holds the definitions
  only; the facts about them are proved where the consensus uses them, in \<open>L1X_Vote\<close>, \<open>L1X_Epoch\<close> and
  \<open>L1X_Consensus\<close>.
\<close>

section \<open>Data\<close>

record validator =
  val_address :: address
  val_cluster_address :: address
  val_epoch :: epoch
  val_stake :: balance
  val_xscore :: f64

record block_proposer =
  bpr_cluster_address :: address
  bpr_epoch :: epoch
  bpr_address :: address

record node_info_sign_payload =
  nip_ip_address :: bytes
  nip_metadata :: bytes
  nip_cluster_address :: address

record node_info =
  ni_data :: node_info_sign_payload
  ni_address :: address
  ni_peer_id :: bytes
  ni_joined_epoch :: epoch
  ni_signature :: bytes
  ni_verifying_key :: bytes

type_synonym decimal = "int \<times> int"

record table_ext =
  te_from_f64 :: "f64 \<Rightarrow> decimal option"
  te_to_f64 :: "decimal \<Rightarrow> f64 option"
  te_encode_votes :: "vote list \<Rightarrow> bytes option"
  te_decode_votes :: "bytes \<Rightarrow> vote list option"

section \<open>Tables\<close>

record validator_row =
  vrow_address :: address
  vrow_cluster_address :: "address option"
  vrow_epoch :: epoch
  vrow_stake :: "balance option"
  vrow_xscore :: decimal

record proposer_row =
  prow_address :: address
  prow_cluster_address :: address
  prow_epoch :: epoch
  prow_selected_next :: "bool option"

record vote_row =
  vtr_block_hash :: block_hash
  vtr_block_number :: "block_number option"
  vtr_cluster_address :: "address option"
  vtr_validator_address :: address
  vtr_signature :: "bytes option"
  vtr_verifying_key :: "bytes option"
  vtr_voting :: "bool option"
  vtr_epoch :: "epoch option"

record vote_result_row =
  rrow_block_hash :: block_hash
  rrow_block_number :: "block_number option"
  rrow_cluster_address :: "address option"
  rrow_validator_address :: address
  rrow_signature :: "bytes option"
  rrow_verifying_key :: "bytes option"
  rrow_vote_passed :: "bool option"
  rrow_epoch :: "epoch option"
  rrow_votes :: "bytes option"

record node_info_row =
  nrow_address :: address
  nrow_peer_id :: bytes
  nrow_ip_address :: "bytes option"
  nrow_joined_epoch :: "epoch option"
  nrow_metadata :: "bytes option"
  nrow_cluster_address :: "address option"
  nrow_signature :: "bytes option"
  nrow_verifying_key :: "bytes option"

record consensus_tables =
  t_validator :: "validator_row list"
  t_block_proposer :: "proposer_row list"
  t_vote :: "vote_row list"
  t_vote_result :: "vote_result_row list"
  t_node_info :: "node_info_row list"

type_synonym 'a tables_op = "(consensus_tables, error, 'a) op"

text \<open>\<open>update_rows p f\<close> is an \<^verbatim>\<open>UPDATE\<close> of the rows that satisfy \<open>p\<close>.\<close>

definition update_rows :: "('r \<Rightarrow> bool) \<Rightarrow> ('r \<Rightarrow> 'r) \<Rightarrow> 'r list \<Rightarrow> 'r list" where
  "update_rows p f = map (\<lambda>r. if p r then f r else r)"

section \<open>Validators\<close>

definition validator_row_of :: "table_ext \<Rightarrow> validator \<Rightarrow> validator_row" where
  "validator_row_of E v =
     \<lparr>vrow_address = val_address v, vrow_cluster_address = Some (val_cluster_address v),
      vrow_epoch = val_epoch v, vrow_stake = Some (val_stake v),
      vrow_xscore = (case te_from_f64 E (val_xscore v) of Some x \<Rightarrow> x | None \<Rightarrow> (0, 0))\<rparr>"

definition validator_key :: "validator_row \<Rightarrow> address \<times> epoch" where
  "validator_key r = (vrow_address r, vrow_epoch r)"

definition pg_create_validator :: "table_ext \<Rightarrow> validator \<Rightarrow> unit tables_op" where
  "pg_create_validator E v = modify (\<lambda>d.
     d\<lparr>t_validator := insert_new validator_key (validator_row_of E v) (t_validator d)\<rparr>)"

definition pg_update_validator :: "table_ext \<Rightarrow> validator \<Rightarrow> unit tables_op" where
  "pg_update_validator E v = modify (\<lambda>d.
     d\<lparr>t_validator := update_rows (\<lambda>r. validator_key r = (val_address v, val_epoch v))
         (\<lambda>_. validator_row_of E v) (t_validator d)\<rparr>)"

definition validator_of_row :: "table_ext \<Rightarrow> validator_row \<Rightarrow> error + validator" where
  "validator_of_row E r =
     (case vrow_stake r of
        None \<Rightarrow> Inl Panic
      | Some st \<Rightarrow>
         (case te_to_f64 E (vrow_xscore r) of
            None \<Rightarrow> Inl (DbError ''Failed to convert BigDecimal to f64'')
          | Some x \<Rightarrow>
              Inr \<lparr>val_address = vrow_address r,
                   val_cluster_address = (case vrow_cluster_address r of Some c \<Rightarrow> c | None \<Rightarrow> 0),
                   val_epoch = vrow_epoch r, val_stake = st, val_xscore = x\<rparr>))"

definition pg_load_validator :: "table_ext \<Rightarrow> address \<Rightarrow> validator tables_op" where
  "pg_load_validator E a = (\<lambda>d.
     case find (\<lambda>r. vrow_address r = a) (t_validator d) of
       None \<Rightarrow> (Inl (DbError ''Diesel query failed''), d)
     | Some r \<Rightarrow> (validator_of_row E r, d))"

text \<open>\<open>decode_all f rows\<close> is the loop over the rows of a query: the first row that fails ends it.\<close>

fun decode_all :: "('r \<Rightarrow> error + 'a) \<Rightarrow> 'r list \<Rightarrow> error + 'a list" where
  "decode_all f [] = Inr []"
| "decode_all f (r # rs) =
     (case f r of
        Inl e \<Rightarrow> Inl e
      | Inr x \<Rightarrow> (case decode_all f rs of Inl e \<Rightarrow> Inl e | Inr xs \<Rightarrow> Inr (x # xs)))"

definition pg_load_all_validators :: "table_ext \<Rightarrow> epoch \<Rightarrow> validator list option tables_op" where
  "pg_load_all_validators E e = (\<lambda>d.
     (case decode_all (validator_of_row E) (filter (\<lambda>r. vrow_epoch r = e) (t_validator d)) of
        Inl err \<Rightarrow> Inl err
      | Inr vs \<Rightarrow> Inr (if vs = [] then None else Some vs), d))"

definition pg_is_validator :: "address \<Rightarrow> epoch \<Rightarrow> bool tables_op" where
  "pg_is_validator a e = gets (\<lambda>d. filter (\<lambda>r. validator_key r = (a, e)) (t_validator d) \<noteq> [])"

definition pg_batch_store_validators :: "table_ext \<Rightarrow> validator list \<Rightarrow> unit tables_op" where
  "pg_batch_store_validators E vs = modify (\<lambda>d.
     d\<lparr>t_validator := fold (insert_new validator_key) (map (validator_row_of E) vs) (t_validator d)\<rparr>)"

definition pg_upsert_validator :: "table_ext \<Rightarrow> validator \<Rightarrow> unit tables_op" where
  "pg_upsert_validator E v =
     and_then (pg_is_validator (val_address v) (val_epoch v)) (\<lambda>present.
       if present then pg_update_validator E v else pg_create_validator E v)"

section \<open>Block proposers\<close>

definition proposer_key :: "proposer_row \<Rightarrow> address \<times> address \<times> epoch" where
  "proposer_key r = (prow_address r, prow_cluster_address r, prow_epoch r)"

definition pg_create_proposer :: "block_proposer \<Rightarrow> unit tables_op" where
  "pg_create_proposer p = (\<lambda>d.
     let row = \<lparr>prow_address = bpr_address p, prow_cluster_address = bpr_cluster_address p,
                prow_epoch = bpr_epoch p, prow_selected_next = Some False\<rparr>
     in if proposer_key row \<in> proposer_key ` set (t_block_proposer d)
        then (Inl (FailedWith ''Failed to create block proposer'' duplicate_key), d)
        else (Inr (), d\<lparr>t_block_proposer := t_block_proposer d @ [row]\<rparr>))"

text \<open>
  The update is not restricted to a cluster: two rows of the epoch would get the same primary key.
\<close>

definition pg_update_proposer :: "block_proposer \<Rightarrow> unit tables_op" where
  "pg_update_proposer p = (\<lambda>d.
     if 2 \<le> length (filter (\<lambda>r. prow_epoch r = bpr_epoch p) (t_block_proposer d))
     then (Inl (FailedWith ''Failed to create block proposer'' duplicate_key), d)
     else (Inr (), d\<lparr>t_block_proposer := update_rows (\<lambda>r. prow_epoch r = bpr_epoch p)
             (\<lambda>r. r\<lparr>prow_address := bpr_address p, prow_cluster_address := bpr_cluster_address p,
                    prow_selected_next := Some False\<rparr>) (t_block_proposer d)\<rparr>))"

definition pg_store_block_proposer :: "address \<Rightarrow> epoch \<Rightarrow> address \<Rightarrow> unit tables_op" where
  "pg_store_block_proposer c e a =
     pg_create_proposer \<lparr>bpr_cluster_address = c, bpr_epoch = e, bpr_address = a\<rparr>"

definition pg_load_selectors_block_epochs :: "address \<Rightarrow> epoch list option tables_op" where
  "pg_load_selectors_block_epochs a =
     gets (\<lambda>d. Some (map prow_epoch (filter (\<lambda>r. prow_address r = a) (t_block_proposer d))))"

definition pg_update_selected_next :: "address \<Rightarrow> address \<Rightarrow> unit tables_op" where
  "pg_update_selected_next a c =
     and_then (pg_load_selectors_block_epochs a) (\<lambda>found.
       case found of
         None \<Rightarrow> ok ()
       | Some epochs \<Rightarrow> for_each (\<lambda>e. modify (\<lambda>d. d\<lparr>t_block_proposer :=
             update_rows (\<lambda>r. proposer_key r = (a, c, e))
               (\<lambda>r. r\<lparr>prow_selected_next := Some True\<rparr>) (t_block_proposer d)\<rparr>)) epochs)"

text \<open>The two nested hash maps are given by their entries in the order of the iteration.\<close>

definition pg_store_block_proposers :: "(address \<times> (epoch \<times> address) list) list \<Rightarrow> unit tables_op" where
  "pg_store_block_proposers entries =
     for_each (\<lambda>(c, proposers). for_each (\<lambda>(e, a). pg_store_block_proposer c e a) proposers) entries"

definition pg_load_last_block_proposer_epoch :: "address \<Rightarrow> epoch tables_op" where
  "pg_load_last_block_proposer_epoch c = (\<lambda>d.
     case map prow_epoch (filter (\<lambda>r. prow_cluster_address r = c) (t_block_proposer d)) of
       [] \<Rightarrow> (Inl (DbError ''Unexpected null for non-null column''), d)
     | e # es \<Rightarrow> (Inr (fold max es e), d))"

definition pg_load_block_proposer :: "address \<Rightarrow> epoch \<Rightarrow> block_proposer option tables_op" where
  "pg_load_block_proposer c e = (\<lambda>d.
     case find (\<lambda>r. prow_cluster_address r = c \<and> prow_epoch r = e) (t_block_proposer d) of
       None \<Rightarrow> (Inl (DbError ''Diesel query failed''), d)
     | Some r \<Rightarrow> (Inr (Some \<lparr>bpr_cluster_address = prow_cluster_address r, bpr_epoch = prow_epoch r,
                             bpr_address = prow_address r\<rparr>), d))"

definition pg_load_block_proposers :: "address \<Rightarrow> (epoch \<rightharpoonup> block_proposer) tables_op" where
  "pg_load_block_proposers c = gets (\<lambda>d.
     fold (\<lambda>r m. m(prow_epoch r \<mapsto> \<lparr>bpr_cluster_address = prow_cluster_address r,
                                   bpr_epoch = prow_epoch r, bpr_address = prow_address r\<rparr>))
       (filter (\<lambda>r. prow_cluster_address r = c) (t_block_proposer d)) Map.empty)"

definition pg_find_cluster_address :: "address \<Rightarrow> address tables_op" where
  "pg_find_cluster_address a = (\<lambda>d.
     case find (\<lambda>r. prow_address r = a) (t_block_proposer d) of
       None \<Rightarrow> (Inl (DbError ''Diesel query failed''), d)
     | Some r \<Rightarrow> (Inr (prow_cluster_address r), d))"

definition pg_is_selected_next :: "address \<Rightarrow> bool tables_op" where
  "pg_is_selected_next a = gets (\<lambda>d.
     filter (\<lambda>r. prow_address r = a \<and> prow_selected_next r = Some False) (t_block_proposer d) = [])"

definition pg_upsert_block_proposer :: "address \<Rightarrow> epoch \<Rightarrow> address \<Rightarrow> unit tables_op" where
  "pg_upsert_block_proposer c e a = (\<lambda>d.
     let p = \<lparr>bpr_cluster_address = c, bpr_epoch = e, bpr_address = a\<rparr> in
     case find (\<lambda>r. prow_epoch r = e) (t_block_proposer d) of
       Some _ \<Rightarrow> pg_update_proposer p d
     | None \<Rightarrow> pg_create_proposer p d)"

section \<open>Votes\<close>

definition vote_row_of :: "vote \<Rightarrow> vote_row" where
  "vote_row_of v =
     \<lparr>vtr_block_hash = vsp_block_hash (vote_data v),
      vtr_block_number = Some (vsp_block_number (vote_data v)),
      vtr_cluster_address = Some (vsp_cluster_address (vote_data v)),
      vtr_validator_address = vote_validator_address v, vtr_signature = Some (vote_signature v),
      vtr_verifying_key = Some (vote_verifying_key v), vtr_voting = Some (vsp_vote (vote_data v)),
      vtr_epoch = Some (vsp_epoch (vote_data v))\<rparr>"

definition vote_key :: "vote_row \<Rightarrow> block_hash \<times> address" where
  "vote_key r = (vtr_block_hash r, vtr_validator_address r)"

definition pg_store_vote :: "vote \<Rightarrow> unit tables_op" where
  "pg_store_vote v = modify (\<lambda>d. d\<lparr>t_vote := insert_new vote_key (vote_row_of v) (t_vote d)\<rparr>)"

definition vote_of_row :: "vote_row \<Rightarrow> error + vote" where
  "vote_of_row r =
     (case vtr_block_number r of
        None \<Rightarrow> Inl (DbError ''Block number is None'')
      | Some n \<Rightarrow>
         (case vtr_epoch r of
            None \<Rightarrow> Inl (DbError ''Block number is None'')
          | Some e \<Rightarrow>
             (case (vtr_signature r, vtr_verifying_key r, vtr_voting r) of
                (Some sig, Some key, Some voting) \<Rightarrow>
                  Inr \<lparr>vote_data = \<lparr>vsp_block_number = n, vsp_epoch = e,
                         vsp_block_hash = vtr_block_hash r,
                         vsp_cluster_address = (case vtr_cluster_address r of Some c \<Rightarrow> c | None \<Rightarrow> 0),
                         vsp_vote = voting\<rparr>,
                       vote_validator_address = vtr_validator_address r, vote_signature = sig,
                       vote_verifying_key = key\<rparr>
              | _ \<Rightarrow> Inl Panic)))"

definition pg_load_all_votes :: "block_hash \<Rightarrow> vote list option tables_op" where
  "pg_load_all_votes h = (\<lambda>d.
     (case decode_all vote_of_row (filter (\<lambda>r. vtr_block_hash r = h) (t_vote d)) of
        Inl e \<Rightarrow> Inl e | Inr vs \<Rightarrow> Inr (Some vs), d))"

definition pg_load_all_votes_hashmap :: "block_hash \<Rightarrow> (address \<rightharpoonup> bool) option tables_op" where
  "pg_load_all_votes_hashmap h = (\<lambda>d.
     let rows = filter (\<lambda>r. vtr_block_hash r = h) (t_vote d) in
     if list_ex (\<lambda>r. vtr_voting r = None) rows then (Inl Panic, d)
     else (Inr (Some (fold (\<lambda>r m. m(vtr_validator_address r := vtr_voting r)) rows Map.empty)), d))"

section \<open>Vote results\<close>

definition vote_result_row_of :: "table_ext \<Rightarrow> vote_result \<Rightarrow> error + vote_result_row" where
  "vote_result_row_of E r =
     (case vrp_votes (vr_data r) of
        [] \<Rightarrow> Inl (Failed ''Unable to fetch epoch in vote'')
      | v # _ \<Rightarrow>
         (case te_encode_votes E (vrp_votes (vr_data r)) of
            None \<Rightarrow> Inl (Failed ''Failed to serialize votes'')
          | Some bs \<Rightarrow>
              Inr \<lparr>rrow_block_hash = vrp_block_hash (vr_data r),
                   rrow_block_number = Some (vrp_block_number (vr_data r)),
                   rrow_cluster_address = Some (vrp_cluster_address (vr_data r)),
                   rrow_validator_address = vr_validator_address r,
                   rrow_signature = Some (vr_signature r),
                   rrow_verifying_key = Some (vr_verifying_key r),
                   rrow_vote_passed = Some (vrp_vote_passed (vr_data r)),
                   rrow_epoch = Some (vsp_epoch (vote_data v)), rrow_votes = Some bs\<rparr>))"

definition vote_result_key :: "vote_result_row \<Rightarrow> block_hash \<times> address" where
  "vote_result_key r = (rrow_block_hash r, rrow_validator_address r)"

definition pg_store_vote_result :: "table_ext \<Rightarrow> vote_result \<Rightarrow> unit tables_op" where
  "pg_store_vote_result E r = (\<lambda>d.
     case vote_result_row_of E r of
       Inl e \<Rightarrow> (Inl e, d)
     | Inr row \<Rightarrow>
         (Inr (), d\<lparr>t_vote_result := insert_new vote_result_key row (t_vote_result d)\<rparr>))"

definition vote_result_of_row :: "table_ext \<Rightarrow> vote_result_row \<Rightarrow> error + vote_result" where
  "vote_result_of_row E r =
     (case rrow_block_number r of
        None \<Rightarrow> Inl (DbError ''Block number is None'')
      | Some n \<Rightarrow>
         (case (rrow_signature r, rrow_verifying_key r) of
            (Some sig, Some key) \<Rightarrow>
             (case (case rrow_votes r of None \<Rightarrow> Some [] | Some bs \<Rightarrow> te_decode_votes E bs) of
                None \<Rightarrow> Inl (Failed ''Failed to deserialize votes'')
              | Some vs \<Rightarrow>
                 (case rrow_vote_passed r of
                    None \<Rightarrow> Inl Panic
                  | Some passed \<Rightarrow>
                      Inr \<lparr>vr_data = \<lparr>vrp_block_number = n, vrp_block_hash = rrow_block_hash r,
                             vrp_cluster_address =
                               (case rrow_cluster_address r of Some c \<Rightarrow> c | None \<Rightarrow> 0),
                             vrp_vote_passed = passed, vrp_votes = vs\<rparr>,
                           vr_validator_address = rrow_validator_address r, vr_signature = sig,
                           vr_verifying_key = key\<rparr>))
          | _ \<Rightarrow> Inl Panic))"

definition pg_load_vote_result :: "table_ext \<Rightarrow> block_hash \<Rightarrow> vote_result tables_op" where
  "pg_load_vote_result E h = (\<lambda>d.
     case find (\<lambda>r. rrow_block_hash r = h) (t_vote_result d) of
       None \<Rightarrow> (Inl (DbError ''Diesel query failed''), d)
     | Some r \<Rightarrow> (vote_result_of_row E r, d))"

definition pg_batch_store_vote_results :: "table_ext \<Rightarrow> vote_result list \<Rightarrow> unit tables_op" where
  "pg_batch_store_vote_results E rs = (\<lambda>d.
     case decode_all (vote_result_row_of E) rs of
       Inl e \<Rightarrow> (Inl e, d)
     | Inr rows \<Rightarrow>
        if distinct (map vote_result_key (t_vote_result d @ rows))
        then (Inr (), d\<lparr>t_vote_result := t_vote_result d @ rows\<rparr>)
        else (Inl duplicate_key, d))"

section \<open>Nodes\<close>

definition node_info_row_of :: "node_info \<Rightarrow> node_info_row" where
  "node_info_row_of n =
     \<lparr>nrow_address = ni_address n, nrow_peer_id = ni_peer_id n,
      nrow_ip_address = Some (nip_ip_address (ni_data n)),
      nrow_joined_epoch = Some (ni_joined_epoch n),
      nrow_metadata = Some (nip_metadata (ni_data n)),
      nrow_cluster_address = Some (nip_cluster_address (ni_data n)),
      nrow_signature = Some (ni_signature n), nrow_verifying_key = Some (ni_verifying_key n)\<rparr>"

definition pg_create_node_info :: "node_info \<Rightarrow> unit tables_op" where
  "pg_create_node_info n = modify (\<lambda>d.
     d\<lparr>t_node_info := insert_new nrow_address (node_info_row_of n) (t_node_info d)\<rparr>)"

definition pg_update_node_info :: "node_info \<Rightarrow> unit tables_op" where
  "pg_update_node_info n = modify (\<lambda>d.
     d\<lparr>t_node_info := update_rows (\<lambda>r. nrow_address r = ni_address n)
         (\<lambda>_. node_info_row_of n) (t_node_info d)\<rparr>)"

definition node_info_of_row :: "node_info_row \<Rightarrow> error + node_info" where
  "node_info_of_row r =
     (case nrow_cluster_address r of
        None \<Rightarrow> Inl Panic
      | Some c \<Rightarrow>
         (let text = (\<lambda>column. case column of Some bs \<Rightarrow> bs | None \<Rightarrow> []) in
          Inr \<lparr>ni_data = \<lparr>nip_ip_address = text (nrow_ip_address r),
                 nip_metadata = text (nrow_metadata r), nip_cluster_address = c\<rparr>,
               ni_address = nrow_address r, ni_peer_id = nrow_peer_id r,
               ni_joined_epoch = (case nrow_joined_epoch r of Some e \<Rightarrow> e | None \<Rightarrow> 0),
               ni_signature = text (nrow_signature r),
               ni_verifying_key = text (nrow_verifying_key r)\<rparr>))"

definition pg_load_node_info :: "address \<Rightarrow> node_info tables_op" where
  "pg_load_node_info a = (\<lambda>d.
     case find (\<lambda>r. nrow_address r = a) (t_node_info d) of
       None \<Rightarrow> (Inl (DbError ''Diesel query for load node info failed''), d)
     | Some r \<Rightarrow> (node_info_of_row r, d))"

definition pg_find_node_info :: "address \<Rightarrow> (address option \<times> node_info option) tables_op" where
  "pg_find_node_info a =
     and_then (pg_load_node_info a) (\<lambda>n. ok (Some (nip_cluster_address (ni_data n)), Some n))"

definition pg_find_node_info_by_node_id :: "bytes \<Rightarrow> node_info tables_op" where
  "pg_find_node_info_by_node_id peer = (\<lambda>d.
     case find (\<lambda>r. nrow_peer_id r = peer) (t_node_info d) of
       None \<Rightarrow> (Inl (DbError ''Diesel query for find node info by node id failed''), d)
     | Some r \<Rightarrow> (node_info_of_row
         (r\<lparr>nrow_cluster_address := Some (case nrow_cluster_address r of Some c \<Rightarrow> c | None \<Rightarrow> 0)\<rparr>), d))"

definition pg_load_nodes :: "address \<Rightarrow> (address \<rightharpoonup> node_info) tables_op" where
  "pg_load_nodes c = (\<lambda>d.
     case decode_all node_info_of_row (filter (\<lambda>r. nrow_cluster_address r = Some c) (t_node_info d)) of
       Inl e \<Rightarrow> (Inl e, d)
     | Inr ns \<Rightarrow> (Inr (fold (\<lambda>n m. m(ni_address n \<mapsto> n)) ns Map.empty), d))"

definition pg_remove_node_info :: "address \<Rightarrow> unit tables_op" where
  "pg_remove_node_info a = modify (\<lambda>d.
     d\<lparr>t_node_info := filter (\<lambda>r. nrow_address r \<noteq> a) (t_node_info d)\<rparr>)"

definition pg_has_address_exists :: "address \<Rightarrow> bool tables_op" where
  "pg_has_address_exists a = gets (\<lambda>d. filter (\<lambda>r. nrow_address r = a) (t_node_info d) \<noteq> [])"

definition pg_upsert_node_info :: "node_info \<Rightarrow> unit tables_op" where
  "pg_upsert_node_info n = (\<lambda>d.
     case find (\<lambda>r. nrow_address r = ni_address n) (t_node_info d) of
       Some r \<Rightarrow> if nrow_peer_id r = [] then pg_update_node_info n d else (Inr (), d)
     | None \<Rightarrow> pg_create_node_info n d)"

definition pg_store_nodes :: "(address \<times> (address \<times> node_info) list) list \<Rightarrow> unit tables_op" where
  "pg_store_nodes clusters =
     for_each (\<lambda>(_, nodes). for_each (\<lambda>(_, n). pg_create_node_info n) nodes) clusters"

end
