(* ===== verification/L1X_Vote.thy ===== *)
theory L1X_Vote
  imports L1X_Consensus_Store "HOL-Library.Multiset"
begin

text \<open>
  Votes and vote results: the thresholds and the count of \<^verbatim>\<open>vote_result/src/vote_result_manager.rs\<close>
  and the checks of \<^verbatim>\<open>validate/src/validate_vote.rs\<close> and \<^verbatim>\<open>validate_vote_result.rs\<close>. The thresholds
  are computed in double precision; the model computes the same roundings on integers.

  A secret key is the function that signs a digest. The order in which a hash map gives its values
  is the parameter \<open>vx_order\<close>. \<^verbatim>\<open>VoteResultManager::vote_result\<close> has no caller and is not modelled.

  The theory shows what the two thresholds are, that a result a proposer generates passes the check
  of every other node, what a passed result means, and that the votes it counts need not be signed
  by the validators they name.
\<close>

section \<open>Results without state\<close>

text \<open>\<open>res_then r f\<close> is \<^verbatim>\<open>let x = r?; f(x)\<close> where nothing is written.\<close>

definition res_then :: "'e + 'a \<Rightarrow> ('a \<Rightarrow> 'e + 'b) \<Rightarrow> 'e + 'b" where
  "res_then r f = (case r of Inl e \<Rightarrow> Inl e | Inr x \<Rightarrow> f x)"

definition res_require :: "bool \<Rightarrow> 'e \<Rightarrow> 'e + unit" where
  "res_require b e = (if b then Inr () else Inl e)"

fun res_each :: "('x \<Rightarrow> 'e + unit) \<Rightarrow> 'x list \<Rightarrow> 'e + unit" where
  "res_each f [] = Inr ()"
| "res_each f (x # xs) = res_then (f x) (\<lambda>_. res_each f xs)"

lemma res_then_Inr [simp]: "res_then r f = Inr y \<longleftrightarrow> (\<exists>x. r = Inr x \<and> f x = Inr y)"
  by (cases r) (simp_all add: res_then_def)

lemma res_then_simps [simp]: "res_then (Inr x) f = f x" "res_then (Inl e) f = Inl e"
  by (simp_all add: res_then_def)

lemma res_require_Inr [simp]: "res_require b e = Inr x \<longleftrightarrow> b"
  by (simp add: res_require_def)

lemma res_require_True [simp]: "b \<Longrightarrow> res_require b e = Inr ()"
  by (simp add: res_require_def)

lemma res_each_Inr [simp]: "res_each f xs = Inr u \<longleftrightarrow> list_all (\<lambda>x. f x = Inr ()) xs"
  by (induction xs) auto

section \<open>Thresholds in double precision\<close>

text \<open>
  A non-negative double in the range that matters is an integer multiple of \<open>2\<^sup>-\<^sup>5\<^sup>3\<close> (\<open>fixed\<close>), and
  \<open>f64_round\<close> rounds one to 53 significant bits, ties to even.
\<close>

fun bit_len :: "nat \<Rightarrow> nat" where
  "bit_len n = (if n = 0 then 0 else Suc (bit_len (n div 2)))"

declare bit_len.simps [simp del]

definition round_bits :: "nat \<Rightarrow> nat \<Rightarrow> nat" where
  "round_bits k n =
     (let q = n div 2 ^ k; r = n mod 2 ^ k in
      if 2 * r < 2 ^ k \<or> 2 * r = 2 ^ k \<and> even q then q * 2 ^ k else (q + 1) * 2 ^ k)"

definition f64_round :: "nat \<Rightarrow> nat" where
  "f64_round n = round_bits (bit_len n - 53) n"

text \<open>\<^verbatim>\<open>0.60\<close>, the nearest double below three fifths, and \<^verbatim>\<open>f64::EPSILON\<close>.\<close>

definition VOTE_THRESHOLD :: nat where
  "VOTE_THRESHOLD = 5404319552844595"

definition F64_EPSILON :: nat where
  "F64_EPSILON = 2"

definition STAKE_PASS_NUMERATOR :: balance where
  "STAKE_PASS_NUMERATOR = 60"

definition STAKE_PASS_DENOMINATOR :: balance where
  "STAKE_PASS_DENOMINATOR = 100"

definition scaled_count :: "nat \<Rightarrow> nat" where
  "scaled_count n = f64_round (f64_round n * VOTE_THRESHOLD)"

text \<open>Without validators the difference is negative; its ceiling is zero, as that of the cut-off one.\<close>

definition calculate_min_votes :: "nat \<Rightarrow> nat" where
  "calculate_min_votes n = (f64_round (scaled_count n - F64_EPSILON) + (2 ^ 53 - 1)) div 2 ^ 53"

definition min_passed_votes :: "nat \<Rightarrow> nat" where
  "min_passed_votes n = scaled_count n div 2 ^ 53"

section \<open>Counting votes\<close>

record vote_ext =
  vx_ext :: ext
  vx_order :: "vote list \<Rightarrow> vote list"

type_synonym signer = "256 word \<Rightarrow> bytes"

definition vote_identity :: "vote \<Rightarrow> address \<times> bytes" where
  "vote_identity v = (vote_validator_address v, take 8 (vote_verifying_key v))"

text \<open>A key of fewer than eight bytes panics the slice.\<close>

definition get_unique_votes :: "vote_ext \<Rightarrow> vote list \<Rightarrow> error + vote list" where
  "get_unique_votes V votes =
     (if list_all (\<lambda>v. 8 \<le> length (vote_verifying_key v)) votes
      then Inr (vx_order V (fold (insert_new vote_identity) votes []))
      else Inl Panic)"

text \<open>
  The doubles whose distance from one is below \<^verbatim>\<open>f64::EPSILON\<close> are one and its predecessor.
\<close>

definition near_one :: "f64 \<Rightarrow> bool" where
  "near_one x \<longleftrightarrow> x = 0x3FF0000000000000 \<or> x = 0x3FEFFFFFFFFFFFFF"

definition is_org_marker :: "validator \<Rightarrow> bool" where
  "is_org_marker v \<longleftrightarrow> val_stake v = 0 \<and> near_one (val_xscore v)"

definition vote_stake :: "runtime_config \<Rightarrow> staking_info \<Rightarrow> validator list \<Rightarrow> vote \<Rightarrow> balance" where
  "vote_stake rc si validators v =
     (if (case find (\<lambda>w. val_address w = vote_validator_address v) validators of
            Some w \<Rightarrow> is_org_marker w | None \<Rightarrow> False)
      then ss_min_balance (rc_stake_score rc)
      else (case si_nodes si (vote_validator_address v) of
              Some info \<Rightarrow> npi_staked_balance info | None \<Rightarrow> 0))"

definition count_stakes ::
  "(vote \<Rightarrow> balance) \<Rightarrow> vote list \<Rightarrow> balance \<times> balance" where
  "count_stakes weight votes =
     fold (\<lambda>v (voted, yes).
         (voted + weight v, if vsp_vote (vote_data v) then yes + weight v else yes)) votes (0, 0)"

definition stake_passes :: "balance \<times> balance \<Rightarrow> bool" where
  "stake_passes sums =
     (case sums of (voted, yes) \<Rightarrow>
       if voted = 0 then False
       else case checked_mul yes STAKE_PASS_DENOMINATOR of
              None \<Rightarrow> False
            | Some y \<Rightarrow>
               (case checked_mul voted STAKE_PASS_NUMERATOR of None \<Rightarrow> False | Some t \<Rightarrow> t \<le> y))"

definition valid_votes :: "validator list \<Rightarrow> vote list \<Rightarrow> vote list" where
  "valid_votes validators = filter (\<lambda>v. vote_validator_address v \<in> val_address ` set validators)"

definition is_passed :: "vote list \<Rightarrow> validator list \<Rightarrow> nat \<Rightarrow> runtime_caches \<Rightarrow> error + bool" where
  "is_passed votes validators min_participation c =
     res_then (fst (config_get c)) (\<lambda>rc.
     res_then (fst (staking_get c)) (\<lambda>si.
       let valid = valid_votes validators votes in
       if length valid < min_participation then Inr False
       else Inr (stake_passes (count_stakes (vote_stake rc si validators) valid))))"

definition is_vote_result_passed ::
  "vote_ext \<Rightarrow> vote_result \<Rightarrow> validator list \<Rightarrow> runtime_caches \<Rightarrow> error + bool" where
  "is_vote_result_passed V r validators c =
     res_then (get_unique_votes V (vrp_votes (vr_data r))) (\<lambda>unique.
       is_passed unique validators (min_passed_votes (length validators)) c)"

definition try_to_generate_vote_result ::
  "vote_ext \<Rightarrow> block_number \<Rightarrow> block_hash \<Rightarrow> address \<Rightarrow> vote list \<Rightarrow> signer \<Rightarrow> bytes \<Rightarrow> address \<Rightarrow>
   validator list \<Rightarrow> runtime_caches \<Rightarrow> error + vote_result option" where
  "try_to_generate_vote_result V n h cluster all_votes sk key proposer validators c =
     res_then (get_unique_votes V all_votes) (\<lambda>unique.
       if unique = [] then Inl (Failed ''No votes found for the block_hash'')
       else
         let min_votes = calculate_min_votes (length validators) in
         if length unique < min_votes then Inr None
         else
           res_then (is_passed unique validators min_votes c) (\<lambda>passed.
             if \<not> passed then Inr None
             else
               let payload = \<lparr>vrp_block_number = n, vrp_block_hash = h, vrp_cluster_address = cluster,
                              vrp_vote_passed = passed, vrp_votes = unique\<rparr> in
               (case x_json (vx_ext V) (SignVoteResult payload) of
                  None \<Rightarrow> Inl (Failed ''Failed to serialize the vote signature payload'')
                | Some json \<Rightarrow>
                    Inr (Some \<lparr>vr_data = payload, vr_validator_address = proposer,
                               vr_signature = sk (x_sha256 (vx_ext V) json),
                               vr_verifying_key = key\<rparr>))))"

definition vote_manager_vote ::
  "block_number \<Rightarrow> block_hash \<Rightarrow> address \<Rightarrow> address \<Rightarrow> bytes \<Rightarrow> bytes \<Rightarrow> bool \<Rightarrow> epoch \<Rightarrow> vote" where
  "vote_manager_vote n h cluster a signature key yes e =
     \<lparr>vote_data = \<lparr>vsp_block_number = n, vsp_epoch = e, vsp_block_hash = h,
        vsp_cluster_address = cluster, vsp_vote = yes\<rparr>,
      vote_validator_address = a, vote_signature = signature, vote_verifying_key = key\<rparr>"

section \<open>Checking votes\<close>

definition validate_vote_fields :: "ext \<Rightarrow> vote \<Rightarrow> block \<Rightarrow> error + unit" where
  "validate_vote_fields X v blk =
     res_then (res_require (bh_block_number (blk_header blk) = vsp_block_number (vote_data v))
       (Failed ''Vote: Incorrect block number'')) (\<lambda>_.
     res_then (res_require (bh_block_hash (blk_header blk) = vsp_block_hash (vote_data v))
       (Failed ''Vote: Incorrect block hash'')) (\<lambda>_.
     res_then (res_require (bh_cluster_address (blk_header blk) = vsp_cluster_address (vote_data v))
       (Failed ''Vote: Incorrect cluster address'')) (\<lambda>_.
       vote_verify_signature X v)))"

definition validate_vote :: "ext \<Rightarrow> vote \<Rightarrow> block \<Rightarrow> consensus_tables \<Rightarrow> error + unit" where
  "validate_vote X v blk t =
     res_then (account_address X (vote_verifying_key v)) (\<lambda>node.
     res_then (fst (pg_is_validator node (vsp_epoch (vote_data v)) t)) (\<lambda>validator.
       if validator then validate_vote_fields X v blk else Inr ()))"

definition validate_vote_result :: "ext \<Rightarrow> vote_result \<Rightarrow> block \<Rightarrow> consensus_tables \<Rightarrow> error + unit" where
  "validate_vote_result X r blk t =
     res_then (res_require (bh_block_number (blk_header blk) = vrp_block_number (vr_data r))
       (Failed ''VoteResult: Incorrect block number'')) (\<lambda>_.
     res_then (res_require (bh_block_hash (blk_header blk) = vrp_block_hash (vr_data r))
       (Failed ''VoteResult: Incorrect block hash'')) (\<lambda>_.
     res_then (res_require (bh_cluster_address (blk_header blk) = vrp_cluster_address (vr_data r))
       (Failed ''VoteResult: Incorrect cluster address'')) (\<lambda>_.
     res_then (vote_result_verify_signature X r) (\<lambda>_.
       res_each (\<lambda>v.
         res_then (res_require (vsp_block_number (vote_data v) = vrp_block_number (vr_data r))
           (Failed ''VoteResult: Incorrect Vote block number'')) (\<lambda>_.
         res_then (res_require (vsp_block_hash (vote_data v) = vrp_block_hash (vr_data r))
           (Failed ''VoteResult: Incorrect Vote block hash'')) (\<lambda>_.
         res_then (res_require (vsp_cluster_address (vote_data v) = vrp_cluster_address (vr_data r))
           (Failed ''VoteResult: Incorrect Vote cluster address'')) (\<lambda>_.
           validate_vote X v blk t)))) (vrp_votes (vr_data r))))))"

section \<open>The two thresholds\<close>

lemma bit_len_bounds: "0 < n \<Longrightarrow> 2 ^ (bit_len n - 1) \<le> n \<and> n < 2 ^ bit_len n"
proof (induction n rule: bit_len.induct)
  case (1 n)
  show ?case
  proof (cases "n div 2 = 0")
    case True
    with "1.prems" have "n = 1" by presburger
    moreover have "bit_len (Suc 0) = 1" by (simp add: bit_len.simps [of "Suc 0"] bit_len.simps [of 0])
    ultimately show ?thesis by simp
  next
    case False
    with 1 have ih: "2 ^ (bit_len (n div 2) - 1) \<le> n div 2" "n div 2 < 2 ^ bit_len (n div 2)" by auto
    obtain m where m: "bit_len (n div 2) = Suc m" using False by (simp add: bit_len.simps [of "n div 2"])
    have "2 * 2 ^ m \<le> n" "n < 4 * 2 ^ m" using ih m by simp_all
    then show ?thesis using "1.prems" by (simp add: bit_len.simps [of n] m)
  qed
qed

lemma bit_len_le: "n < 2 ^ b \<Longrightarrow> bit_len n \<le> b"
proof (cases "n = 0")
  case False
  assume "n < 2 ^ b"
  with bit_len_bounds [of n] False have "(2::nat) ^ (bit_len n - 1) < 2 ^ b" by linarith
  then show ?thesis by (simp add: power_strict_increasing_iff)
qed (simp add: bit_len.simps)

lemma round_bits_le:
  assumes "n \<le> c" and "2 ^ k dvd c"
  shows "round_bits k n \<le> c"
proof -
  obtain d where d: "c = 2 ^ k * d" using assms(2) by blast
  show ?thesis
  proof (cases "n mod 2 ^ k = 0")
    case True
    then show ?thesis using assms(1) by (auto simp: round_bits_def Let_def)
  next
    case False
    have "n div 2 ^ k \<noteq> d"
    proof
      assume "n div 2 ^ k = d"
      then have "n = c + n mod 2 ^ k" using d mult_div_mod_eq [of "2 ^ k" n] by simp
      with assms(1) False show False by simp
    qed
    moreover have "n div 2 ^ k \<le> d" using assms(1) d by (metis div_le_mono nonzero_mult_div_cancel_left power_not_zero zero_neq_numeral)
    ultimately have "n div 2 ^ k + 1 \<le> d" by simp
    then have "(n div 2 ^ k + 1) * 2 ^ k \<le> c" using d mult_le_mono1 [of "n div 2 ^ k + 1" d "2 ^ k"] by (simp only: mult.commute)
    then show ?thesis by (auto simp: round_bits_def Let_def)
  qed
qed

lemma round_bits_near: "round_bits k n \<le> n + 2 ^ k" "n \<le> round_bits k n + 2 ^ k"
proof -
  obtain a where a: "a = n div 2 ^ k * 2 ^ k" by blast
  have e: "a + n mod 2 ^ k = n" unfolding a by (rule div_mult_mod_eq)
  have l: "n mod 2 ^ k < 2 ^ k" by simp
  have r: "round_bits k n = a \<or> round_bits k n = a + 2 ^ k"
    unfolding a by (simp add: round_bits_def Let_def)
  show "round_bits k n \<le> n + 2 ^ k" using r e by linarith
  show "n \<le> round_bits k n + 2 ^ k" using r e l by linarith
qed

lemma round_bits_up:
  assumes "2 ^ k dvd c" and "n < c" and "2 * (c - n) < 2 ^ k"
  shows "round_bits k n = c"
proof -
  obtain d where d: "c = 2 ^ k * d" using assms(1) by blast
  with assms(2) obtain e where e: "d = Suc e" by (cases d) auto
  have n: "n = 2 ^ k * e + (2 ^ k - (c - n))" using assms d e by simp
  have r: "2 ^ k - (c - n) < 2 ^ k" using assms(2) by (intro diff_less) simp_all
  have "n div 2 ^ k = e" "n mod 2 ^ k = 2 ^ k - (c - n)"
    using n r by (metis div_mult_self4 div_less add_cancel_left_right power_not_zero zero_neq_numeral,
        metis mod_mult_self4 mod_less)
  moreover have "2 ^ k < 2 * (2 ^ k - (c - n))" using assms(3) by linarith
  ultimately have "round_bits k n = (e + 1) * 2 ^ k" by (simp add: round_bits_def Let_def)
  then show ?thesis using d e by simp
qed

lemma f64_round_small: "n < 2 ^ 53 \<Longrightarrow> f64_round n = n"
  using bit_len_le [of n 53] by (simp add: f64_round_def round_bits_def)


text \<open>Rounding below \<open>2\<^sup>8\<^sup>6\<close> keeps the multiples of \<open>2\<^sup>5\<^sup>3\<close>.\<close>

lemma f64_round_near:
  assumes "n < 2 ^ 86"
  shows "f64_round n \<le> n + 2 ^ 33" and "n \<le> f64_round n + 2 ^ 33"
    and "n \<le> c * 2 ^ 53 \<Longrightarrow> f64_round n \<le> c * 2 ^ 53"
proof -
  have k: "bit_len n - 53 \<le> 33" using bit_len_le [OF assms] by simp
  then have p: "(2::nat) ^ (bit_len n - 53) \<le> 2 ^ 33" by (rule power_increasing) simp
  show "f64_round n \<le> n + 2 ^ 33" "n \<le> f64_round n + 2 ^ 33"
    unfolding f64_round_def
    by (rule order_trans [OF round_bits_near(1) add_left_mono [OF p]]
        order_trans [OF round_bits_near(2) add_left_mono [OF p]])+
  have "(2::nat) ^ (bit_len n - 53) dvd 2 ^ 53" using k by (intro le_imp_power_dvd) simp
  then show "f64_round n \<le> c * 2 ^ 53" if "n \<le> c * 2 ^ 53"
    unfolding f64_round_def using that by (intro round_bits_le) simp_all
qed

lemma threshold_times: "5 * (n * VOTE_THRESHOLD) + n = 3 * n * 2 ^ 53"
  by (simp add: VOTE_THRESHOLD_def)

lemma scaled_count_round: "n \<le> 2 ^ 32 \<Longrightarrow> scaled_count n = f64_round (n * VOTE_THRESHOLD)"
  by (simp add: scaled_count_def f64_round_small)

lemma scaled_bound: "n \<le> 2 ^ 32 \<Longrightarrow> n * VOTE_THRESHOLD < 2 ^ 86"
  using mult_le_mono1 [of n "2 ^ 32" VOTE_THRESHOLD] by (simp add: VOTE_THRESHOLD_def)

lemma scaled_count_fraction:
  assumes "n \<le> 2 ^ 32" and "0 < 3 * n mod 5"
  shows "(3 * n div 5) * 2 ^ 53 + 2 ^ 34 < scaled_count n"
    and "scaled_count n < (3 * n div 5 + 1) * 2 ^ 53"
proof -
  obtain q r where q: "q = 3 * n div 5" and r: "r = 3 * n mod 5" by blast
  have e: "3 * n = 5 * q + r" unfolding q r by simp
  have r': "1 \<le> r" "r \<le> 4" using assms(2) by (auto simp: r)
  obtain x where x: "x = scaled_count n" by blast
  have t: "5 * (n * VOTE_THRESHOLD) + n = 5 * (q * 2 ^ 53) + r * 2 ^ 53"
    unfolding threshold_times e by (simp add: algebra_simps)
  have near: "x \<le> n * VOTE_THRESHOLD + 2 ^ 33" "n * VOTE_THRESHOLD \<le> x + 2 ^ 33"
    unfolding x scaled_count_round [OF assms(1)] using f64_round_near [OF scaled_bound [OF assms(1)]] by blast+
  show "(3 * n div 5) * 2 ^ 53 + 2 ^ 34 < scaled_count n"
    using near t assms(1) r' unfolding x [symmetric] q [symmetric] by simp
  show "scaled_count n < (3 * n div 5 + 1) * 2 ^ 53"
    using near t assms(1) r' unfolding x [symmetric] q [symmetric] by simp
qed

lemma scaled_count_multiple:
  assumes "n \<le> 2 ^ 32" and "3 * n mod 5 = 0"
  shows "scaled_count n = (3 * n div 5) * 2 ^ 53"
proof (cases "n = 0")
  case True
  then show ?thesis by (simp add: scaled_count_def f64_round_small)
next
  case False
  have "5 dvd n" using assms(2) by presburger
  then obtain j where j: "n = 5 * j" by blast
  with False have j0: "0 < j" by simp
  let ?z = "n * VOTE_THRESHOLD" let ?k = "bit_len ?z - 53"
  have z: "?z + j = 3 * j * 2 ^ 53" using threshold_times [of n] by (simp add: j)
  have zpos: "0 < ?z" using False by (simp add: VOTE_THRESHOLD_def)
  have big: "53 < bit_len ?z"
  proof (rule ccontr)
    assume "\<not> 53 < bit_len ?z"
    then have "(2::nat) ^ bit_len ?z \<le> 2 ^ 53" by (intro power_increasing) simp_all
    with bit_len_bounds [OF zpos] have "?z < 2 ^ 53" by linarith
    moreover have "j \<le> 2 ^ 32" using assms(1) j by simp
    ultimately show False using z j0 by simp
  qed
  have "53 + ?k = bit_len ?z" using big by simp
  then have "(2::nat) ^ 53 * 2 ^ ?k = 2 ^ bit_len ?z" by (metis power_add)
  then have "?z < 2 ^ 53 * 2 ^ ?k" using bit_len_bounds [OF zpos] by linarith
  moreover have "j < 2 ^ 53" using assms(1) j by simp
  ultimately have "3 * j * 2 ^ 53 < 2 ^ 53 * 2 ^ ?k + 2 ^ 53" using z by linarith
  then have "3 * j * 2 ^ 53 < (2 ^ ?k + 1) * 2 ^ 53" by (simp only: algebra_simps)
  then have k: "3 * j \<le> 2 ^ ?k" by simp
  have "?k \<le> 33" using bit_len_le [OF scaled_bound [OF assms(1)]] by simp
  then have dvd: "(2::nat) ^ ?k dvd 3 * j * 2 ^ 53" by (intro dvd_mult le_imp_power_dvd) simp
  have diff: "3 * j * 2 ^ 53 - ?z = j" using z by (metis diff_add_inverse)
  have "round_bits ?k ?z = 3 * j * 2 ^ 53"
    by (rule round_bits_up [OF dvd]) (use z j0 k diff in linarith)+
  then show ?thesis unfolding scaled_count_round [OF assms(1)] f64_round_def by (simp add: j)
qed

lemma vote_thresholds:
  assumes "n \<le> 2 ^ 32"
  shows "calculate_min_votes n = (3 * n + 4) div 5" and "min_passed_votes n = 3 * n div 5"
proof -
  obtain q where q: "q = 3 * n div 5" by blast
  have qb: "q \<le> 2 ^ 32" unfolding q using assms by linarith
  have "calculate_min_votes n = (3 * n + 4) div 5 \<and> min_passed_votes n = 3 * n div 5"
  proof (cases "3 * n mod 5 = 0")
    case True
    have x: "scaled_count n = q * 2 ^ 53" unfolding q by (rule scaled_count_multiple [OF assms True])
    have c: "(3 * n + 4) div 5 = q" using True unfolding q by presburger
    have zb: "q * 2 ^ 53 - 2 < 2 ^ 86" using qb by simp
    note near = f64_round_near [OF zb]
    have "(f64_round (q * 2 ^ 53 - 2) + (2 ^ 53 - 1)) div 2 ^ 53 = q"
    proof (cases "q = 0")
      case False
      have "f64_round (q * 2 ^ 53 - 2) \<le> q * 2 ^ 53" by (rule near(3)) simp
      moreover have "(q - 1) * 2 ^ 53 < f64_round (q * 2 ^ 53 - 2)"
        using near(2) False by (cases q) simp_all
      ultimately show ?thesis using False by (intro div_nat_eqI) (simp_all add: algebra_simps)
    qed (simp add: f64_round_small)
    then show ?thesis by (simp add: calculate_min_votes_def min_passed_votes_def x F64_EPSILON_def c flip: q)
  next
    case False
    note x = scaled_count_fraction [OF assms, folded q]
    have c: "(3 * n + 4) div 5 = q + 1" using False unfolding q by presburger
    have zb: "scaled_count n - 2 < 2 ^ 86" using x(2) False qb by simp
    note near = f64_round_near [OF zb]
    have "f64_round (scaled_count n - 2) \<le> (q + 1) * 2 ^ 53" by (rule near(3)) (use x(2) False in simp)
    moreover have "q * 2 ^ 53 < f64_round (scaled_count n - 2)" using near(2) x(1) False by simp
    ultimately have "(f64_round (scaled_count n - 2) + (2 ^ 53 - 1)) div 2 ^ 53 = q + 1"
      by (intro div_nat_eqI) (simp_all add: algebra_simps)
    moreover have "scaled_count n div 2 ^ 53 = q"
      using x False by (intro div_nat_eqI) (simp_all add: algebra_simps)
    ultimately show ?thesis by (simp add: calculate_min_votes_def min_passed_votes_def F64_EPSILON_def c flip: q)
  qed
  then show "calculate_min_votes n = (3 * n + 4) div 5" and "min_passed_votes n = 3 * n div 5" by blast+
qed

text \<open>
  C31: The two thresholds of a vote, computed in double precision, are exact for every number of
  validators up to \<open>2\<^sup>3\<^sup>2\<close>: a proposer asks for three fifths of the validators rounded up, a node that
  checks a vote result for three fifths rounded down.
\<close>

theorem vote_thresholds_exact:
  assumes "n \<le> 2 ^ 32"
  shows "calculate_min_votes n = (3 * n + 4) div 5 \<and> min_passed_votes n = 3 * n div 5"
  using vote_thresholds [OF assms] by blast

theorem vote_thresholds_exact_witness: "calculate_min_votes 7 = 5 \<and> min_passed_votes 7 = 4"
  using vote_thresholds_exact [of 7] by simp

section \<open>Counting does not depend on the order\<close>

text \<open>The values of a hash map come in some order, each of them once.\<close>

definition enumerates_values :: "vote_ext \<Rightarrow> bool" where
  "enumerates_values V \<longleftrightarrow> (\<forall>vs. mset (vx_order V vs) = mset vs)"

lemma count_stakes_run:
  "fold (\<lambda>v (voted, yes). (voted + weight v, if vsp_vote (vote_data v) then yes + weight v else yes))
     votes (a, b) =
   (a + sum_list (map weight votes), b + sum_list (map weight (filter (\<lambda>v. vsp_vote (vote_data v)) votes)))"
  by (induction votes arbitrary: a b) (auto simp: algebra_simps)

lemma count_stakes_sums:
  "count_stakes weight votes =
     (sum_list (map weight votes), sum_list (map weight (filter (\<lambda>v. vsp_vote (vote_data v)) votes)))"
  unfolding count_stakes_def by (subst count_stakes_run) simp

lemma count_stakes_mset:
  assumes "mset vs = mset ws"
  shows "count_stakes weight vs = count_stakes weight ws"
proof -
  have "sum_list (map weight (filter P vs)) = sum_list (map weight (filter P ws))" for P
    by (metis assms mset_filter mset_map sum_mset_sum_list)
  from this [of "\<lambda>_. True"] this [of "\<lambda>v. vsp_vote (vote_data v)"] show ?thesis
    by (simp add: count_stakes_sums)
qed

lemma is_passed_mset:
  assumes "mset vs = mset ws"
  shows "is_passed vs validators k c = is_passed ws validators k c"
proof -
  have m: "mset (valid_votes validators vs) = mset (valid_votes validators ws)"
    by (simp add: valid_votes_def assms)
  from m have "length (valid_votes validators vs) = length (valid_votes validators ws)" by (metis size_mset)
  then show ?thesis unfolding is_passed_def Let_def count_stakes_mset [OF m] by simp
qed

lemma is_passed_fewer: "is_passed vs validators k c = Inr True \<Longrightarrow> l \<le> k \<Longrightarrow> is_passed vs validators l c = Inr True"
  by (auto simp: is_passed_def Let_def split: if_splits)

text \<open>The stake behind votes, as a number that does not wrap.\<close>

definition voted_stake :: "runtime_config \<Rightarrow> staking_info \<Rightarrow> validator list \<Rightarrow> vote list \<Rightarrow> nat" where
  "voted_stake rc si validators votes =
     sum_list (map (\<lambda>v. unat (vote_stake rc si validators v)) votes)"

lemma voted_stake_exact:
  "voted_stake rc si validators votes < 2 ^ 128 \<Longrightarrow>
     unat (sum_list (map (vote_stake rc si validators) votes)) = voted_stake rc si validators votes"
  by (induction votes) (auto simp: voted_stake_def unat_word_ariths)

lemma voted_stake_filter: "voted_stake rc si validators (filter P votes) \<le> voted_stake rc si validators votes"
  by (induction votes) (auto simp: voted_stake_def)

lemma fold_insert_new_distinct:
  "distinct (map key rows) \<Longrightarrow> distinct (map key (fold (insert_new key) rs rows))"
  by (induction rs arbitrary: rows) (simp_all add: insert_new_def)

lemma fold_insert_new_id:
  "distinct (map key (rows @ rs)) \<Longrightarrow> fold (insert_new key) rs rows = rows @ rs"
  by (induction rs arbitrary: rows) (auto simp: insert_new_def)

lemma fold_insert_new_set: "set (fold (insert_new key) rs rows) \<subseteq> set rows \<union> set rs"
proof (induction rs arbitrary: rows)
  case (Cons r rs)
  from Cons.IH [of "insert_new key r rows"] show ?case by (auto simp: insert_new_def split: if_splits)
qed simp

lemma get_unique_votes_run:
  assumes "get_unique_votes V votes = Inr unique" and "enumerates_values V"
  shows "distinct (map vote_identity unique)" and "set unique \<subseteq> set votes"
    and "list_all (\<lambda>v. 8 \<le> length (vote_verifying_key v)) votes"
proof -
  have u: "unique = vx_order V (fold (insert_new vote_identity) votes [])"
    and k: "list_all (\<lambda>v. 8 \<le> length (vote_verifying_key v)) votes"
    using assms(1) by (auto simp: get_unique_votes_def split: if_splits)
  have m: "mset unique = mset (fold (insert_new vote_identity) votes [])" using assms(2) by (simp add: u enumerates_values_def)
  then have "mset (map vote_identity unique) = mset (map vote_identity (fold (insert_new vote_identity) votes []))"
    by simp
  then show "distinct (map vote_identity unique)"
    using fold_insert_new_distinct [of vote_identity "[]" votes] by (metis distinct.simps(1) list.map(1) mset_eq_imp_distinct_iff)
  show "set unique \<subseteq> set votes" using fold_insert_new_set [of vote_identity votes "[]"] m
    by (metis list.set(1) mset_eq_setD sup_bot.left_neutral)
  show "list_all (\<lambda>v. 8 \<le> length (vote_verifying_key v)) votes" by (rule k)
qed

lemma get_unique_votes_again:
  assumes "distinct (map vote_identity votes)" and "list_all (\<lambda>v. 8 \<le> length (vote_verifying_key v)) votes"
  shows "get_unique_votes V votes = Inr (vx_order V votes)"
  using assms fold_insert_new_id [of vote_identity "[]" votes] by (simp add: get_unique_votes_def)

section \<open>What proposers generate and nodes accept\<close>

text \<open>
  C11: Agreement on a vote result. Whatever votes a proposer has collected, a vote result that it
  generates passes the check of every node with the same configuration and the same validators,
  in whichever order the two enumerate their hash maps.
\<close>

theorem generated_result_passes:
  assumes "try_to_generate_vote_result V n h cluster votes sk key proposer validators c = Inr (Some r)"
    and "enumerates_values V" and "enumerates_values W"
    and "length validators \<le> 2 ^ 32"
  shows "is_vote_result_passed W r validators c = Inr True"
proof -
  obtain unique where u: "get_unique_votes V votes = Inr unique"
    and p: "is_passed unique validators (calculate_min_votes (length validators)) c = Inr True"
    and r: "vrp_votes (vr_data r) = unique"
    using assms(1) by (auto simp: try_to_generate_vote_result_def Let_def split: if_splits option.splits)
  have "list_all (\<lambda>v. 8 \<le> length (vote_verifying_key v)) unique"
    using get_unique_votes_run(2,3) [OF u assms(2)] by (auto simp: list_all_iff)
  then have "get_unique_votes W unique = Inr (vx_order W unique)"
    using get_unique_votes_run(1) [OF u assms(2)] by (rule get_unique_votes_again [rotated])
  moreover have "min_passed_votes (length validators) \<le> calculate_min_votes (length validators)"
    using vote_thresholds [OF assms(4)] by simp
  ultimately show ?thesis
    using is_passed_fewer [OF p] is_passed_mset [of "vx_order W unique" unique] assms(3)
    by (simp add: is_vote_result_passed_def r enumerates_values_def)
qed

text \<open>
  C5: What a passed vote result means. It contains votes of pairwise different identities, an identity being
  the address of a validator with the first eight bytes of the voting key. Each of them names a validator,
  they are at least three fifths (rounded down) as many as there are validators, and the stake of those
  in favour is at least three fifths of the stake of them all, provided that the stakes add up to less than
  \<open>2 ^ 128\<close>. A validator named under several keys counts once for each of them.
\<close>

theorem passed_result_has_quorum:
  assumes "is_vote_result_passed V r validators c = Inr True"
    and "enumerates_values V" and "length validators \<le> 2 ^ 32"
    and "rt_config c = Some rc" and "rt_staking c = Some si"
  shows "\<exists>votes. set votes \<subseteq> set (vrp_votes (vr_data r)) \<and> distinct (map vote_identity votes) \<and>
     list_all (\<lambda>v. vote_validator_address v \<in> val_address ` set validators) votes \<and>
     3 * length validators div 5 \<le> length votes \<and>
     (voted_stake rc si validators votes < 2 ^ 128 \<longrightarrow>
        3 * voted_stake rc si validators votes \<le>
        5 * voted_stake rc si validators (filter (\<lambda>v. vsp_vote (vote_data v)) votes))"
proof -
  let ?w = "vote_stake rc si validators" let ?yes = "\<lambda>v. vsp_vote (vote_data v)"
  obtain unique where u: "get_unique_votes V (vrp_votes (vr_data r)) = Inr unique"
    and p: "is_passed unique validators (min_passed_votes (length validators)) c = Inr True"
    using assms(1) by (auto simp: is_vote_result_passed_def)
  let ?vs = "valid_votes validators unique"
  have len: "3 * length validators div 5 \<le> length ?vs"
    and pass: "stake_passes (count_stakes ?w ?vs)"
    using p assms(4,5) vote_thresholds [OF assms(3)]
    by (auto simp: is_passed_def Let_def config_get_def staking_get_def split: if_splits)
  have stakes: "3 * voted_stake rc si validators ?vs \<le> 5 * voted_stake rc si validators (filter ?yes ?vs)"
    if small: "voted_stake rc si validators ?vs < 2 ^ 128"
  proof -
    have "voted_stake rc si validators (filter ?yes ?vs) < 2 ^ 128"
      using voted_stake_filter small by (rule le_less_trans)
    from voted_stake_exact [OF this] voted_stake_exact [OF small] pass show ?thesis
      by (auto simp: stake_passes_def count_stakes_sums checked_mul_def word_le_nat_alt unat_word_ariths
          STAKE_PASS_NUMERATOR_def STAKE_PASS_DENOMINATOR_def Let_def split: if_splits option.splits)
  qed
  have "distinct (map vote_identity ?vs)"
    using get_unique_votes_run(1) [OF u assms(2)] by (simp add: valid_votes_def distinct_map_filter)
  moreover have "set ?vs \<subseteq> set (vrp_votes (vr_data r))"
    using get_unique_votes_run(2) [OF u assms(2)] by (auto simp: valid_votes_def)
  moreover have "list_all (\<lambda>v. vote_validator_address v \<in> val_address ` set validators) ?vs"
    by (simp add: valid_votes_def list_all_iff)
  ultimately show ?thesis using len stakes by (intro exI [of _ ?vs]) blast
qed


text \<open>A vote in favour of a block that names a validator but carries a key of one's own.\<close>

definition forged_vote :: "bytes \<Rightarrow> block \<Rightarrow> validator \<Rightarrow> vote" where
  "forged_vote key blk v =
     vote_manager_vote (bh_block_number (blk_header blk)) (bh_block_hash (blk_header blk))
       (bh_cluster_address (blk_header blk)) (val_address v) [] key True (bh_epoch (blk_header blk))"

definition forged_payload :: "bytes \<Rightarrow> block \<Rightarrow> validator list \<Rightarrow> vote_result_sign_payload" where
  "forged_payload key blk validators =
     \<lparr>vrp_block_number = bh_block_number (blk_header blk), vrp_block_hash = bh_block_hash (blk_header blk),
      vrp_cluster_address = bh_cluster_address (blk_header blk), vrp_vote_passed = True,
      vrp_votes = map (forged_vote key blk) validators\<rparr>"

text \<open>
  C38: One key forges a vote result. The votes of a key that belongs to no validator are not checked
  at all, and the count believes the validator that a vote names. So whoever holds such a key passes
  both checks with one unsigned vote per validator, against the will of them all.
\<close>

theorem forged_result_is_accepted:
  assumes "account_address X key = Inr a" and "fst (pg_is_validator a (bh_epoch (blk_header blk)) t) = Inr False"
    and "8 \<le> length key" and "vr_data r = forged_payload key blk validators"
    and "vote_result_verify_signature X r = Inr ()"
    and "distinct (map val_address validators)" and "length validators \<le> 2 ^ 32"
    and "enumerates_values V" and "rt_config c = Some rc" and "rt_staking c = Some si"
    and "0 < voted_stake rc si validators (map (forged_vote key blk) validators)"
    and "100 * voted_stake rc si validators (map (forged_vote key blk) validators) < 2 ^ 128"
  shows "validate_vote_result X r blk t = Inr () \<and> is_vote_result_passed V r validators c = Inr True"
proof -
  let ?vs = "map (forged_vote key blk) validators" let ?w = "vote_stake rc si validators"
  have "validate_vote_result X r blk t = Inr ()"
    using assms(1,2,4,5)
    by (auto simp: validate_vote_result_def forged_payload_def forged_vote_def vote_manager_vote_def
        validate_vote_def list_all_iff)
  moreover have "distinct (map vote_identity ?vs)"
    using assms(6) by (simp add: distinct_map inj_on_def vote_identity_def forged_vote_def vote_manager_vote_def)
  then have "get_unique_votes V ?vs = Inr (vx_order V ?vs)"
    by (rule get_unique_votes_again)
      (simp add: list_all_iff forged_vote_def vote_manager_vote_def assms(3))
  moreover have "is_passed ?vs validators (min_passed_votes (length validators)) c = Inr True"
  proof -
    have valid: "valid_votes validators ?vs = ?vs"
      by (simp add: valid_votes_def filter_id_conv forged_vote_def vote_manager_vote_def)
    have yes: "filter (\<lambda>v. vsp_vote (vote_data v)) ?vs = ?vs"
      by (simp add: filter_id_conv forged_vote_def vote_manager_vote_def)
    have "voted_stake rc si validators ?vs < 2 ^ 128" using assms(12) by simp
    from voted_stake_exact [OF this] have "stake_passes (sum_list (map ?w ?vs), sum_list (map ?w ?vs))"
      using assms(11,12)
      by (auto simp: stake_passes_def checked_mul_def word_le_nat_alt unat_word_ariths
          STAKE_PASS_NUMERATOR_def STAKE_PASS_DENOMINATOR_def Let_def)
    moreover have "min_passed_votes (length validators) \<le> length ?vs"
      using vote_thresholds [OF assms(7)] by simp
    ultimately show ?thesis
      using assms(9,10) by (simp add: is_passed_def config_get_def staking_get_def Let_def count_stakes_sums valid yes)
  qed
  ultimately show ?thesis
    using assms(4,8) is_passed_mset [of "vx_order V ?vs" ?vs]
    by (simp add: is_vote_result_passed_def forged_payload_def enumerates_values_def)
qed

section \<open>A small network\<close>

definition vote_demo_ext :: ext where
  "vote_demo_ext =
     \<lparr>x_keccak256 = (\<lambda>_. 9), x_sha256 = (\<lambda>_. 0), x_public_key = Some, x_signature = Some,
      x_ecdsa_verify = (\<lambda>_ _ _. True), x_json = (\<lambda>_. Some []), x_bincode_tx = (\<lambda>_. Some []),
      x_bincode_block = (\<lambda>_. Some []), x_eth_decode = (\<lambda>_. None), x_recoverable = (\<lambda>_ _ _. None),
      x_recover_ecdsa = (\<lambda>_ _ _. None)\<rparr>"

definition vote_demo :: vote_ext where
  "vote_demo = \<lparr>vx_ext = vote_demo_ext, vx_order = rev\<rparr>"

definition demo_config :: runtime_config where
  "demo_config =
     \<lparr>rc_org_nodes = {1, 2}, rc_whitelisted_nodes = None, rc_whitelisted_block_proposers = None,
      rc_blacklisted_nodes = None, rc_blacklisted_block_proposers = Some {}, rc_max_block_height = None,
      rc_max_validators = 4,
      rc_xscore = \<lparr>xs_xscore_threshold = 0, xs_weight_for_stakescore = 0, xs_weight_for_kinscore = 0\<rparr>,
      rc_stake_score = \<lparr>ss_min_balance = 10, ss_max_balance = 100, ss_min_stake_age = 0,
        ss_max_stake_age = 0, ss_min_lock_period = 0, ss_max_lock_period = 0,
        ss_weight_for_stake_balance_6 = 0, ss_weight_for_stake_age_6 = 0,
        ss_weight_for_locking_period_6 = 0, ss_weight_for_stake_balance_12 = 0,
        ss_weight_for_stake_age_12 = 0, ss_weight_for_locking_period_12 = 0,
        ss_weight_for_stake_balance_18 = 0, ss_weight_for_stake_age_18 = 0,
        ss_weight_for_locking_period_18 = 0\<rparr>,
      rc_kin_score = \<lparr>ks_min_uptime = 0, ks_max_uptime = 0, ks_min_participation = 0,
        ks_max_participation = 0, ks_min_response_time = 0, ks_max_response_time = 0,
        ks_min_security_measure = 0, ks_max_security_measure = 0, ks_xscore_threshold = 0,
        ks_weight_for_uptime = 0, ks_weight_for_participation_history = 0,
        ks_weight_for_response_time = 0, ks_weight_for_security_measure = 0\<rparr>,
      rc_validated_block_reward = 0\<rparr>"

definition demo_staking :: staking_info where
  "demo_staking = \<lparr>si_nodes = Map.empty, si_reward_node_map = Map.empty\<rparr>"

definition demo_caches :: runtime_caches where
  "demo_caches = \<lparr>rt_config = Some demo_config,
     rt_deny = Some \<lparr>dc_whitelisted_addresses = None, dc_blacklisted_addresses = None\<rparr>,
     rt_staking = Some demo_staking\<rparr>"

definition org_validator :: "address \<Rightarrow> validator" where
  "org_validator a = \<lparr>val_address = a, val_cluster_address = 0, val_epoch = 0, val_stake = 0,
     val_xscore = 0x3FF0000000000000\<rparr>"

definition demo_validators :: "validator list" where
  "demo_validators = [org_validator 1, org_validator 2]"

definition demo_votes :: "vote list" where
  "demo_votes = [vote_manager_vote 0 0 0 1 [] (replicate 33 3) True 0,
                 vote_manager_vote 0 0 0 2 [] (replicate 33 4) True 0]"

definition demo_result :: vote_result where
  "demo_result = \<lparr>vr_data = \<lparr>vrp_block_number = 0, vrp_block_hash = 0, vrp_cluster_address = 0,
      vrp_vote_passed = True, vrp_votes = rev demo_votes\<rparr>,
     vr_validator_address = 1, vr_signature = replicate 64 0, vr_verifying_key = replicate 33 3\<rparr>"

lemma vote_demo_enumerates: "enumerates_values vote_demo"
  by (simp add: enumerates_values_def vote_demo_def)

lemmas vote_demo_defs =
  get_unique_votes_def insert_new_def vote_identity_def demo_votes_def vote_manager_vote_def
  is_passed_def Let_def config_get_def staking_get_def valid_votes_def demo_validators_def
  org_validator_def count_stakes_def vote_stake_def is_org_marker_def near_one_def demo_caches_def
  demo_config_def demo_staking_def stake_passes_def checked_mul_def STAKE_PASS_NUMERATOR_def
  STAKE_PASS_DENOMINATOR_def vote_demo_def vote_demo_ext_def

lemma demo_result_generated:
  "try_to_generate_vote_result vote_demo 0 0 0 demo_votes (\<lambda>_. replicate 64 0) (replicate 33 3) 1
     demo_validators demo_caches = Inr (Some demo_result)"
proof -
  have "calculate_min_votes (length demo_validators) = 2"
    using vote_thresholds(1) [of "length demo_validators"] by (simp add: demo_validators_def)
  then show ?thesis
    unfolding try_to_generate_vote_result_def by (simp add: vote_demo_defs demo_result_def)
qed

theorem generated_result_passes_witness: "is_vote_result_passed vote_demo demo_result demo_validators demo_caches = Inr True"
  by (rule generated_result_passes [OF demo_result_generated vote_demo_enumerates vote_demo_enumerates])
    (simp add: demo_validators_def)

lemma demo_result_passed: "is_vote_result_passed vote_demo demo_result demo_validators demo_caches = Inr True"
proof -
  have "min_passed_votes (length demo_validators) = 1"
    using vote_thresholds(2) [of "length demo_validators"] by (simp add: demo_validators_def)
  then show ?thesis
    unfolding is_vote_result_passed_def by (simp add: vote_demo_defs demo_result_def)
qed

theorem passed_result_has_quorum_witness:
  "\<exists>votes. set votes \<subseteq> set demo_votes \<and> distinct (map vote_identity votes) \<and> 1 \<le> length votes"
  using passed_result_has_quorum [OF demo_result_passed vote_demo_enumerates, of demo_config demo_staking]
  by (auto simp: demo_validators_def demo_caches_def demo_result_def)

definition forged_result :: vote_result where
  "forged_result = \<lparr>vr_data = forged_payload (replicate 33 5) \<lparr>blk_header = block_header_default, blk_transactions = []\<rparr> demo_validators,
     vr_validator_address = 9, vr_signature = replicate 64 0, vr_verifying_key = replicate 33 5\<rparr>"

theorem forged_result_is_accepted_witness:
  "let blk = \<lparr>blk_header = block_header_default, blk_transactions = []\<rparr>;
       t = \<lparr>t_validator = map (validator_row_of \<lparr>te_from_f64 = (\<lambda>_. None), te_to_f64 = (\<lambda>_. None),
              te_encode_votes = (\<lambda>_. None), te_decode_votes = (\<lambda>_. None)\<rparr>) demo_validators,
            t_block_proposer = [], t_vote = [], t_vote_result = [], t_node_info = []\<rparr>
   in validate_vote_result vote_demo_ext forged_result blk t = Inr () \<and>
      is_vote_result_passed vote_demo forged_result demo_validators demo_caches = Inr True"
  unfolding Let_def
  by (rule forged_result_is_accepted [where a = 9 and key = "replicate 33 5" and rc = demo_config and si = demo_staking])
    (simp_all add: account_address_def vote_demo_ext_def address_of_hash_def pg_is_validator_def gets_def
      validator_key_def validator_row_of_def demo_validators_def org_validator_def forged_result_def
      vote_result_verify_signature_def verify_sized_def verify_with_ecdsa_def vote_demo_enumerates
      demo_caches_def voted_stake_def vote_stake_def forged_vote_def vote_manager_vote_def
      is_org_marker_def near_one_def demo_config_def)

end
