(* ===== verification/L1X_Validate.thy ===== *)
theory L1X_Validate
  imports L1X_Vote
begin

text \<open>
  The checks a node makes before it accepts a transaction or a block (\<^verbatim>\<open>validate/src\<close>). They only
  read: the tables of the node and its caches. Reading an eBPF object file is a parameter, as in
  \<open>L1X_Contracts\<close>.

  The theory shows which transactions are known to be signed by their sender, that an accepted
  transfer is covered by the balance, and what the checks of a block establish about the chain.
\<close>

section \<open>Parameters and state\<close>

text \<open>
  \<open>vp_elf\<close> is what the loader gives of an object file: its code, then its version, then its memory.
\<close>

record validate_params =
  vp_store :: store_ext
  vp_tables :: table_ext
  vp_elf :: "bytes \<Rightarrow> error + bytes \<times> (error + ebpf_object_version \<times> (error + unit))"

abbreviation vp_ext :: "validate_params \<Rightarrow> ext" where
  "vp_ext P \<equiv> se_ext (vp_store P)"

record node_world =
  nw_chain :: block_world
  nw_tables :: consensus_tables

section \<open>Transactions\<close>

definition validate_common :: "ext \<Rightarrow> transaction \<Rightarrow> address \<Rightarrow> database \<Rightarrow> error + unit" where
  "validate_common X tx sender d =
     res_then (tx_hash X tx) (\<lambda>_.
     res_then (verify_signature X tx) (\<lambda>valid.
     res_then (res_require valid (Failed ''Invalid transaction signature'')) (\<lambda>_.
     res_then (fst (pg_is_valid_account sender d)) (\<lambda>known.
     res_then (res_require known (Failed ''Invalid transaction sender'')) (\<lambda>_.
     res_then (fst (pg_get_account sender d)) (\<lambda>account.
     res_then (res_require (tx_nonce tx = acc_nonce account + 1) (Failed ''Invalid nonce'')) (\<lambda>_.
     res_then (required_balance tx) (\<lambda>required.
       res_require (required \<le> acc_balance account) (Failed ''Not enough balance'')))))))))"

definition validate_common_native_token_tx ::
  "ext \<Rightarrow> transaction \<Rightarrow> address \<Rightarrow> database \<Rightarrow> error + account" where
  "validate_common_native_token_tx X tx sender d =
     res_then (tx_hash X tx) (\<lambda>_.
     res_then (verify_signature X tx) (\<lambda>valid.
     res_then (res_require valid (Failed ''Invalid transaction signature'')) (\<lambda>_.
     res_then (fst (pg_is_valid_account sender d)) (\<lambda>known.
     res_then (res_require known (Failed ''Invalid transaction sender'')) (\<lambda>_.
     res_then (fst (pg_get_account sender d)) (\<lambda>account.
     res_then (res_require (acc_nonce account < tx_nonce tx) (Failed ''Invalid nonce'')) (\<lambda>_.
       Inr account)))))))"

definition validate_native_token ::
  "ext \<Rightarrow> transaction \<Rightarrow> balance \<Rightarrow> address \<Rightarrow> database \<Rightarrow> error + unit" where
  "validate_native_token X tx amount sender d =
     res_then (validate_common_native_token_tx X tx sender d) (\<lambda>account.
     res_then (res_require (amount \<noteq> 0) (Failed ''Amount should be greater than 0'')) (\<lambda>_.
       if is_mint_tx sender tx then Inr ()
       else res_require (unat amount + unat (tx_fee_limit tx) \<le> unat (acc_balance account))
              (Failed ''Insufficient balance to cover the transaction'')))"

definition validate_stake :: "address \<Rightarrow> address \<Rightarrow> balance \<Rightarrow> database \<Rightarrow> error + unit" where
  "validate_stake sender pool amount d =
     res_then (fst (pg_get_staking_pool pool d)) (\<lambda>p.
     res_then (case sp_min_stake p of None \<Rightarrow> Inr ()
       | Some m \<Rightarrow> res_require (m \<le> amount) (Failed ''Stake amount is less than the minimum'')) (\<lambda>_.
     res_then (case sp_max_stake p of None \<Rightarrow> Inr ()
       | Some m \<Rightarrow> res_require (amount \<le> m) (Failed ''Stake amount is greater than the maximum'')) (\<lambda>_.
     res_then (case sp_max_pool_balance p of None \<Rightarrow> Inr ()
       | Some m \<Rightarrow>
           res_then (fst (pg_get_balance pool d)) (\<lambda>pool_balance.
             case checked_add pool_balance amount of
               None \<Rightarrow> Inl (Failed ''Pool balance overflow'')
             | Some after_stake \<Rightarrow> res_require (after_stake \<le> m) (Failed ''Reached max pool balance''))) (\<lambda>_.
     res_then (fst (pg_get_balance sender d)) (\<lambda>account_balance.
       res_require (amount < account_balance) (Failed ''Insufficient balance to stake''))))))"

definition validate_unstake :: "address \<Rightarrow> address \<Rightarrow> balance \<Rightarrow> database \<Rightarrow> error + unit" where
  "validate_unstake sender pool amount d =
     res_then (fst (pg_get_staking_pool pool d)) (\<lambda>_.
     res_then (fst (pg_get_staking_account sender pool d)) (\<lambda>sa.
       res_require (amount \<le> sa_balance sa) (Failed ''Insufficient staked balance in the pool'')))"

definition verify_ebpf :: "validate_params \<Rightarrow> bytes \<Rightarrow> error + unit" where
  "verify_ebpf P code =
     res_then (vp_elf P code) (\<lambda>(program, versioned).
     res_then (check program) (\<lambda>_.
     res_then versioned (\<lambda>(version, memory).
     res_then (verify_version version) (\<lambda>_.
       memory))))"

definition pg_is_valid_contract_instance :: "address \<Rightarrow> bool db_op" where
  "pg_is_valid_contract_instance a =
     gets (\<lambda>d. filter (\<lambda>r. cm_instance_address r = a) (t_code_map d) \<noteq> [])"

definition validate_contract_deployment ::
  "validate_params \<Rightarrow> contract_type \<Rightarrow> transaction \<Rightarrow> bytes \<Rightarrow> address \<Rightarrow> database \<Rightarrow> error + unit" where
  "validate_contract_deployment P ct tx code sender d =
     (case ct of
        L1XVM \<Rightarrow> res_then (validate_common (vp_ext P) tx sender d) (\<lambda>_. verify_ebpf P code)
      | EVM \<Rightarrow> validate_common (vp_ext P) tx sender d
      | XTALK \<Rightarrow> Inl (Failed ''Deployment is not implemented''))"

definition validate_contract_init ::
  "validate_params \<Rightarrow> contract_type \<Rightarrow> transaction \<Rightarrow> address \<Rightarrow> address \<Rightarrow> database \<Rightarrow> error + unit" where
  "validate_contract_init P ct tx contract_a sender d =
     (case ct of
        L1XVM \<Rightarrow>
          res_then (validate_common (vp_ext P) tx sender d) (\<lambda>_.
          res_then (fst (pg_get_contract_owner contract_a d)) (\<lambda>(access, owner).
            res_require (\<not> (access = access_type_to_i8 PRIVATE \<and> owner \<noteq> sender))
              (Failed ''Only owner can instantiate the PRIVATE contract code'')))
      | EVM \<Rightarrow> Inl (Failed ''Not supported'')
      | XTALK \<Rightarrow> Inl (Failed ''Initialization is not implemented''))"

definition validate_contract_function_call ::
  "validate_params \<Rightarrow> contract_type \<Rightarrow> transaction \<Rightarrow> address \<Rightarrow> bytes \<Rightarrow> address \<Rightarrow> database \<Rightarrow>
   error + unit" where
  "validate_contract_function_call P ct tx inst arguments sender d =
     (case ct of
        L1XVM \<Rightarrow>
          res_then (validate_common (vp_ext P) tx sender d) (\<lambda>_.
          res_then (fst (pg_is_valid_contract_instance inst d)) (\<lambda>known.
            res_require known (Failed ''Can't find the contract address'')))
      | EVM \<Rightarrow>
          res_then (validate_common (vp_ext P) tx sender d) (\<lambda>_.
            (case tx_type tx of
               SmartContractFunctionCall _ _ _ deposit \<Rightarrow>
                 res_then (fst (pg_is_valid_contract_instance inst d)) (\<lambda>known.
                   let native = \<not> known \<and> arguments = [] in
                   if native \<and> deposit = 0 then Inl (Failed ''Deposit should be greater than 0'')
                   else res_require (native \<or> known) (Failed ''Can't find the contract address''))
             | _ \<Rightarrow> Inl (Failed ''Invalid transaction type'')))
      | XTALK \<Rightarrow> Inl (Failed ''Smart contract function call is not implemented''))"

definition validate_tx :: "validate_params \<Rightarrow> transaction \<Rightarrow> address \<Rightarrow> block_world \<Rightarrow> error + unit" where
  "validate_tx P tx sender w =
     res_then (tx_hash (vp_ext P) tx) (\<lambda>_.
       let ct = (if tx_eth_original tx \<noteq> None then EVM else L1XVM); d = bw_db w in
       case tx_type tx of
         NativeTokenTransfer recipient amount \<Rightarrow>
           res_then (fst (wb_list_check sender recipient (bw_caches w))) (\<lambda>_.
             validate_native_token (vp_ext P) tx amount sender d)
       | SmartContractDeployment _ kind code _ _ \<Rightarrow> validate_contract_deployment P kind tx code sender d
       | SmartContractInit contract_a _ _ \<Rightarrow> validate_contract_init P ct tx contract_a sender d
       | SmartContractFunctionCall inst _ arguments _ \<Rightarrow>
           validate_contract_function_call P ct tx inst arguments sender d
       | CreateStakingPool _ _ _ _ _ _ \<Rightarrow> Inr ()
       | Stake pool amount \<Rightarrow> validate_stake sender pool amount d
       | UnStake pool amount \<Rightarrow> validate_unstake sender pool amount d
       | StakingPoolContract _ _ \<Rightarrow> Inr ())"

section \<open>Blocks\<close>

definition validate_expected_block_fields :: "block_header \<Rightarrow> block \<Rightarrow> error + unit" where
  "validate_expected_block_fields head blk =
     (let h = blk_header blk in
      case checked_add (bh_block_number head) 1 of
        None \<Rightarrow> Inl (Failed ''Error incrementing block number'')
      | Some n \<Rightarrow>
         res_then (res_require (n = bh_block_number h) (Failed ''Incorrect block number'')) (\<lambda>_.
         res_then (res_require (bh_block_hash head = bh_parent_hash h) (Failed ''Incorrect parent hash'')) (\<lambda>_.
         res_then (res_require (bh_state_hash head = bh_state_hash h) (Failed ''Incorrect state hash'')) (\<lambda>_.
         res_then (res_require (bh_cluster_address head = bh_cluster_address h)
           (Failed ''Incorrect cluster address'')) (\<lambda>_.
         res_then (res_require (bh_timestamp head \<le> bh_timestamp h) (Failed ''Incorrect timestamp'')) (\<lambda>_.
           res_require (usize_len (blk_transactions blk) = scast (bh_num_transactions h))
             (Failed ''Incorrect number of transactions'')))))))"

definition validate_compute_block_hash :: "ext \<Rightarrow> block_payload \<Rightarrow> error + block_hash" where
  "validate_compute_block_hash X p =
     (case x_bincode_block X (block_sign_payload_from p) of
        None \<Rightarrow> Inl (Failed ''Error converting new_block_sign_payload to bytes'')
      | Some bs \<Rightarrow> Inr (x_sha256 X bs))"

definition validate_expected_block_hash :: "ext \<Rightarrow> block_payload \<Rightarrow> error + unit" where
  "validate_expected_block_hash X p =
     res_then (validate_compute_block_hash X p) (\<lambda>expected.
       res_require (expected = bh_block_hash (blk_header (bp_block p))) (Failed ''Incorrect block hash''))"

definition validate_reward_tx :: "transaction \<Rightarrow> runtime_config \<Rightarrow> error + address" where
  "validate_reward_tx tx rc =
     (if rc_validated_block_reward rc = 0
      then Inl (Failed ''Invalid transaction: No amount configured for reward distribution'')
      else case tx_type tx of
             NativeTokenTransfer receiver amount \<Rightarrow>
               if rc_validated_block_reward rc \<noteq> amount then Inl (Failed ''Incorrect reward amount'')
               else Inr receiver
           | _ \<Rightarrow> Inl (Failed ''Invalid transaction type: Expected NativeTokenTransfer''))"

text \<open>The loop over the transactions, with the validators that still wait for their reward.\<close>

fun validate_transactions ::
  "validate_params \<Rightarrow> block_world \<Rightarrow> runtime_config \<Rightarrow> staking_info \<Rightarrow> transaction list \<Rightarrow>
   address set option \<Rightarrow> error + address set option" where
  "validate_transactions P w rc si [] eligible = Inr eligible"
| "validate_transactions P w rc si (tx # txs) eligible =
     res_then (account_address (vp_ext P) (tx_verifying_key tx)) (\<lambda>sender.
       if sender = SYSTEM_REWARDS_DISTRIBUTOR
       then (case eligible of
               None \<Rightarrow> validate_transactions P w rc si txs None
             | Some waiting \<Rightarrow>
                 res_then (validate_reward_tx tx rc) (\<lambda>receiver.
                   case si_reward_node_map si receiver of
                     None \<Rightarrow> Inl (Failed ''Reward receiver is not a validator'')
                   | Some validator \<Rightarrow>
                       if validator \<notin> waiting
                       then Inl (Failed ''Invalid transaction, unknown validator for reward'')
                       else validate_transactions P w rc si txs (Some (waiting - {validator}))))
       else res_then (validate_tx P tx sender w) (\<lambda>_. validate_transactions P w rc si txs eligible))"

definition validate_block_header_and_transactions ::
  "validate_params \<Rightarrow> block_payload \<Rightarrow> block_world \<Rightarrow> address \<Rightarrow> address set option \<Rightarrow> error + unit" where
  "validate_block_header_and_transactions P p w cluster eligible =
     res_then (fst (pg_block_head_header (vp_store P) cluster (bw_blocks w))) (\<lambda>head.
     res_then (fst (staking_get (bw_caches w))) (\<lambda>si.
     res_then (fst (config_get (bw_caches w))) (\<lambda>rc.
     res_then (if head \<noteq> blk_header (bp_block p)
               then validate_expected_block_fields head (bp_block p) else Inr ()) (\<lambda>_.
     res_then (validate_expected_block_hash (vp_ext P) p) (\<lambda>_.
     res_then (validate_transactions P w rc si (blk_transactions (bp_block p)) eligible) (\<lambda>left.
       case left of
         None \<Rightarrow> Inr ()
       | Some waiting \<Rightarrow> res_require (waiting = {}) (Failed ''Invalid reward distribution'')))))))"

definition get_eligible_validators_for_reward :: "address set \<Rightarrow> block_world \<Rightarrow> error + address set" where
  "get_eligible_validators_for_reward voters w =
     (if voters = {} then Inr {}
      else
        res_then (fst (config_get (bw_caches w))) (\<lambda>rc.
        res_then (get_token_transfer_tx_total_fee
            (execute_fee_new (transaction_new_system 0 0 (NativeTokenTransfer 0 0) 0) system_fee_config_new))
          (\<lambda>fee_limit.
          let n = word_of_nat (card voters) in
          case checked_mul (rc_validated_block_reward rc) n of
            None \<Rightarrow> Inl (Failed ''Overflow while calculating total rewards'')
          | Some rewards \<Rightarrow>
             (case checked_mul fee_limit n of
                None \<Rightarrow> Inl (Failed ''Overflow while calculating total fees'')
              | Some fees \<Rightarrow>
                 (case checked_add rewards fees of
                    None \<Rightarrow> Inl (Failed ''Overflow while calculating total cost'')
                  | Some cost \<Rightarrow>
                      let balance = (case fst (pg_get_balance SYSTEM_REWARDS_DISTRIBUTOR (bw_db w)) of
                                       Inr b \<Rightarrow> b | Inl _ \<Rightarrow> 0)
                      in if balance < cost then Inr {} else Inr voters)))))"

definition validate_block ::
  "validate_params \<Rightarrow> block_payload \<Rightarrow> block_world \<Rightarrow> address \<Rightarrow> address \<Rightarrow> error + unit" where
  "validate_block P p w cluster proposer =
     res_then (block_payload_verify_signature (vp_ext P) p) (\<lambda>_.
     res_then (account_address (vp_ext P) (bp_verifying_key p)) (\<lambda>a.
     res_then (res_require (a = proposer) (Failed ''Block proposer address mismatch'')) (\<lambda>_.
     res_then (fst (pg_block_head_header (vp_store P) cluster (bw_blocks w))) (\<lambda>_.
       validate_block_header_and_transactions P p w cluster None))))"

definition is_block_proposer :: "block_proposer \<Rightarrow> consensus_tables \<Rightarrow> error + bool" where
  "is_block_proposer p t =
     res_then (fst (pg_load_block_proposer (bpr_cluster_address p) (bpr_epoch p) t)) (\<lambda>loaded.
       Inr (loaded = Some p))"

definition validate_proposed_block ::
  "validate_params \<Rightarrow> block_payload \<Rightarrow> node_world \<Rightarrow> address \<Rightarrow> address set \<Rightarrow> error + unit" where
  "validate_proposed_block P p w cluster last_voters =
     (let h = blk_header (bp_block p) in
      res_then (account_address (vp_ext P) (bp_verifying_key p)) (\<lambda>a.
        if is_system_block (bp_block p) then Inl (Failed ''System type block can't be proposed'')
        else
          res_then (is_block_proposer \<lparr>bpr_cluster_address = bh_cluster_address h, bpr_epoch = bh_epoch h,
              bpr_address = a\<rparr> (nw_tables w)) (\<lambda>authorized.
          res_then (res_require authorized (Failed ''Block is not received from authorized block proposer'')) (\<lambda>_.
          res_then (block_payload_verify_signature (vp_ext P) p) (\<lambda>_.
          res_then (get_eligible_validators_for_reward last_voters (nw_chain w)) (\<lambda>eligible.
            validate_block_header_and_transactions P p (nw_chain w) cluster (Some eligible)))))))"

section \<open>What is known of an accepted transaction\<close>

definition is_staking_type :: "transaction_type \<Rightarrow> bool" where
  "is_staking_type ty = (case ty of CreateStakingPool _ _ _ _ _ _ \<Rightarrow> True | Stake _ _ \<Rightarrow> True
     | UnStake _ _ \<Rightarrow> True | StakingPoolContract _ _ \<Rightarrow> True | _ \<Rightarrow> False)"

lemma validate_common_Inr:
  "validate_common X tx sender d = Inr () \<longleftrightarrow>
     (\<exists>h. tx_hash X tx = Inr h) \<and> verify_signature X tx = Inr True \<and>
     (\<exists>account required. fst (pg_get_account sender d) = Inr account \<and>
        tx_nonce tx = acc_nonce account + 1 \<and> required_balance tx = Inr required \<and>
        required \<le> acc_balance account)"
  by (auto simp: validate_common_def pg_is_valid_account_def gets_def pg_get_account_def split: option.splits)

lemma validate_native_Inr:
  "validate_common_native_token_tx X tx sender d = Inr account \<longleftrightarrow>
     (\<exists>h. tx_hash X tx = Inr h) \<and> verify_signature X tx = Inr True \<and>
     fst (pg_get_account sender d) = Inr account \<and> acc_nonce account < tx_nonce tx"
  by (auto simp: validate_common_native_token_tx_def pg_is_valid_account_def gets_def pg_get_account_def split: option.splits)

text \<open>What the balance of the sender has to cover, without wrapping.\<close>

definition cost :: "transaction \<Rightarrow> nat" where
  "cost tx = unat (tx_fee_limit tx) +
     (case tx_type tx of
        NativeTokenTransfer _ amount \<Rightarrow> unat amount
      | SmartContractDeployment _ _ _ deposit _ \<Rightarrow> unat deposit
      | SmartContractInit _ _ deposit \<Rightarrow> unat deposit
      | SmartContractFunctionCall _ _ _ deposit \<Rightarrow> unat deposit
      | Stake _ amount \<Rightarrow> unat amount
      | UnStake _ amount \<Rightarrow> unat amount
      | _ \<Rightarrow> 0)"

lemma required_balance_cost: "required_balance tx = Inr b \<Longrightarrow> unat b = cost tx"
  by (auto simp: required_balance_def cost_def Let_def checked_simps
      split: transaction_type.splits option.splits)

text \<open>
  C34: A transaction that passes the checks of a node and is not one of the staking transactions is
  signed by the key it names, its sender has an account and, unless it mints, the balance of that
  account covers the fee limit with the amount or the deposit.
\<close>

theorem accepted_transactions_are_signed:
  assumes "validate_tx P tx sender w = Inr ()" and "\<not> is_staking_type (tx_type tx)"
  shows "verify_signature (vp_ext P) tx = Inr True \<and>
    (\<exists>account. fst (pg_get_account sender (bw_db w)) = Inr account \<and>
       (is_mint_tx sender tx \<or> cost tx \<le> unat (acc_balance account)))"
proof (cases "tx_type tx")
  case (NativeTokenTransfer recipient amount)
  with assms(1) show ?thesis
    by (auto simp: validate_tx_def Let_def validate_native_token_def validate_native_Inr cost_def split: if_splits)
next
  case (SmartContractDeployment acc kind code deposit salt)
  with assms(1) have "validate_common (vp_ext P) tx sender (bw_db w) = Inr ()"
    by (cases kind) (auto simp: validate_tx_def Let_def validate_contract_deployment_def)
  then show ?thesis by (auto simp: validate_common_Inr word_le_nat_alt dest: required_balance_cost)
next
  case (SmartContractInit a args deposit)
  with assms(1) have "validate_common (vp_ext P) tx sender (bw_db w) = Inr ()"
    by (auto simp: validate_tx_def Let_def validate_contract_init_def split: if_splits)
  then show ?thesis by (auto simp: validate_common_Inr word_le_nat_alt dest: required_balance_cost)
next
  case (SmartContractFunctionCall inst f args deposit)
  with assms(1) have "validate_common (vp_ext P) tx sender (bw_db w) = Inr ()"
    by (auto simp: validate_tx_def Let_def validate_contract_function_call_def split: if_splits)
  then show ?thesis by (auto simp: validate_common_Inr word_le_nat_alt dest: required_balance_cost)
qed (use assms(2) in \<open>auto simp: is_staking_type_def\<close>)

text \<open>
  The checks of the staking transactions never look at the signature, the nonce or the fee limit:
  a node accepts such a transaction in the name of any sender.
\<close>

theorem staking_needs_no_signature:
  assumes "validate_tx P tx sender w = Inr ()" and "is_staking_type (tx_type tx)"
    and "tx_hash (vp_ext P) (tx\<lparr>tx_signature := sig, tx_nonce := n, tx_fee_limit := fee\<rparr>) = Inr h"
  shows "validate_tx P (tx\<lparr>tx_signature := sig, tx_nonce := n, tx_fee_limit := fee\<rparr>) sender w = Inr ()"
  using assms by (cases "tx_type tx") (auto simp: validate_tx_def Let_def is_staking_type_def)

section \<open>What is known of an accepted block\<close>

definition reward_txs :: "ext \<Rightarrow> transaction list \<Rightarrow> transaction list" where
  "reward_txs X = filter (\<lambda>tx. account_address X (tx_verifying_key tx) = Inr SYSTEM_REWARDS_DISTRIBUTOR)"

definition rewards_validator :: "runtime_config \<Rightarrow> staking_info \<Rightarrow> transaction \<Rightarrow> address \<Rightarrow> bool" where
  "rewards_validator rc si tx v \<longleftrightarrow>
     (\<exists>receiver. tx_type tx = NativeTokenTransfer receiver (rc_validated_block_reward rc) \<and>
        si_reward_node_map si receiver = Some v)"

lemma rewards_validatorI:
  "tx_type tx = NativeTokenTransfer receiver (rc_validated_block_reward rc) \<Longrightarrow>
   si_reward_node_map si receiver = Some v \<Longrightarrow> rewards_validator rc si tx v"
  by (auto simp: rewards_validator_def)

lemma validate_reward_tx_Inr:
  "validate_reward_tx tx rc = Inr receiver \<longleftrightarrow>
     rc_validated_block_reward rc \<noteq> 0 \<and> tx_type tx = NativeTokenTransfer receiver (rc_validated_block_reward rc)"
  by (auto simp: validate_reward_tx_def split: transaction_type.splits if_splits)

lemma validate_transactions_checked:
  assumes "validate_transactions P w rc si txs e = Inr left" and "tx \<in> set txs"
  shows "\<exists>sender. account_address (vp_ext P) (tx_verifying_key tx) = Inr sender \<and>
     (sender = SYSTEM_REWARDS_DISTRIBUTOR \<or> validate_tx P tx sender w = Inr ())"
  using assms
  by (induction txs arbitrary: e) (auto split: if_splits option.splits)

lemma validate_transactions_rewards:
  assumes "validate_transactions P w rc si txs (Some waiting) = Inr left"
  shows "\<exists>vs rest. left = Some rest \<and> list_all2 (rewards_validator rc si) (reward_txs (vp_ext P) txs) vs \<and>
     distinct vs \<and> set vs \<subseteq> waiting \<and> rest = waiting - set vs"
  using assms
proof (induction txs arbitrary: waiting)
  case Nil
  then show ?case by (auto simp: reward_txs_def intro!: exI [of _ "[]"])
next
  case (Cons tx txs)
  obtain sender where s: "account_address (vp_ext P) (tx_verifying_key tx) = Inr sender"
    using Cons.prems by auto
  show ?case
  proof (cases "sender = SYSTEM_REWARDS_DISTRIBUTOR")
    case True
    obtain receiver v where r: "validate_reward_tx tx rc = Inr receiver" "si_reward_node_map si receiver = Some v"
      "v \<in> waiting" and rest: "validate_transactions P w rc si txs (Some (waiting - {v})) = Inr left"
      using Cons.prems s True by (auto split: option.splits if_splits)
    from Cons.IH [OF rest] obtain vs where
      "left = Some (waiting - {v} - set vs)" "list_all2 (rewards_validator rc si) (reward_txs (vp_ext P) txs) vs"
      "distinct vs" "set vs \<subseteq> waiting - {v}" by auto
    then show ?thesis using r s True
      by (intro exI [of _ "v # vs"] exI [of _ "waiting - set (v # vs)"])
        (auto simp: reward_txs_def validate_reward_tx_Inr intro: rewards_validatorI)
  next
    case False
    then have "validate_transactions P w rc si txs (Some waiting) = Inr left" using Cons.prems s by auto
    from Cons.IH [OF this] show ?thesis using s False by (simp add: reward_txs_def)
  qed
qed

text \<open>
  C7: A block that passes the checks is the head of the chain or its direct successor: the next
  number, the hash of the head as its parent, a time not before that of the head, and as many
  transactions as the header says. Its hash is that of its contents. Every transaction that does not name the
  rewards distributor as its sender passes the checks of the node on its own. The transactions of the
  distributor are exempt: they are checked as payments of rewards when the set of validators that wait for a
  reward is known, and then each of these is paid the configured reward exactly once and nobody else is; when
  it is not known, they are not checked at all.
\<close>

theorem validated_block_extends_chain:
  assumes "validate_block_header_and_transactions P p w cluster eligible = Inr ()"
    and "rt_config (bw_caches w) = Some rc" and "rt_staking (bw_caches w) = Some si"
  shows "\<exists>head. fst (pg_block_head_header (vp_store P) cluster (bw_blocks w)) = Inr head \<and>
     (blk_header (bp_block p) = head \<or>
        unat (bh_block_number (blk_header (bp_block p))) = unat (bh_block_number head) + 1 \<and>
        bh_parent_hash (blk_header (bp_block p)) = bh_block_hash head \<and>
        bh_timestamp head \<le> bh_timestamp (blk_header (bp_block p)) \<and>
        usize_len (blk_transactions (bp_block p)) = scast (bh_num_transactions (blk_header (bp_block p)))) \<and>
     validate_compute_block_hash (vp_ext P) p = Inr (bh_block_hash (blk_header (bp_block p))) \<and>
     list_all (\<lambda>tx. \<exists>sender. account_address (vp_ext P) (tx_verifying_key tx) = Inr sender \<and>
        (sender = SYSTEM_REWARDS_DISTRIBUTOR \<or> validate_tx P tx sender w = Inr ()))
       (blk_transactions (bp_block p)) \<and>
     (\<forall>waiting. eligible = Some waiting \<longrightarrow>
        (\<exists>vs. list_all2 (rewards_validator rc si) (reward_txs (vp_ext P) (blk_transactions (bp_block p))) vs \<and>
           distinct vs \<and> set vs = waiting))"
proof -
  let ?txs = "blk_transactions (bp_block p)"
  obtain head where head: "fst (pg_block_head_header (vp_store P) cluster (bw_blocks w)) = Inr head"
    using assms(1) by (auto simp: validate_block_header_and_transactions_def)
  note checks = assms(1) [unfolded validate_block_header_and_transactions_def head]
  have fields: "head \<noteq> blk_header (bp_block p) \<Longrightarrow> validate_expected_block_fields head (bp_block p) = Inr ()"
    and hash: "validate_expected_block_hash (vp_ext P) p = Inr ()"
    using checks by (auto split: if_splits)
  obtain left where txs: "validate_transactions P w rc si ?txs eligible = Inr left"
    and left: "\<And>rest. left = Some rest \<Longrightarrow> rest = {}"
    using checks assms(2,3) by (auto simp: staking_get_def config_get_def split: if_splits option.splits)
  have "list_all (\<lambda>tx. \<exists>sender. account_address (vp_ext P) (tx_verifying_key tx) = Inr sender \<and>
      (sender = SYSTEM_REWARDS_DISTRIBUTOR \<or> validate_tx P tx sender w = Inr ())) ?txs"
    using validate_transactions_checked [OF txs] by (auto simp: list_all_iff)
  moreover have "\<exists>vs. list_all2 (rewards_validator rc si) (reward_txs (vp_ext P) ?txs) vs \<and>
      distinct vs \<and> set vs = waiting" if "eligible = Some waiting" for waiting
    using validate_transactions_rewards [OF txs [unfolded that]] left by auto
  moreover have "blk_header (bp_block p) = head \<or>
      unat (bh_block_number (blk_header (bp_block p))) = unat (bh_block_number head) + 1 \<and>
      bh_parent_hash (blk_header (bp_block p)) = bh_block_hash head \<and>
      bh_timestamp head \<le> bh_timestamp (blk_header (bp_block p)) \<and>
      usize_len ?txs = scast (bh_num_transactions (blk_header (bp_block p)))"
    using fields
    by (cases "head = blk_header (bp_block p)")
      (auto simp: validate_expected_block_fields_def Let_def checked_simps split: option.splits)
  ultimately show ?thesis
    using head hash by (auto simp: validate_expected_block_hash_def)
qed

section \<open>A concrete node\<close>

definition node_demo_ext :: ext where
  "node_demo_ext = vote_demo_ext\<lparr>x_keccak256 := (\<lambda>bs. if bs = [1] then 0xff00000000000000000000000000000000000001 else 9)\<rparr>"

definition node_demo :: validate_params where
  "node_demo =
     \<lparr>vp_store = demo_store\<lparr>se_ext := node_demo_ext\<rparr>,
      vp_tables = \<lparr>te_from_f64 = (\<lambda>x. Some (uint x, 0)), te_to_f64 = (\<lambda>x. Some (of_int (fst x))), te_encode_votes = (\<lambda>_. Some []),
                   te_decode_votes = (\<lambda>_. Some [])\<rparr>,
      vp_elf = (\<lambda>_. Inl (Failed ''no object files''))\<rparr>"

definition node_demo_caches :: runtime_caches where
  "node_demo_caches = demo_caches
     \<lparr>rt_config := Some (demo_config\<lparr>rc_validated_block_reward := 5\<rparr>),
      rt_staking := Some \<lparr>si_nodes = Map.empty, si_reward_node_map = [12 \<mapsto> 2]\<rparr>\<rparr>"

text \<open>The node holds one block with the hash 7 and the account of the sender 9.\<close>

definition node_demo_world :: block_world where
  "node_demo_world =
     \<lparr>bw_db = demo_database\<lparr>t_account := [9 \<mapsto> \<lparr>ar_account_type = Some User, ar_balance = Some 100, ar_nonce = Some 3\<rparr>]\<rparr>,
      bw_blocks = no_blocks\<lparr>t_block_header := [header_row (vp_store node_demo) (block_header_default\<lparr>bh_block_hash := 7\<rparr>)]\<rparr>,
      bw_caches = node_demo_caches\<rparr>"

text \<open>A transfer of the sender 9, and the reward of the validator 2, whose rewards go to the account 12.\<close>

definition signed_transfer :: transaction where
  "signed_transfer =
     \<lparr>tx_version = V3, tx_nonce = 4, tx_type = NativeTokenTransfer 3 30, tx_fee_limit = 10,
      tx_signature = [], tx_verifying_key = [], tx_eth_original = None\<rparr>"

definition reward_transfer :: transaction where
  "reward_transfer = signed_transfer\<lparr>tx_type := NativeTokenTransfer 12 5, tx_verifying_key := [0, 1]\<rparr>"

definition next_block :: block_payload where
  "next_block =
     \<lparr>bp_block = \<lparr>blk_header = block_header_default\<lparr>bh_block_number := 1, bh_parent_hash := 7, bh_num_transactions := 2\<rparr>,
                  blk_transactions = [signed_transfer, reward_transfer]\<rparr>,
      bp_signature = [], bp_verifying_key = [], bp_sender = 9\<rparr>"

lemmas node_demo_defs =
  node_demo_def node_demo_ext_def vote_demo_ext_def demo_store_def node_demo_world_def node_demo_caches_def
  demo_caches_def demo_database_def no_blocks_def

lemma transfer_accepted: "validate_tx node_demo signed_transfer 9 node_demo_world = Inr ()"
  by (simp add: node_demo_defs validate_tx_def signed_transfer_def tx_hash_def
      wb_list_check_def deny_get_def is_transfer_allowed_def validate_native_token_def verify_signature_def
      validate_common_native_token_tx_def verify_with_ecdsa_def pg_is_valid_account_def gets_def
      pg_get_account_def is_mint_tx_def is_mint_def require_def op_runs)

theorem accepted_transactions_are_signed_witness:
  "verify_signature node_demo_ext signed_transfer = Inr True"
  using accepted_transactions_are_signed [OF transfer_accepted]
  by (simp add: is_staking_type_def signed_transfer_def node_demo_def)

theorem staking_needs_no_signature_witness:
  "validate_tx node_demo (signed_transfer\<lparr>tx_type := StakingPoolContract 1 2, tx_signature := [1], tx_nonce := 77, tx_fee_limit := 0\<rparr>) 8
     node_demo_world = Inr ()"
proof -
  have "validate_tx node_demo (signed_transfer\<lparr>tx_type := StakingPoolContract 1 2\<rparr>) 8 node_demo_world = Inr ()"
    by (simp add: validate_tx_def node_demo_defs signed_transfer_def tx_hash_def)
  from staking_needs_no_signature [OF this, where sig = "[1]" and n = 77 and fee = 0] show ?thesis
    by (simp add: is_staking_type_def node_demo_defs signed_transfer_def tx_hash_def)
qed

lemma node_demo_head:
  "fst (pg_block_head_header (vp_store node_demo) 0 (bw_blocks node_demo_world)) =
     Inr (block_header_default\<lparr>bh_block_hash := 7\<rparr>)"
  by (simp add: pg_block_head_header_def pg_load_chain_state_def pg_load_block_header_def header_row_def
      header_of_row_def node_demo_world_def no_blocks_def block_header_default_def node_demo_def demo_store_def
      block_timestamp_to_naive_datetime_def block_type_try_from_def version_of_row_def
      epoch_of_row_def hash_column_def op_runs)

lemma next_block_accepted:
  "validate_block_header_and_transactions node_demo next_block node_demo_world 0 (Some {2}) = Inr ()"
proof -
  have sender: "account_address (vp_ext node_demo) [] = Inr 9"
    "account_address (vp_ext node_demo) [0, 1] = Inr SYSTEM_REWARDS_DISTRIBUTOR"
    by (simp_all add: account_address_def node_demo_defs signed_transfer_def reward_transfer_def
        address_of_hash_def SYSTEM_REWARDS_DISTRIBUTOR_def)
  have "validate_transactions node_demo node_demo_world (demo_config\<lparr>rc_validated_block_reward := 5\<rparr>)
      \<lparr>si_nodes = Map.empty, si_reward_node_map = [12 \<mapsto> 2]\<rparr> [signed_transfer, reward_transfer] (Some {2}) = Inr (Some {})"
    using transfer_accepted
    by (simp add: sender [unfolded SYSTEM_REWARDS_DISTRIBUTOR_def] SYSTEM_REWARDS_DISTRIBUTOR_def
        validate_reward_tx_def reward_transfer_def signed_transfer_def)
  moreover note node_demo_head
  moreover have "validate_expected_block_fields (block_header_default\<lparr>bh_block_hash := 7\<rparr>) (bp_block next_block) = Inr ()"
    "validate_expected_block_hash (vp_ext node_demo) next_block = Inr ()"
    by (simp_all add: validate_expected_block_fields_def validate_expected_block_hash_def checked_add_def Let_def
        validate_compute_block_hash_def next_block_def block_header_default_def node_demo_defs usize_len_def)
  moreover have "rt_config (bw_caches node_demo_world) = Some (demo_config\<lparr>rc_validated_block_reward := 5\<rparr>)"
    "rt_staking (bw_caches node_demo_world) = Some \<lparr>si_nodes = Map.empty, si_reward_node_map = [12 \<mapsto> 2]\<rparr>"
    "blk_transactions (bp_block next_block) = [signed_transfer, reward_transfer]"
    by (simp_all add: node_demo_world_def node_demo_caches_def next_block_def)
  ultimately show ?thesis
    by (simp add: validate_block_header_and_transactions_def staking_get_def config_get_def
        del: validate_transactions.simps)
qed

theorem validated_block_extends_chain_witness:
  "\<exists>vs. list_all2 (rewards_validator (demo_config\<lparr>rc_validated_block_reward := 5\<rparr>)
       \<lparr>si_nodes = Map.empty, si_reward_node_map = [12 \<mapsto> 2]\<rparr>)
     (reward_txs node_demo_ext [signed_transfer, reward_transfer]) vs \<and> distinct vs \<and> set vs = {2}"
proof -
  have "rt_config (bw_caches node_demo_world) = Some (demo_config\<lparr>rc_validated_block_reward := 5\<rparr>)"
    "rt_staking (bw_caches node_demo_world) = Some \<lparr>si_nodes = Map.empty, si_reward_node_map = [12 \<mapsto> 2]\<rparr>"
    by (simp_all add: node_demo_world_def node_demo_caches_def)
  from validated_block_extends_chain [OF next_block_accepted this] show ?thesis
    by (auto simp: next_block_def node_demo_def)
qed

end
