(* ===== verification/L1X_Node_Health.thy ===== *)
theory L1X_Node_Health
  imports L1X_Consensus_Store
begin

text \<open>
  The health of the nodes: the reports (\<^verbatim>\<open>system/src/node_health.rs\<close>), the measurements they are made
  of (\<^verbatim>\<open>l1x_htm/src/realtime_checks.rs\<close>) and their table (\<^verbatim>\<open>l1x_node_health/src/state_pg.rs\<close>).

  Floating point arithmetic is the record \<open>health_ext\<close>: the share of a count in percent, the mean of
  two numbers, the order in which a slice of floating point numbers is sorted, and the anomaly score
  of the detector. The numeric columns of the table hold every 64-bit number, so a row is the report.

  The theory shows that the median of the response times lies between them as long as the sum of two of
  them fits in 64 bits, that a peer without a single answer is not mistaken for a fast one, and which
  reports the upsert of the table loses.
\<close>

section \<open>Reports\<close>

record node_health =
  nh_measured_peer_id :: bytes
  nh_peer_id :: bytes
  nh_epoch :: epoch
  nh_joined_epoch :: epoch
  nh_uptime_percentage :: f64
  nh_response_time_ms :: "64 word"
  nh_transaction_count :: "64 word"
  nh_block_proposal_count :: "64 word"
  nh_anomaly_score :: f64
  nh_node_health_version :: "32 word"

record node_health_payload =
  nhp_node_health :: node_health
  nhp_signature :: bytes
  nhp_verifying_key :: bytes
  nhp_sender :: address

record health_ext =
  hx_percent :: "nat \<Rightarrow> nat \<Rightarrow> f64"
  hx_mean :: "f64 \<Rightarrow> f64 \<Rightarrow> f64"
  hx_sort :: "f64 list \<Rightarrow> f64 list"
  hx_anomaly_score :: f64

definition HEALTH_VERSION :: "32 word" where
  "HEALTH_VERSION = 1"

definition INVALID_RESPONSE_TIME :: "64 word" where
  "INVALID_RESPONSE_TIME = - 1"

definition node_health_new ::
  "bytes \<Rightarrow> bytes \<Rightarrow> epoch \<Rightarrow> epoch \<Rightarrow> f64 \<Rightarrow> 64 word \<Rightarrow> node_health" where
  "node_health_new measured peer e joined uptime response =
     \<lparr>nh_measured_peer_id = measured, nh_peer_id = peer, nh_epoch = e, nh_joined_epoch = joined,
      nh_uptime_percentage = uptime, nh_response_time_ms = response, nh_transaction_count = 0,
      nh_block_proposal_count = 0, nh_anomaly_score = 0, nh_node_health_version = HEALTH_VERSION\<rparr>"

definition update_incrementally :: "block \<Rightarrow> node_health \<Rightarrow> node_health" where
  "update_incrementally blk h =
     h\<lparr>nh_transaction_count := nh_transaction_count h + of_nat (length (blk_transactions blk)),
       nh_block_proposal_count := nh_block_proposal_count h + 1\<rparr>"

definition update_anomaly_score :: "f64 \<Rightarrow> node_health \<Rightarrow> node_health" where
  "update_anomaly_score score h = h\<lparr>nh_anomaly_score := score\<rparr>"

section \<open>Aggregation\<close>

text \<open>\<open>median\<close> is generic in the code; it runs on floating point numbers and on 64-bit integers.\<close>

definition median_by :: "('a list \<Rightarrow> 'a list) \<Rightarrow> ('a \<Rightarrow> 'a \<Rightarrow> 'a) \<Rightarrow> 'a \<Rightarrow> 'a list \<Rightarrow> 'a" where
  "median_by order mean zero values =
     (if values = [] then zero
      else let vs = order values; n = length vs in
           if even n then mean (vs ! (n div 2 - 1)) (vs ! (n div 2)) else vs ! (n div 2))"

definition median_u64 :: "64 word list \<Rightarrow> 64 word" where
  "median_u64 = median_by sort (\<lambda>a b. (a + b) div 2) 0"

definition median_f64 :: "health_ext \<Rightarrow> f64 list \<Rightarrow> f64" where
  "median_f64 H = median_by (hx_sort H) (hx_mean H) 0"

definition node_health_default :: node_health where
  "node_health_default =
     \<lparr>nh_measured_peer_id = [], nh_peer_id = [], nh_epoch = 0, nh_joined_epoch = 0,
      nh_uptime_percentage = 0, nh_response_time_ms = 0, nh_transaction_count = 0,
      nh_block_proposal_count = 0, nh_anomaly_score = 0, nh_node_health_version = 0\<rparr>"

definition aggregate :: "health_ext \<Rightarrow> node_health list \<Rightarrow> node_health option" where
  "aggregate H reports =
     (case reports of
        [] \<Rightarrow> None
      | first # _ \<Rightarrow> Some (node_health_default
          \<lparr>nh_measured_peer_id := nh_measured_peer_id first,
           nh_peer_id := nh_measured_peer_id first,
           nh_epoch := nh_epoch first,
           nh_uptime_percentage := median_f64 H (map nh_uptime_percentage reports),
           nh_response_time_ms := median_u64 (map nh_response_time_ms reports),
           nh_transaction_count := fold max (map nh_transaction_count reports) 0,
           nh_block_proposal_count := fold max (map nh_block_proposal_count reports) 0,
           nh_anomaly_score := median_f64 H (map nh_anomaly_score reports)\<rparr>))"

definition aggregate_network_health ::
  "health_ext \<Rightarrow> (bytes \<rightharpoonup> node_health list) \<Rightarrow> (bytes \<rightharpoonup> node_health)" where
  "aggregate_network_health H reports = (\<lambda>peer. Option.bind (reports peer) (aggregate H))"

section \<open>Measurements\<close>

record real_time_checks =
  rtc_online_checks :: "bytes \<rightharpoonup> (bool \<times> 64 word) list"
  rtc_node_healths :: "bytes \<rightharpoonup> node_health"
  rtc_eligible_peers :: "epoch \<times> bytes list"

definition real_time_checks_new :: real_time_checks where
  "real_time_checks_new =
     \<lparr>rtc_online_checks = Map.empty, rtc_node_healths = Map.empty, rtc_eligible_peers = (0, [])\<rparr>"

text \<open>\<open>map_push k v m\<close> is \<^verbatim>\<open>entry(k).or_insert_with(Vec::new).push(v)\<close>.\<close>

definition map_push :: "'k \<Rightarrow> 'v \<Rightarrow> ('k \<rightharpoonup> 'v list) \<Rightarrow> ('k \<rightharpoonup> 'v list)" where
  "map_push k v m = m(k \<mapsto> (case m k of Some vs \<Rightarrow> vs | None \<Rightarrow> []) @ [v])"

definition add_check :: "bytes \<Rightarrow> bool \<Rightarrow> 64 word \<Rightarrow> real_time_checks \<Rightarrow> real_time_checks" where
  "add_check peer online response c =
     c\<lparr>rtc_online_checks := map_push peer (online, response) (rtc_online_checks c)\<rparr>"

definition update_eligible_peers :: "epoch \<Rightarrow> bytes list \<Rightarrow> real_time_checks \<Rightarrow> real_time_checks" where
  "update_eligible_peers e peers c =
     (if e = 0 \<and> snd (rtc_eligible_peers c) = [] \<or> fst (rtc_eligible_peers c) < e
      then c\<lparr>rtc_eligible_peers := (e, peers)\<rparr> else c)"

definition average_response_time :: "(bool \<times> 64 word) list \<Rightarrow> 64 word" where
  "average_response_time checks =
     (let valid = filter (\<lambda>t. t \<noteq> INVALID_RESPONSE_TIME) (map snd checks) in
      if valid \<noteq> [] then sum_list valid div of_nat (length valid) else INVALID_RESPONSE_TIME)"

definition create_health_report ::
  "health_ext \<Rightarrow> bytes \<Rightarrow> bytes \<Rightarrow> epoch \<Rightarrow> epoch \<Rightarrow> (real_time_checks, error, node_health) op" where
  "create_health_report H measured measuring e joined = (\<lambda>c.
     case rtc_online_checks c measured of
       None \<Rightarrow> (Inl (Failed ''No online checks available for peer''), c)
     | Some [] \<Rightarrow> (Inl (Failed ''No online checks available for peer''), c)
     | Some checks \<Rightarrow>
        let report = node_health_new measured measuring e joined
              (hx_percent H (length (filter fst checks)) (length checks)) (average_response_time checks);
            counted = (case rtc_node_healths c measured of
                None \<Rightarrow> report
              | Some old \<Rightarrow> report\<lparr>nh_transaction_count := nh_transaction_count old,
                                  nh_block_proposal_count := nh_block_proposal_count old\<rparr>);
            scored = update_anomaly_score (hx_anomaly_score H) counted in
        (Inr scored, c\<lparr>rtc_node_healths := (rtc_node_healths c)(measured \<mapsto> scored)\<rparr>))"

definition clear_checks :: "real_time_checks \<Rightarrow> real_time_checks" where
  "clear_checks c = c\<lparr>rtc_online_checks := Map.empty\<rparr>"

definition update_node_health_incrementally ::
  "health_ext \<Rightarrow> bytes \<Rightarrow> bytes \<Rightarrow> epoch \<Rightarrow> block \<Rightarrow> real_time_checks \<Rightarrow> real_time_checks" where
  "update_node_health_incrementally H measured peer joined blk c =
     c\<lparr>rtc_node_healths := (rtc_node_healths c)(measured \<mapsto> update_incrementally blk
         (case rtc_node_healths c measured of
            Some h \<Rightarrow> h
          | None \<Rightarrow> node_health_new measured peer (bh_epoch (blk_header blk)) joined (hx_percent H 1 1) 0))\<rparr>"

text \<open>
  Before the reports are made, every peer with fewer checks than the best but one is filled up with
  failed checks.
\<close>

definition pad_checks :: "nat \<Rightarrow> (bool \<times> 64 word) list \<Rightarrow> (bool \<times> 64 word) list" where
  "pad_checks target checks =
     (if length checks < target then checks @ replicate (target - length checks) (False, INVALID_RESPONSE_TIME)
      else checks)"

section \<open>The cache of reports\<close>

text \<open>Times are the nanoseconds of a monotonic clock.\<close>

record health_cache =
  hc_cache :: "bytes \<rightharpoonup> node_health \<times> nat"
  hc_ttl :: nat

definition cache_update :: "nat \<Rightarrow> bytes \<Rightarrow> node_health \<Rightarrow> health_cache \<Rightarrow> health_cache" where
  "cache_update now peer h c = c\<lparr>hc_cache := (hc_cache c)(peer \<mapsto> (h, now))\<rparr>"

definition cache_get :: "nat \<Rightarrow> bytes \<Rightarrow> health_cache \<Rightarrow> node_health option" where
  "cache_get now peer c =
     Option.bind (hc_cache c peer) (\<lambda>(h, updated). if now - updated < hc_ttl c then Some h else None)"

definition cache_remove_stale :: "nat \<Rightarrow> health_cache \<Rightarrow> health_cache" where
  "cache_remove_stale now c =
     c\<lparr>hc_cache := (\<lambda>peer. Option.bind (hc_cache c peer)
         (\<lambda>(h, updated). if now - updated < hc_ttl c then Some (h, updated) else None))\<rparr>"

section \<open>The table\<close>

type_synonym 'a health_op = "(node_health list, error, 'a) op"

definition node_health_key :: "node_health \<Rightarrow> bytes \<times> bytes \<times> epoch" where
  "node_health_key h = (nh_measured_peer_id h, nh_peer_id h, nh_epoch h)"

definition pg_create_node_health :: "node_health \<Rightarrow> unit health_op" where
  "pg_create_node_health h = (\<lambda>rows.
     if node_health_key h \<in> node_health_key ` set rows
     then (Inl (DbError ''Failed to create node health''), rows)
     else (Inr (), rows @ [h]))"

definition pg_update_node_health :: "node_health \<Rightarrow> unit health_op" where
  "pg_update_node_health h = modify (update_rows
     (\<lambda>r. nh_measured_peer_id r = nh_measured_peer_id h \<and> nh_epoch r = nh_epoch h)
     (\<lambda>r. r\<lparr>nh_uptime_percentage := nh_uptime_percentage h, nh_response_time_ms := nh_response_time_ms h,
           nh_transaction_count := nh_transaction_count h,
           nh_block_proposal_count := nh_block_proposal_count h,
           nh_anomaly_score := nh_anomaly_score h,
           nh_node_health_version := nh_node_health_version h\<rparr>))"

definition pg_load_node_health :: "bytes \<Rightarrow> epoch \<Rightarrow> node_health option health_op" where
  "pg_load_node_health peer e = gets (find (\<lambda>r. nh_peer_id r = peer \<and> nh_epoch r = e))"

definition pg_load_node_healths :: "epoch \<Rightarrow> node_health list health_op" where
  "pg_load_node_healths e = gets (filter (\<lambda>r. nh_epoch r = e))"

definition pg_upsert_node_health :: "node_health \<Rightarrow> unit health_op" where
  "pg_upsert_node_health h =
     and_then (gets (find (\<lambda>r. nh_epoch r = nh_epoch h))) (\<lambda>existing.
       if existing \<noteq> None then pg_update_node_health h else pg_create_node_health h)"

section \<open>Properties\<close>

lemma word_mean_between:
  fixes a b :: "64 word"
  assumes "a \<le> b" "unat a < 2 ^ 63" "unat b < 2 ^ 63"
  shows "a \<le> (a + b) div 2 \<and> (a + b) div 2 \<le> b"
proof -
  have "unat (a + b) = unat a + unat b"
    using assms by (subst unat_add_lem [THEN iffD1]) auto
  then have "unat ((a + b) div 2) = (unat a + unat b) div 2"
    by (simp add: unat_div_distrib)
  moreover have "unat a \<le> unat b" using assms(1) by (simp add: word_le_nat_alt)
  ultimately show ?thesis by (auto simp: word_le_nat_alt)
qed

lemma filter_le_nth:
  fixes vs :: "'a :: linorder list"
  assumes "i < length vs" and "sort vs ! i \<le> m"
  shows "Suc i \<le> length (filter (\<lambda>v. v \<le> m) vs)"
proof -
  have "take (Suc i) (sort vs) = filter (\<lambda>v. v \<le> m) (take (Suc i) (sort vs))"
  proof (rule filter_True [symmetric], rule ballI)
    fix v assume "v \<in> set (take (Suc i) (sort vs))"
    then obtain k where "k \<le> i" "v = sort vs ! k" using assms(1) by (auto simp: in_set_conv_nth less_Suc_eq_le)
    with assms show "v \<le> m" using sorted_nth_mono [of "sort vs" k i] by auto
  qed
  then have "length (filter (\<lambda>v. v \<le> m) (take (Suc i) (sort vs))) = Suc i"
    using assms(1) by (metis length_take length_sort min.absorb2 Suc_leI)
  then have "Suc i \<le> length (filter (\<lambda>v. v \<le> m) (sort vs))"
    by (metis append_take_drop_id filter_append length_append le_add1)
  then show ?thesis by (simp add: filter_sort)
qed

lemma filter_ge_nth:
  fixes vs :: "'a :: linorder list"
  assumes "i < length vs" and "m \<le> sort vs ! i"
  shows "length vs - i \<le> length (filter (\<lambda>v. m \<le> v) vs)"
proof -
  have "filter (\<lambda>v. m \<le> v) (drop i (sort vs)) = drop i (sort vs)"
  proof (rule filter_True, rule ballI)
    fix v assume "v \<in> set (drop i (sort vs))"
    then obtain k where "k < length vs - i" "v = sort vs ! (i + k)" by (auto simp: in_set_conv_nth)
    with assms show "m \<le> v" using sorted_nth_mono [of "sort vs" i "i + k"] by (auto simp: less_diff_conv add.commute)
  qed
  then have "length (filter (\<lambda>v. m \<le> v) (drop i (sort vs))) = length vs - i" by simp
  then have "length vs - i \<le> length (filter (\<lambda>v. m \<le> v) (sort vs))"
    by (metis append_take_drop_id filter_append length_append le_add2)
  then show ?thesis by (simp add: filter_sort)
qed

text \<open>
  C36: The median of the reported response times splits the reports: at least half of them are at
  most the median and at least half are at least the median, as long as every report is below half of the
  range of 64 bits. With an odd number of reports it is one of them.
\<close>

theorem median_splits_reports:
  assumes "vs \<noteq> []" and "\<forall>v\<in>set vs. unat v < 2 ^ 63"
  shows "length vs \<le> 2 * length (filter (\<lambda>v. v \<le> median_u64 vs) vs) \<and>
         length vs \<le> 2 * length (filter (\<lambda>v. median_u64 vs \<le> v) vs) \<and>
         (odd (length vs) \<longrightarrow> median_u64 vs \<in> set vs)"
proof (cases "even (length vs)")
  case True
  let ?i = "length vs div 2 - 1" let ?j = "length vs div 2"
  have "0 < length vs" using assms(1) by simp
  with True have pos: "0 < ?j" by presburger
  then have len: "?i < length vs" "?j < length vs" "?i \<le> ?j" by linarith+
  have "sort vs ! ?i \<le> sort vs ! ?j" using len by (intro sorted_nth_mono) auto
  moreover have "unat (sort vs ! ?i) < 2 ^ 63" "unat (sort vs ! ?j) < 2 ^ 63"
    using assms(2) len nth_mem [of ?i "sort vs"] nth_mem [of ?j "sort vs"] by auto
  ultimately have "sort vs ! ?i \<le> median_u64 vs \<and> median_u64 vs \<le> sort vs ! ?j"
    using True assms(1) word_mean_between by (simp add: median_u64_def median_by_def Let_def)
  with filter_le_nth [OF len(1)] filter_ge_nth [OF len(2)] True pos show ?thesis by fastforce
next
  case False
  let ?i = "length vs div 2"
  have i: "?i < length vs" using assms(1) by simp
  have m: "median_u64 vs = sort vs ! ?i"
    using False assms(1) by (simp add: median_u64_def median_by_def Let_def)
  have "median_u64 vs \<in> set vs" unfolding m using i nth_mem [of ?i "sort vs"] by simp
  moreover have "Suc ?i \<le> length (filter (\<lambda>v. v \<le> median_u64 vs) vs)"
    "length vs - ?i \<le> length (filter (\<lambda>v. median_u64 vs \<le> v) vs)"
    by (simp_all add: filter_le_nth [OF i] filter_ge_nth [OF i] m)
  ultimately show ?thesis by linarith
qed

theorem median_splits_reports_witness:
  "median_u64 [9, 3, 5] \<in> set [9, 3, 5] \<and>
   2 \<le> length (filter (\<lambda>v. v \<le> median_u64 [9, 3, 5]) [9, 3, 5 :: 64 word])"
  using median_splits_reports [of "[9, 3, 5]"] by simp

text \<open>
  A peer that one node measured and another could not reach is reported as faster than it was
  measured: the time that stands for no answer is the largest number, and its sum with the measured
  time wraps around.
\<close>

theorem unreachable_peer_looks_faster:
  assumes "0 < t"
  shows "median_u64 [t, INVALID_RESPONSE_TIME] = (t - 1) div 2 \<and> median_u64 [t, INVALID_RESPONSE_TIME] < t"
proof -
  have "t \<le> - 1" by simp
  then have "median_u64 [t, INVALID_RESPONSE_TIME] = (t - 1) div 2"
    by (simp add: median_u64_def median_by_def INVALID_RESPONSE_TIME_def Let_def)
  moreover have "(t - 1) div 2 < t"
  proof -
    have "unat ((t - 1) div 2) = (unat t - 1) div 2"
      using assms by (simp add: unat_div_distrib unat_minus_one unat_gt_0)
    moreover have "0 < unat t" using assms by (simp add: unat_gt_0)
    ultimately show ?thesis by (simp add: word_less_nat_alt)
  qed
  ultimately show ?thesis by simp
qed

theorem unreachable_peer_looks_faster_witness: "median_u64 [80, - 1] < 80"
  using unreachable_peer_looks_faster [of 80] by (simp add: INVALID_RESPONSE_TIME_def)

text \<open>
  The upsert of a report looks for any report of its epoch but updates only those on the same
  peer: once an epoch has a report, the reports on every other peer are lost, and the caller is told
  that they are stored.
\<close>

theorem upsert_loses_reports:
  assumes "r \<in> set rows" and "nh_epoch r = nh_epoch h"
    and "list_all (\<lambda>r. nh_measured_peer_id r \<noteq> nh_measured_peer_id h) rows"
  shows "pg_upsert_node_health h rows = (Inr (), rows)"
proof -
  have "find (\<lambda>r. nh_epoch r = nh_epoch h) rows \<noteq> None"
    using assms(1,2) by (auto simp: find_None_iff)
  moreover have "update_rows (\<lambda>r. nh_measured_peer_id r = nh_measured_peer_id h \<and> nh_epoch r = nh_epoch h) f rows = rows" for f
    using assms(3) by (auto simp: update_rows_def list_all_iff intro: map_idI)
  ultimately show ?thesis
    by (simp add: pg_upsert_node_health_def pg_update_node_health_def gets_def modify_def and_then_def)
qed

theorem upsert_loses_reports_witness:
  "pg_upsert_node_health (node_health_default\<lparr>nh_measured_peer_id := [1]\<rparr>) [node_health_default] =
     (Inr (), [node_health_default])"
  by (rule upsert_loses_reports [of node_health_default]) (simp_all add: node_health_default_def)

lemma average_of_no_answers:
  "average_response_time checks = INVALID_RESPONSE_TIME"
  if "list_all (\<lambda>(_, t). t = INVALID_RESPONSE_TIME) checks"
proof -
  from that have "filter (\<lambda>t. t \<noteq> INVALID_RESPONSE_TIME) (map snd checks) = []"
    by (auto simp: filter_empty_conv list_all_iff)
  then show ?thesis by (simp add: average_response_time_def)
qed

text \<open>Removing the stale entries of the cache is not visible to its readers.\<close>

lemma remove_stale_invisible: "now \<le> later \<Longrightarrow> cache_get later peer (cache_remove_stale now c) = cache_get later peer c"
  by (auto simp: cache_get_def cache_remove_stale_def split: Option.bind_splits)

end
