(* ===== verification/L1X_Epoch.thy ===== *)
theory L1X_Epoch
  imports L1X_Validate L1X_Node_Health
begin

text \<open>
  The creation of blocks and the division of the chain into epochs (\<^verbatim>\<open>block/src/block_manager.rs\<close>), the
  selection of the validators of an epoch (\<^verbatim>\<open>validator/src/validator_manager.rs\<close>) and of its block
  proposer (\<^verbatim>\<open>block_proposer/src/block_proposer_manager.rs\<close>, and the function that joins them at the end
  of \<^verbatim>\<open>consensus/src/consensus.rs\<close>).

  The comparison of floating point numbers is that of IEEE 754 on their bit patterns. The score of a
  node is a floating point computation and a parameter; so are the random generator behind the
  shuffle and the orders in which hash maps and sets are enumerated (\<open>select_ext\<close>).

  The theory shows that a created block passes the checks of \<open>L1X_Validate\<close>, that the nonces in it are
  consecutive, where the epochs end, and who can be selected.
\<close>

section \<open>Creation of blocks\<close>

text \<open>
  The transactions of one key, sorted by nonce, are taken as long as the nonces are consecutive.
\<close>

fun take_consecutive :: "nonce \<Rightarrow> transaction list \<Rightarrow> transaction list" where
  "take_consecutive n [] = []"
| "take_consecutive n (tx # txs) =
     (if tx_nonce tx = n + 1 then tx # take_consecutive (tx_nonce tx) txs else [])"

definition txs_of_key :: "bytes \<Rightarrow> transaction list \<Rightarrow> transaction list" where
  "txs_of_key key txs = sort_key tx_nonce (filter (\<lambda>tx. tx_verifying_key tx = key) txs)"

fun validate_nonce_keys :: "ext \<Rightarrow> transaction list \<Rightarrow> database \<Rightarrow> bytes list \<Rightarrow> error + transaction list" where
  "validate_nonce_keys X txs d [] = Inr []"
| "validate_nonce_keys X txs d (key # keys) =
     res_then (account_address X key) (\<lambda>a.
     res_then (fst (pg_get_nonce a d)) (\<lambda>n.
     res_then (validate_nonce_keys X txs d keys) (\<lambda>rest.
       Inr (take_consecutive n (txs_of_key key txs) @ rest))))"

text \<open>\<open>order\<close> enumerates the keys of the hash map by which the transactions are grouped.\<close>

definition validate_nonce ::
  "ext \<Rightarrow> (bytes list \<Rightarrow> bytes list) \<Rightarrow> transaction list \<Rightarrow> database \<Rightarrow> error + transaction list" where
  "validate_nonce X order txs d =
     validate_nonce_keys X txs d (order (remdups (map tx_verifying_key txs)))"

definition calculate_current_epoch :: "block_number \<Rightarrow> epoch" where
  "calculate_current_epoch n = (if n = 0 then 0 else ucast (n div SLOTS_PER_EPOCH))"

definition get_epoch_start_slot :: "epoch \<Rightarrow> block_number" where
  "get_epoch_start_slot e = ucast e * SLOTS_PER_EPOCH"

definition slots_elapsed_in_epoch :: "block_number \<Rightarrow> block_number" where
  "slots_elapsed_in_epoch n = n - get_epoch_start_slot (calculate_current_epoch n)"

definition get_epoch_duration :: "64 word \<Rightarrow> 64 word" where
  "get_epoch_duration block_time = ucast (SLOTS_PER_EPOCH * ucast block_time)"

definition has_epoch_ended :: "block_number \<Rightarrow> bool" where
  "has_epoch_ended n = (calculate_current_epoch n < calculate_current_epoch (n + 1))"

definition is_approaching_epoch_end :: "block_number \<Rightarrow> 32 word \<Rightarrow> error + bool" where
  "is_approaching_epoch_end n slots_remaining =
     (if slots_remaining = 0 then Inl Panic
      else Inr (SLOTS_PER_EPOCH - slots_elapsed_in_epoch n \<le> SLOTS_PER_EPOCH div ucast slots_remaining))"

definition create_block_internal ::
  "ext \<Rightarrow> block_header \<Rightarrow> transaction list \<Rightarrow> address \<Rightarrow> block_timestamp \<Rightarrow> epoch \<Rightarrow> block_type \<Rightarrow> error + block" where
  "create_block_internal X head txs cluster now e ty =
     (let header = \<lparr>bh_block_number = bh_block_number head + 1, bh_block_hash = 0,
                    bh_parent_hash = bh_block_hash head, bh_block_type = ty, bh_cluster_address = cluster,
                    bh_timestamp = now,
                    bh_num_transactions = (if length txs < 2 ^ 31 then of_nat (length txs) else 2 ^ 31 - 1),
                    bh_epoch = e, bh_block_version = BLOCK_VERSION, bh_state_hash = 0\<rparr>;
          blk = \<lparr>blk_header = header, blk_transactions = txs\<rparr> in
      case x_bincode_block X (block_sign_payload_from_block blk) of
        None \<Rightarrow> Inl (Failed ''Error converting new_block_sign_payload to bytes'')
      | Some bs \<Rightarrow> Inr (blk\<lparr>blk_header := header\<lparr>bh_block_hash := x_sha256 X bs\<rparr>\<rparr>))"

definition create_block ::
  "store_ext \<Rightarrow> (bytes list \<Rightarrow> bytes list) \<Rightarrow> block_timestamp \<Rightarrow> transaction list \<Rightarrow> address \<Rightarrow>
   block_type \<Rightarrow> block_world \<Rightarrow> error + block" where
  "create_block S order now txs cluster ty w =
     res_then (validate_nonce (se_ext S) order txs (bw_db w)) (\<lambda>valid.
       let head = (case fst (pg_block_head_header S cluster (bw_blocks w)) of
                     Inr h \<Rightarrow> h | Inl _ \<Rightarrow> block_header_default) in
       create_block_internal (se_ext S) head valid cluster now
         (calculate_current_epoch (bh_block_number head + 1)) ty)"

definition create_regular_block ::
  "store_ext \<Rightarrow> (bytes list \<Rightarrow> bytes list) \<Rightarrow> block_timestamp \<Rightarrow> transaction list \<Rightarrow> address \<Rightarrow>
   block_world \<Rightarrow> error + block" where
  "create_regular_block S order now txs cluster w = create_block S order now txs cluster L1XTokenBlock w"

definition create_system_block ::
  "store_ext \<Rightarrow> (bytes list \<Rightarrow> bytes list) \<Rightarrow> block_timestamp \<Rightarrow> transaction list \<Rightarrow> address \<Rightarrow>
   block_world \<Rightarrow> error + block" where
  "create_system_block S order now txs cluster w = create_block S order now txs cluster SystemBlock w"

section \<open>Floating point comparison\<close>

definition f64_is_nan :: "f64 \<Rightarrow> bool" where
  "f64_is_nan x = (0x7FF0000000000000 < unat x mod 2 ^ 63)"

definition f64_key :: "f64 \<Rightarrow> int" where
  "f64_key x = (if 2 ^ 63 \<le> unat x then - int (unat x - 2 ^ 63) else int (unat x))"

definition f64_less :: "f64 \<Rightarrow> f64 \<Rightarrow> bool" where
  "f64_less a b = (\<not> f64_is_nan a \<and> \<not> f64_is_nan b \<and> f64_key a < f64_key b)"

section \<open>Selection of the validators\<close>

text \<open>
  \<open>sx_score\<close> is the score of a node from the configuration, its pool, the age of its stake in days and
  its health. \<open>sx_shuffle seed vs n\<close> is the shuffled part that a partial shuffle of \<open>n\<close> elements returns.
\<close>

record select_ext =
  sx_score :: "runtime_config \<Rightarrow> node_pool_info \<Rightarrow> 64 word \<Rightarrow> node_health \<Rightarrow> error + f64"
  sx_nodes :: "(address \<rightharpoonup> node_pool_info) \<Rightarrow> (address \<times> node_pool_info) list"
  sx_shuffle :: "64 word \<Rightarrow> validator list \<Rightarrow> nat \<Rightarrow> validator list"

record selection_world =
  sw_chain :: block_world
  sw_tables :: consensus_tables
  sw_health :: "node_health list"

definition DEFAULT_MAX_VALIDATORS :: "64 word" where
  "DEFAULT_MAX_VALIDATORS = 2"

definition calculate_seed :: "ext \<Rightarrow> block_hash \<Rightarrow> epoch \<Rightarrow> 64 word" where
  "calculate_seed X h e = ucast (drop_bit 192 (x_sha256 X (be_bytes 32 h @ be_bytes 8 e)))"

definition pool_stake_age :: "node_pool_info \<Rightarrow> block_header \<Rightarrow> 64 word" where
  "pool_stake_age info head =
     (case npi_min_pool_balance_from info of
        None \<Rightarrow> 0
      | Some since \<Rightarrow>
         let secs = ucast (since div 1000) in
         if secs \<le> bh_timestamp head then bh_timestamp head - secs else 0)"

definition calculate_xscore ::
  "select_ext \<Rightarrow> runtime_config \<Rightarrow> staking_info \<Rightarrow> address \<Rightarrow> block_header \<Rightarrow> node_health \<Rightarrow> error + f64" where
  "calculate_xscore Z rc si a head h =
     (case si_nodes si a of
        None \<Rightarrow> Inl (Failed ''No staking info'')
      | Some info \<Rightarrow> sx_score Z rc info (pool_stake_age info head div 86400) h)"

fun eligible_validators ::
  "select_ext \<Rightarrow> table_ext \<Rightarrow> runtime_config \<Rightarrow> staking_info \<Rightarrow> block_header \<Rightarrow> epoch \<Rightarrow> selection_world \<Rightarrow>
   (address \<times> node_pool_info) list \<Rightarrow> error + validator list" where
  "eligible_validators Z E rc si head e w [] = Inr []"
| "eligible_validators Z E rc si head e w ((a, info) # nodes) =
     (let skip = eligible_validators Z E rc si head e w nodes in
      if a \<in> rc_org_nodes rc \<or> npi_staked_balance info < npi_min_pool_balance info then skip
      else case fst (pg_load_node_info a (sw_tables w)) of
        Inl _ \<Rightarrow> skip
      | Inr ni \<Rightarrow>
         if ni_peer_id ni = [] then skip
         else res_then (fst (pg_load_node_health (ni_peer_id ni)
                (calculate_current_epoch (bh_block_number head)) (sw_health w))) (\<lambda>health.
           case health of
             None \<Rightarrow> skip
           | Some h \<Rightarrow>
               res_then (calculate_xscore Z rc si a head h) (\<lambda>x.
               res_then skip (\<lambda>vs.
                 Inr (\<lparr>val_address = a, val_cluster_address = bh_cluster_address head, val_epoch = e,
                       val_stake = npi_staked_balance info, val_xscore = x\<rparr> # vs)))))"

definition is_listed :: "address set option \<Rightarrow> address set option \<Rightarrow> address \<Rightarrow> bool" where
  "is_listed whitelist blacklist a =
     (case whitelist of
        Some allowed \<Rightarrow> a \<in> allowed
      | None \<Rightarrow> (case blacklist of Some denied \<Rightarrow> a \<notin> denied | None \<Rightarrow> True))"

definition fallback_validator :: "block_header \<Rightarrow> epoch \<Rightarrow> address \<Rightarrow> validator" where
  "fallback_validator head e a =
     \<lparr>val_address = a, val_cluster_address = bh_cluster_address head, val_epoch = e, val_stake = 0,
      val_xscore = 0x3FF0000000000000\<rparr>"

definition max_validators :: "runtime_config \<Rightarrow> nat" where
  "max_validators rc = unat (max (rc_max_validators rc) DEFAULT_MAX_VALIDATORS)"

definition listed_validators :: "runtime_config \<Rightarrow> validator list \<Rightarrow> validator list" where
  "listed_validators rc eligible =
     sort_key val_address
       (filter (\<lambda>v. is_listed (rc_whitelisted_nodes rc) (rc_blacklisted_nodes rc) (val_address v))
         (filter (\<lambda>v. f64_less (xs_xscore_threshold (rc_xscore rc)) (val_xscore v)) eligible))"

definition fallback_nodes :: "runtime_config \<Rightarrow> nat \<Rightarrow> address list" where
  "fallback_nodes rc n =
     (if n < max_validators rc then take (max_validators rc - n) (sorted_list_of_set (rc_org_nodes rc)) else [])"

definition select_validators_for_epoch ::
  "select_ext \<Rightarrow> table_ext \<Rightarrow> ext \<Rightarrow> block_header \<Rightarrow> epoch \<Rightarrow> selection_world \<Rightarrow> error + validator list" where
  "select_validators_for_epoch Z E X head e w =
     res_then (fst (config_get (bw_caches (sw_chain w)))) (\<lambda>rc.
     res_then (fst (staking_get (bw_caches (sw_chain w)))) (\<lambda>si.
     res_then (eligible_validators Z E rc si head e w (sx_nodes Z (si_nodes si))) (\<lambda>eligible.
       let chosen = listed_validators rc eligible;
           orgs = fallback_nodes rc (length chosen) in
       Inr (sx_shuffle Z (calculate_seed X (bh_block_hash head) e)
              (chosen @ map (fallback_validator head e) orgs) (max_validators rc)))))"

section \<open>Selection of the block proposer\<close>

definition calculate_proposer_index :: "64 word \<Rightarrow> nat \<Rightarrow> error + nat" where
  "calculate_proposer_index seed n =
     (if n = 0 then Inl Panic else Inr (unat (seed mod of_nat n)))"

definition select_block_proposers ::
  "ext \<Rightarrow> epoch \<Rightarrow> block_header \<Rightarrow> validator list \<Rightarrow> address tables_op" where
  "select_block_proposers X e head vs = (\<lambda>d.
     case calculate_proposer_index (calculate_seed X (bh_block_hash head) e) (length vs) of
       Inl err \<Rightarrow> (Inl err, d)
     | Inr i \<Rightarrow>
        let a = val_address (vs ! i) in
        and_then (pg_store_block_proposers [(bh_cluster_address head, [(e, a)])]) (\<lambda>_. ok a) d)"

definition get_block_proposer_for_epoch :: "address \<Rightarrow> epoch \<Rightarrow> block_proposer tables_op" where
  "get_block_proposer_for_epoch c e = (\<lambda>d.
     case pg_load_block_proposer c e d of
       (Inr (Some p), d') \<Rightarrow> (Inr p, d')
     | (Inr None, d') \<Rightarrow> (Inl (Failed ''No block proposer found''), d')
     | (Inl err, d') \<Rightarrow> (Inl (FailedWith ''Failed to load proposer'' err), d'))"

definition eligible_proposers :: "runtime_config \<Rightarrow> validator list \<Rightarrow> validator list" where
  "eligible_proposers rc vs =
     (case rc_whitelisted_block_proposers rc of
        Some allowed \<Rightarrow> filter (\<lambda>v. val_address v \<in> allowed) vs
      | None \<Rightarrow>
         (case rc_blacklisted_block_proposers rc of
            Some denied \<Rightarrow> filter (\<lambda>v. val_address v \<notin> denied) vs
          | None \<Rightarrow> []))"

definition select_and_store_validators_and_proposer ::
  "select_ext \<Rightarrow> table_ext \<Rightarrow> ext \<Rightarrow> epoch \<Rightarrow> block_header \<Rightarrow> (selection_world, error, unit) op" where
  "select_and_store_validators_and_proposer Z E X e head = (\<lambda>w.
     case res_then (fst (config_get (bw_caches (sw_chain w)))) (\<lambda>rc.
          res_then (select_validators_for_epoch Z E X head e w) (\<lambda>vs. Inr (rc, vs))) of
       Inl err \<Rightarrow> (Inl err, w)
     | Inr (rc, vs) \<Rightarrow>
        (case and_then (pg_batch_store_validators E vs)
                (\<lambda>_. select_block_proposers X e head (eligible_proposers rc vs)) (sw_tables w) of
           (r, d) \<Rightarrow> (case r of Inl err \<Rightarrow> Inl err | Inr _ \<Rightarrow> Inr (), w\<lparr>sw_tables := d\<rparr>)))"

section \<open>Created blocks\<close>

lemma checked_succ: "n \<noteq> - 1 \<Longrightarrow> checked_add n 1 = Some (n + 1 :: 128 word)"
proof -
  assume "n \<noteq> - 1"
  have "unat n + 1 < 2 ^ 128"
  proof (rule ccontr)
    assume "\<not> unat n + 1 < 2 ^ 128"
    then have "unat n = unat (- 1 :: 128 word)"
      using unat_bounded [of n] by (simp add: unsigned_minus_1_eq_mask mask_eq_exp_minus_1)
    with \<open>n \<noteq> - 1\<close> show False using unsigned_word_eqI by blast
  qed
  then show ?thesis by (simp add: checked_add_def)
qed

lemma create_block_internal_Inr:
  assumes "create_block_internal X head txs cluster now e ty = Inr blk"
  shows "blk_transactions blk = txs \<and> bh_block_number (blk_header blk) = bh_block_number head + 1 \<and>
    bh_parent_hash (blk_header blk) = bh_block_hash head \<and> bh_cluster_address (blk_header blk) = cluster \<and>
    bh_timestamp (blk_header blk) = now \<and> bh_epoch (blk_header blk) = e \<and> bh_state_hash (blk_header blk) = 0 \<and>
    (length txs < 2 ^ 31 \<longrightarrow> bh_num_transactions (blk_header blk) = of_nat (length txs)) \<and>
    validate_compute_block_hash X \<lparr>bp_block = blk, bp_signature = sig, bp_verifying_key = key, bp_sender = a\<rparr> =
      Inr (bh_block_hash (blk_header blk))"
  using assms
  by (auto simp: create_block_internal_def Let_def validate_compute_block_hash_def block_sign_payload_from_def
      block_sign_payload_from_block_def split: option.splits)

lemma scast_length: "n < 2 ^ 31 \<Longrightarrow> (scast (of_nat n :: 32 word) :: 64 word) = of_nat n"
  by (simp add: scast_eq signed_of_nat signed_take_bit_int_eq_self)

text \<open>
  C25: A block that a proposer creates on the head of its chain passes the checks of the other nodes on
  the header and the hash, as long as its clock is not behind the head, the cluster is that of the head,
  the state hash of the head is zero and the block has fewer than 2^31 transactions.
\<close>

theorem created_block_passes_checks:
  assumes "create_block S order now txs cluster ty w = Inr blk"
    and "fst (pg_block_head_header S cluster (bw_blocks w)) = Inr head"
    and "bh_cluster_address head = cluster" and "bh_state_hash head = 0" and "bh_timestamp head \<le> now"
    and "bh_block_number head \<noteq> - 1" and "length (blk_transactions blk) < 2 ^ 31"
  shows "validate_expected_block_fields head blk = Inr () \<and>
    validate_expected_block_hash (se_ext S)
      \<lparr>bp_block = blk, bp_signature = sig, bp_verifying_key = key, bp_sender = a\<rparr> = Inr ()"
proof -
  obtain valid where "create_block_internal (se_ext S) head valid cluster now
      (calculate_current_epoch (bh_block_number head + 1)) ty = Inr blk"
    using assms(1,2) by (auto simp: create_block_def)
  note facts = create_block_internal_Inr [OF this, of sig key a]
  have "checked_add (bh_block_number head) 1 = Some (bh_block_number head + 1)"
    using assms(6) by (rule checked_succ)
  with facts assms(3-5,7) show ?thesis
    by (simp add: validate_expected_block_fields_def validate_expected_block_hash_def Let_def usize_len_def
        scast_length)
qed

section \<open>Nonces\<close>

lemma take_consecutive_nonces:
  "map tx_nonce (take_consecutive n txs) = map (\<lambda>i. n + 1 + of_nat i) [0..<length (take_consecutive n txs)]"
proof (induction n txs rule: take_consecutive.induct)
  case (2 n tx txs)
  show ?case
  proof (cases "tx_nonce tx = n + 1")
    case True
    have "map (\<lambda>i. n + 1 + of_nat i) [0..<Suc k] = (n + 1) # map (\<lambda>i. n + 1 + 1 + of_nat i) [0..<k]" for k
      by (simp only: map_upt_Suc) (simp add: algebra_simps)
    with 2 True show ?thesis by simp
  qed simp
qed simp

lemma take_consecutive_subset: "set (take_consecutive n txs) \<subseteq> set txs"
  by (induction n txs rule: take_consecutive.induct) auto

lemma take_consecutive_key:
  "set (take_consecutive n (txs_of_key key txs)) \<subseteq> {tx \<in> set txs. tx_verifying_key tx = key}"
  using take_consecutive_subset [of n "txs_of_key key txs"] by (auto simp: txs_of_key_def)

lemma validate_nonce_keys_other:
  assumes "validate_nonce_keys X txs d keys = Inr valid"
  shows "set valid \<subseteq> {tx \<in> set txs. tx_verifying_key tx \<in> set keys}"
  using assms
proof (induction keys arbitrary: valid)
  case (Cons key keys)
  then obtain n rest where "validate_nonce_keys X txs d keys = Inr rest"
    and "valid = take_consecutive n (txs_of_key key txs) @ rest" by auto
  with Cons.IH [of rest] take_consecutive_key [of n key txs] show ?case by auto
qed simp

lemma validate_nonce_keys_at:
  assumes "validate_nonce_keys X txs d keys = Inr valid" "key \<in> set keys" "distinct keys"
  shows "\<exists>a n. account_address X key = Inr a \<and> fst (pg_get_nonce a d) = Inr n \<and>
    filter (\<lambda>tx. tx_verifying_key tx = key) valid = take_consecutive n (txs_of_key key txs)"
  using assms
proof (induction keys arbitrary: valid)
  case (Cons k keys)
  then obtain b n rest where ok: "account_address X k = Inr b" "fst (pg_get_nonce b d) = Inr n"
    "validate_nonce_keys X txs d keys = Inr rest"
    and valid: "valid = take_consecutive n (txs_of_key k txs) @ rest" by auto
  note mine = take_consecutive_key [of n k txs] and others = validate_nonce_keys_other [OF ok(3)]
  show ?case
  proof (cases "key = k")
    case True
    then have "filter (\<lambda>tx. tx_verifying_key tx = key) rest = []"
      using others Cons.prems(3) by (auto simp: filter_empty_conv)
    moreover have "filter (\<lambda>tx. tx_verifying_key tx = key) (take_consecutive n (txs_of_key k txs)) =
        take_consecutive n (txs_of_key k txs)"
      using mine True by (auto simp: filter_id_conv)
    ultimately show ?thesis using True ok valid by auto
  next
    case False
    then have "filter (\<lambda>tx. tx_verifying_key tx = key) (take_consecutive n (txs_of_key k txs)) = []"
      using mine by (auto simp: filter_empty_conv)
    with Cons.IH [OF ok(3)] Cons.prems(2,3) False valid show ?thesis by auto
  qed
qed simp

text \<open>
  C13: In a created block the transactions of every key carry consecutive nonces that follow the nonce
  of its account, and all of them were among the transactions offered.
\<close>

theorem created_block_nonces:
  assumes "create_block S order now txs cluster ty w = Inr blk"
    and "\<And>ks. mset (order ks) = mset ks" and "tx \<in> set (blk_transactions blk)"
  shows "tx \<in> set txs \<and>
    (\<exists>a n. account_address (se_ext S) (tx_verifying_key tx) = Inr a \<and> fst (pg_get_nonce a (bw_db w)) = Inr n \<and>
       (let mine = filter (\<lambda>t. tx_verifying_key t = tx_verifying_key tx) (blk_transactions blk) in
        map tx_nonce mine = map (\<lambda>i. n + 1 + of_nat i) [0..<length mine]))"
proof -
  let ?keys = "order (remdups (map tx_verifying_key txs))"
  have keys: "set ?keys = tx_verifying_key ` set txs" "distinct ?keys"
    using assms(2) [of "remdups (map tx_verifying_key txs)"]
    by (auto dest: mset_eq_setD mset_eq_imp_distinct_iff)
  obtain valid head e where valid: "validate_nonce_keys (se_ext S) txs (bw_db w) ?keys = Inr valid"
    and "create_block_internal (se_ext S) head valid cluster now e ty = Inr blk"
    using assms(1) by (auto simp: create_block_def validate_nonce_def Let_def)
  then have blk: "blk_transactions blk = valid" using create_block_internal_Inr by blast
  with assms(3) validate_nonce_keys_other [OF valid] have "tx \<in> set txs" by auto
  moreover from this keys have "tx_verifying_key tx \<in> set ?keys" by auto
  ultimately show ?thesis
    using validate_nonce_keys_at [OF valid _ keys(2), of "tx_verifying_key tx"] blk
    by (auto simp: Let_def take_consecutive_nonces)
qed

section \<open>Epochs\<close>

lemma unat_div_slots: "unat (n div SLOTS_PER_EPOCH) = unat n div 100"
  by (simp add: SLOTS_PER_EPOCH_def unat_div_distrib)

lemma unat_current_epoch:
  assumes "unat n < 100 * 2 ^ 64" shows "unat (calculate_current_epoch n) = unat n div 100"
proof -
  have "unat n div 100 < 2 ^ 64" using assms by (simp add: div_less_iff_less_mult)
  then show ?thesis
    by (simp add: calculate_current_epoch_def unat_ucast_narrow unat_div_slots)
qed

text \<open>
  As long as the number of an epoch fits in 64 bits an epoch is 100 consecutive blocks: the epoch
  of a block is its number divided by 100, it started at the largest multiple of 100 up to that block,
  and it ends with the block before the next multiple of 100.
\<close>

theorem epochs_are_hundred_blocks:
  assumes "unat n + 1 < 100 * 2 ^ 64"
  shows "unat (calculate_current_epoch n) = unat n div 100 \<and>
    unat (slots_elapsed_in_epoch n) = unat n mod 100 \<and>
    (has_epoch_ended n \<longleftrightarrow> 100 dvd unat n + 1)"
proof -
  have now: "unat (calculate_current_epoch n) = unat n div 100" using assms by (intro unat_current_epoch) simp
  have "unat (n + 1) = unat n + 1" using assms by (subst unat_add_lem [THEN iffD1]) auto
  then have then_: "unat (calculate_current_epoch (n + 1)) = (unat n + 1) div 100"
    using unat_current_epoch [of "n + 1"] assms by simp
  have start: "unat (get_epoch_start_slot (calculate_current_epoch n)) = unat n div 100 * 100"
  proof -
    have "unat n div 100 * 100 < 2 ^ 128"
      using unat_bounded [of n] by (simp add: le_less_trans [OF div_times_less_eq_dividend])
    then show ?thesis
      by (simp add: get_epoch_start_slot_def SLOTS_PER_EPOCH_def unat_mult_lem [THEN iffD1] now)
  qed
  have "unat (slots_elapsed_in_epoch n) = unat n - unat n div 100 * 100"
    unfolding slots_elapsed_in_epoch_def using start
    by (subst unat_sub) (simp_all add: word_le_nat_alt)
  then have "unat (slots_elapsed_in_epoch n) = unat n mod 100" by (simp add: minus_div_mult_eq_mod)
  moreover have "has_epoch_ended n \<longleftrightarrow> unat n div 100 < (unat n + 1) div 100"
    by (simp add: has_epoch_ended_def word_less_nat_alt now then_)
  moreover have "unat n div 100 < (unat n + 1) div 100 \<longleftrightarrow> 100 dvd unat n + 1"
    by (simp add: div_Suc dvd_eq_mod_eq_0)
  ultimately show ?thesis using now by blast
qed

section \<open>The selected validators\<close>

text \<open>What the loop does with one node, as a reference for the proofs.\<close>

definition candidate ::
  "select_ext \<Rightarrow> runtime_config \<Rightarrow> staking_info \<Rightarrow> block_header \<Rightarrow> epoch \<Rightarrow> selection_world \<Rightarrow>
   address \<times> node_pool_info \<Rightarrow> error + validator option" where
  "candidate Z rc si head e w = (\<lambda>(a, info).
     if a \<in> rc_org_nodes rc \<or> npi_staked_balance info < npi_min_pool_balance info then Inr None
     else case fst (pg_load_node_info a (sw_tables w)) of
       Inl _ \<Rightarrow> Inr None
     | Inr ni \<Rightarrow>
        if ni_peer_id ni = [] then Inr None
        else (case find (\<lambda>r. nh_peer_id r = ni_peer_id ni \<and>
                 nh_epoch r = calculate_current_epoch (bh_block_number head)) (sw_health w) of
            None \<Rightarrow> Inr None
          | Some h \<Rightarrow>
              res_then (calculate_xscore Z rc si a head h) (\<lambda>x.
                Inr (Some \<lparr>val_address = a, val_cluster_address = bh_cluster_address head, val_epoch = e,
                           val_stake = npi_staked_balance info, val_xscore = x\<rparr>))))"

definition candidates where
  "candidates Z rc si head e w = List.map_filter (\<lambda>node. case candidate Z rc si head e w node of
     Inr (Some v) \<Rightarrow> Some v | _ \<Rightarrow> None)"

lemma candidates_Nil [simp]: "candidates Z rc si head e w [] = []"
  by (simp add: candidates_def List.map_filter_def)

lemma candidates_Cons [simp]:
  "candidates Z rc si head e w (node # nodes) =
     (case candidate Z rc si head e w node of Inr (Some v) \<Rightarrow> v # candidates Z rc si head e w nodes
        | _ \<Rightarrow> candidates Z rc si head e w nodes)"
  by (simp add: candidates_def List.map_filter_def split: sum.splits option.splits)

lemma eligible_validators_candidates:
  "eligible_validators Z E rc si head e w nodes = Inr vs \<longleftrightarrow>
     list_all (\<lambda>node. \<not> isl (candidate Z rc si head e w node)) nodes \<and> vs = candidates Z rc si head e w nodes"
proof (induction nodes arbitrary: vs)
  case (Cons node nodes)
  obtain a info where [simp]: "node = (a, info)" by (cases node)
  show ?case
    by (auto simp: Cons.IH candidate_def Let_def pg_load_node_health_def gets_def split: sum.splits option.splits if_splits)
qed auto

lemma mset_candidates:
  assumes "mset nodes = mset nodes'"
  shows "mset (candidates Z rc si head e w nodes) = mset (candidates Z rc si head e w nodes')"
proof -
  let ?f = "\<lambda>node. case candidate Z rc si head e w node of Inr (Some v) \<Rightarrow> Some v | _ \<Rightarrow> None"
  have "mset (candidates Z rc si head e w ns) = image_mset (the \<circ> ?f) (filter_mset (\<lambda>n. ?f n \<noteq> None) (mset ns))" for ns
    unfolding candidates_def List.map_filter_def by (simp add: o_def)
  with assms show ?thesis by simp
qed

lemma candidate_address:
  "candidate Z rc si head e w node = Inr (Some v) \<Longrightarrow> val_address v = fst node"
  by (cases node) (auto simp: candidate_def split: if_splits sum.splits option.splits)

lemma candidates_distinct:
  assumes "distinct (map fst nodes)"
  shows "distinct (map val_address (candidates Z rc si head e w nodes)) \<and>
    val_address ` set (candidates Z rc si head e w nodes) \<subseteq> fst ` set nodes"
  using assms
proof (induction nodes)
  case (Cons node nodes)
  then show ?case
    using candidate_address [of Z rc si head e w node] by (auto split: sum.splits option.splits)
qed simp

lemma sort_key_agrees:
  assumes "mset xs = mset ys" "distinct (map f ys)"
  shows "sort_key f xs = sort_key f ys"
proof (rule properties_for_sort_key)
  show "mset (sort_key f ys) = mset xs" using assms(1) by simp
  have single: "filter (\<lambda>x. f k = f x) zs = [k]" if "k \<in> set zs" "distinct (map f zs)" for k zs
    using that by (induction zs) (auto simp: filter_empty_conv, metis imageI)
  have "distinct (map f xs)"
    using assms by (metis mset_eq_imp_distinct_iff mset_map)
  moreover have "distinct (map f (sort_key f ys))"
    using assms by (metis mset_eq_imp_distinct_iff mset_map mset_sort)
  moreover have "set (sort_key f ys) = set xs" using mset_eq_setD [OF assms(1)] by simp
  ultimately show "filter (\<lambda>x. f k = f x) (sort_key f ys) = filter (\<lambda>x. f k = f x) xs" if "k \<in> set (sort_key f ys)" for k
    using that by (simp add: single)
qed simp

definition enumerates_map :: "((address \<rightharpoonup> node_pool_info) \<Rightarrow> (address \<times> node_pool_info) list) \<Rightarrow> bool" where
  "enumerates_map order \<longleftrightarrow> (\<forall>m. finite (dom m) \<longrightarrow> distinct (map fst (order m)) \<and> map_of (order m) = m)"

lemma enumerations_agree:
  assumes "enumerates_map order" "enumerates_map order'" "finite (dom m)"
  shows "mset (order m) = mset (order' m)"
proof -
  have a: "distinct (map fst (order m))" "map_of (order m) = m" and b: "distinct (map fst (order' m))" "map_of (order' m) = m"
    using assms by (auto simp: enumerates_map_def)
  then have "set (order m) = set (order' m)" by (metis map_of_inject_set)
  with a(1) b(1) show ?thesis by (metis distinct_map set_eq_iff_mset_eq_distinct)
qed

text \<open>
  C26: The nodes agree on the validators of an epoch: the result of a selection does not depend on the
  order in which the hash map of the staking pools is enumerated.
\<close>

theorem selection_is_deterministic:
  assumes "select_validators_for_epoch Z E X head e w = Inr vs"
    and "enumerates_map (sx_nodes Z)" and "enumerates_map order"
    and "rt_staking (bw_caches (sw_chain w)) = Some si" and "finite (dom (si_nodes si))"
  shows "select_validators_for_epoch (Z\<lparr>sx_nodes := order\<rparr>) E X head e w = Inr vs"
proof -
  obtain rc where rc: "rt_config (bw_caches (sw_chain w)) = Some rc"
    using assms(1) by (auto simp: select_validators_for_epoch_def config_get_def split: option.splits)
  let ?m = "si_nodes si" let ?Z = "Z\<lparr>sx_nodes := order\<rparr>"
  have "calculate_xscore ?Z = calculate_xscore Z" by (simp add: calculate_xscore_def fun_eq_iff split: option.splits)
  then have same: "candidate ?Z rc si head e w = candidate Z rc si head e w"
    by (simp only: candidate_def)
  then have same': "candidates ?Z rc si head e w = candidates Z rc si head e w"
    by (simp add: candidates_def)
  have eq: "mset (order ?m) = mset (sx_nodes Z ?m)"
    using enumerations_agree [OF assms(3,2,5)] .
  obtain eligible where el: "eligible_validators Z E rc si head e w (sx_nodes Z ?m) = Inr eligible"
    using assms(1,4) rc by (auto simp: select_validators_for_epoch_def config_get_def staking_get_def)
  then have el_eq: "eligible = candidates Z rc si head e w (sx_nodes Z ?m)"
    by (simp add: eligible_validators_candidates)
  let ?eligible' = "candidates Z rc si head e w (order ?m)"
  have el': "eligible_validators ?Z E rc si head e w (order ?m) = Inr ?eligible'"
    using el mset_eq_setD [OF eq] by (simp add: eligible_validators_candidates same same' list_all_iff)
  have "distinct (map val_address eligible)"
    unfolding el_eq using assms(2,5) by (intro candidates_distinct [THEN conjunct1]) (simp add: enumerates_map_def)
  then have "listed_validators rc ?eligible' = listed_validators rc eligible"
    using mset_candidates [OF eq, of Z rc si head e w] el_eq unfolding listed_validators_def
    by (intro sort_key_agrees) (simp_all add: distinct_map_filter)
  with assms(1,4) rc el el' show ?thesis
    by (simp add: select_validators_for_epoch_def config_get_def staking_get_def)
qed

text \<open>A partial shuffle returns as many of the elements as asked for, or all of them.\<close>

definition is_partial_shuffle :: "(64 word \<Rightarrow> validator list \<Rightarrow> nat \<Rightarrow> validator list) \<Rightarrow> bool" where
  "is_partial_shuffle f \<longleftrightarrow> (\<forall>seed vs n. mset (f seed vs n) \<subseteq># mset vs \<and> length (f seed vs n) = min n (length vs))"

definition is_qualified :: "runtime_config \<Rightarrow> staking_info \<Rightarrow> validator \<Rightarrow> bool" where
  "is_qualified rc si v \<longleftrightarrow>
     (\<exists>info. si_nodes si (val_address v) = Some info \<and> npi_min_pool_balance info \<le> npi_staked_balance info \<and>
        val_stake v = npi_staked_balance info) \<and>
     val_address v \<notin> rc_org_nodes rc \<and>
     f64_less (xs_xscore_threshold (rc_xscore rc)) (val_xscore v) \<and>
     is_listed (rc_whitelisted_nodes rc) (rc_blacklisted_nodes rc) (val_address v)"

lemma candidate_staked:
  "candidate Z rc si head e w (a, info) = Inr (Some v) \<Longrightarrow>
     val_address v = a \<and> npi_min_pool_balance info \<le> npi_staked_balance info \<and>
     val_stake v = npi_staked_balance info \<and> a \<notin> rc_org_nodes rc"
  by (auto simp: candidate_def split: if_splits sum.splits option.splits)

lemma candidates_member:
  "v \<in> set (candidates Z rc si head e w nodes) \<Longrightarrow> \<exists>node\<in>set nodes. candidate Z rc si head e w node = Inr (Some v)"
  by (induction nodes) (auto split: sum.splits option.splits)

lemma distinct_map_submset:
  assumes "mset xs \<subseteq># mset ys" "distinct (map f ys)"
  shows "distinct (map f xs)"
proof -
  obtain rest where "mset ys = mset xs + mset rest"
    using assms(1) by (metis ex_mset mset_subset_eq_exists_conv)
  then have "mset (map f ys) = mset (map f (xs @ rest))" by simp
  then have "distinct (map f (xs @ rest))" using assms(2) mset_eq_imp_distinct_iff by blast
  then show ?thesis by simp
qed

text \<open>
  C10: Whoever is selected for an epoch is a configured node of the organisation, with the fixed
  score, or has staked at least the minimum of its pool, scores above the threshold and is admitted by
  the lists. Nobody is selected twice, and no more than the configured number, which is at least 2.
\<close>

theorem selected_validators_are_eligible:
  assumes "select_validators_for_epoch Z E X head e w = Inr vs"
    and "rt_config (bw_caches (sw_chain w)) = Some rc" and "rt_staking (bw_caches (sw_chain w)) = Some si"
    and "enumerates_map (sx_nodes Z)" and "is_partial_shuffle (sx_shuffle Z)"
    and "finite (dom (si_nodes si))" and "finite (rc_org_nodes rc)"
  shows "distinct (map val_address vs) \<and> length vs \<le> max_validators rc \<and>
    list_all (\<lambda>v. is_qualified rc si v \<or>
      v = fallback_validator head e (val_address v) \<and> val_address v \<in> rc_org_nodes rc) vs"
proof -
  let ?nodes = "sx_nodes Z (si_nodes si)" let ?limit = "max_validators rc"
  have nodes: "distinct (map fst ?nodes)" "map_of ?nodes = si_nodes si"
    using assms(4,6) by (auto simp: enumerates_map_def)
  obtain eligible where "eligible_validators Z E rc si head e w ?nodes = Inr eligible"
    using assms(1-3) by (auto simp: select_validators_for_epoch_def config_get_def staking_get_def)
  then have el: "eligible = candidates Z rc si head e w ?nodes"
    and run: "eligible_validators Z E rc si head e w ?nodes = Inr eligible"
    by (simp_all add: eligible_validators_candidates)
  define chosen where "chosen = listed_validators rc eligible"
  define orgs where "orgs = fallback_nodes rc (length chosen)"
  have vs: "vs = sx_shuffle Z (calculate_seed X (bh_block_hash head) e)
      (chosen @ map (fallback_validator head e) orgs) ?limit"
    using assms(1-3) run
    by (simp add: select_validators_for_epoch_def config_get_def staking_get_def Let_def chosen_def orgs_def)
  have qual: "is_qualified rc si v" if "v \<in> set chosen" for v
  proof -
    from that obtain a info where node: "(a, info) \<in> set ?nodes" "candidate Z rc si head e w (a, info) = Inr (Some v)"
      using candidates_member [of v Z rc si head e w ?nodes] by (auto simp: chosen_def listed_validators_def el)
    then have "si_nodes si a = Some info" using map_of_is_SomeI [OF nodes(1)] nodes(2) by simp
    with candidate_staked [OF node(2)] that show ?thesis
      by (simp add: is_qualified_def chosen_def listed_validators_def)
  qed
  have orgs: "set orgs \<subseteq> rc_org_nodes rc" "distinct orgs"
    using assms(7) set_take_subset [of _ "sorted_list_of_set (rc_org_nodes rc)"]
    by (auto simp: orgs_def fallback_nodes_def)
  have "distinct (map val_address eligible)"
    using candidates_distinct [OF nodes(1), of Z rc si head e w] unfolding el by blast
  moreover have "mset chosen \<subseteq># mset eligible"
    unfolding chosen_def listed_validators_def mset_sort mset_filter
    by (meson multiset_filter_subset subset_mset.order_trans)
  ultimately have "distinct (map val_address chosen)" using distinct_map_submset by blast
  moreover have "val_address ` set chosen \<inter> set orgs = {}"
    using orgs(1) qual unfolding is_qualified_def by blast
  moreover have "map val_address (map (fallback_validator head e) orgs) = orgs"
    by (simp add: fallback_validator_def o_def)
  ultimately have all: "distinct (map val_address (chosen @ map (fallback_validator head e) orgs))"
    using orgs(2) by (simp only: map_append distinct_append set_map)
  have shuffle: "mset vs \<subseteq># mset (chosen @ map (fallback_validator head e) orgs)" "length vs \<le> ?limit"
    using assms(5) unfolding vs is_partial_shuffle_def by (blast, metis min.cobounded1)
  then have "set vs \<subseteq> set chosen \<union> fallback_validator head e ` set orgs"
    using set_mset_mono [OF shuffle(1)] by simp
  moreover have "val_address (fallback_validator head e a) = a" for a by (simp add: fallback_validator_def)
  ultimately have "list_all (\<lambda>v. is_qualified rc si v \<or>
      v = fallback_validator head e (val_address v) \<and> val_address v \<in> rc_org_nodes rc) vs"
    using qual orgs(1) unfolding list_all_iff by fastforce
  with distinct_map_submset [OF shuffle(1) all] shuffle(2) show ?thesis by blast
qed

text \<open>
  A configuration without a list of block proposers, allowed or denied, stops the chain at the end
  of the epoch: the selection of the proposer divides by the length of an empty list, after the
  validators have been stored.
\<close>

theorem no_lists_no_proposer:
  assumes "select_validators_for_epoch Z E X head e w = Inr vs"
    and "rt_config (bw_caches (sw_chain w)) = Some rc"
    and "rc_whitelisted_block_proposers rc = None" and "rc_blacklisted_block_proposers rc = None"
  shows "select_and_store_validators_and_proposer Z E X e head w =
    (Inl Panic, w\<lparr>sw_tables := snd (pg_batch_store_validators E vs (sw_tables w))\<rparr>)"
  using assms
  by (simp add: select_and_store_validators_and_proposer_def config_get_def eligible_proposers_def
      pg_batch_store_validators_def select_block_proposers_def calculate_proposer_index_def modify_def
      and_then_def)

section \<open>A concrete selection\<close>

text \<open>One staked node, 5, with a report, and the two nodes of the organisation.\<close>

definition demo_info :: node_pool_info where
  "demo_info = \<lparr>npi_node = 5, npi_staked_balance = 50, npi_locking_period = 0, npi_reward_wallet_address = 12,
     npi_min_pool_balance = 10, npi_min_pool_balance_from = None, npi_max_pool_balance = 100,
     npi_max_pool_balance_from = None\<rparr>"

definition sorted_nodes :: "(address \<rightharpoonup> node_pool_info) \<Rightarrow> (address \<times> node_pool_info) list" where
  "sorted_nodes m = map (\<lambda>a. (a, the (m a))) (sorted_list_of_set (dom m))"

definition demo_select :: select_ext where
  "demo_select = \<lparr>sx_score = (\<lambda>_ _ _ _. Inr 0x3FF0000000000000), sx_nodes = sorted_nodes,
     sx_shuffle = (\<lambda>_ vs n. take n vs)\<rparr>"

definition demo_rc :: "address set option \<Rightarrow> runtime_config" where
  "demo_rc denied = demo_config\<lparr>rc_blacklisted_block_proposers := denied\<rparr>"

definition demo_si :: staking_info where
  "demo_si = \<lparr>si_nodes = [5 \<mapsto> demo_info], si_reward_node_map = [12 \<mapsto> 5]\<rparr>"

definition demo_selection :: "address set option \<Rightarrow> selection_world" where
  "demo_selection denied =
     \<lparr>sw_chain = node_demo_world\<lparr>bw_caches := node_demo_caches\<lparr>rt_config := Some (demo_rc denied),
          rt_staking := Some demo_si\<rparr>\<rparr>,
      sw_tables = \<lparr>t_validator = [], t_block_proposer = [], t_vote = [], t_vote_result = [],
        t_node_info = [\<lparr>nrow_address = 5, nrow_peer_id = [7], nrow_ip_address = None,
          nrow_joined_epoch = None, nrow_metadata = None, nrow_cluster_address = Some 0,
          nrow_signature = None, nrow_verifying_key = None\<rparr>]\<rparr>,
      sw_health = [node_health_default\<lparr>nh_peer_id := [7]\<rparr>]\<rparr>"

definition demo_selected :: "validator list" where
  "demo_selected =
     [\<lparr>val_address = 5, val_cluster_address = 0, val_epoch = 1, val_stake = 50, val_xscore = 0x3FF0000000000000\<rparr>,
      fallback_validator block_header_default 1 1, fallback_validator block_header_default 1 2]"

lemma sorted_nodes_enumerates: "enumerates_map sorted_nodes"
proof -
  have "map_of (map (\<lambda>a. (a, the (m a))) (sorted_list_of_set (dom m))) = m" if "finite (dom m)" for m :: "address \<rightharpoonup> node_pool_info"
    using that by (auto simp: fun_eq_iff map_of_map_keys Map.restrict_map_def domIff)
  then show ?thesis by (auto simp: enumerates_map_def sorted_nodes_def o_def)
qed

lemma demo_select_shuffles: "is_partial_shuffle (sx_shuffle demo_select)"
proof -
  have "mset (take n vs) \<subseteq># mset vs" for n and vs :: "validator list"
    by (metis append_take_drop_id mset_append mset_subset_eq_add_left)
  then show ?thesis by (simp add: is_partial_shuffle_def demo_select_def min.commute)
qed

lemma demo_selected_run:
  "select_validators_for_epoch demo_select E X block_header_default 1 (demo_selection denied) = Inr demo_selected"
proof -
  have "f64_less 0 0x3FF0000000000000" by (simp add: f64_less_def f64_is_nan_def f64_key_def)
  then show ?thesis
    by (simp add: select_validators_for_epoch_def demo_selection_def node_demo_world_def node_demo_caches_def
        demo_caches_def config_get_def staking_get_def demo_select_def sorted_nodes_def demo_info_def
        pg_load_node_info_def node_info_of_row_def Let_def pg_load_node_health_def gets_def
        calculate_current_epoch_def block_header_default_def node_health_default_def calculate_xscore_def
        listed_validators_def is_listed_def fallback_nodes_def max_validators_def demo_config_def
        DEFAULT_MAX_VALIDATORS_def demo_selected_def fallback_validator_def demo_rc_def demo_si_def)
qed

lemma demo_selection_caches:
  "rt_config (bw_caches (sw_chain (demo_selection denied))) = Some (demo_rc denied)"
  "rt_staking (bw_caches (sw_chain (demo_selection denied))) = Some demo_si"
  "finite (dom (si_nodes demo_si))" "finite (rc_org_nodes (demo_rc denied))"
  by (simp_all add: demo_selection_def demo_si_def demo_rc_def demo_config_def)

lemma demo_select_enumerates: "enumerates_map (sx_nodes demo_select)"
  using sorted_nodes_enumerates by (simp add: demo_select_def)

lemma reversed_enumerates: "enumerates_map order \<Longrightarrow> enumerates_map (rev \<circ> order)"
proof -
  have "map_of (rev xs) = map_of xs" if "distinct (map fst xs)" for xs :: "(address \<times> node_pool_info) list"
    using that by (subst map_of_inject_set) (simp_all add: rev_map [symmetric])
  then show "enumerates_map order \<Longrightarrow> enumerates_map (rev \<circ> order)"
    by (simp add: enumerates_map_def rev_map [symmetric])
qed

theorem selection_is_deterministic_witness:
  "select_validators_for_epoch (demo_select\<lparr>sx_nodes := rev \<circ> sorted_nodes\<rparr>) (vp_tables node_demo) node_demo_ext
     block_header_default 1 (demo_selection None) = Inr demo_selected"
  by (rule selection_is_deterministic [OF demo_selected_run demo_select_enumerates
        reversed_enumerates [OF sorted_nodes_enumerates] demo_selection_caches(2,3)])

theorem selected_validators_are_eligible_witness:
  "distinct (map val_address demo_selected) \<and> length demo_selected \<le> 4"
  using selected_validators_are_eligible [OF demo_selected_run demo_selection_caches(1,2) demo_select_enumerates
      demo_select_shuffles demo_selection_caches(3,4)]
  by (simp add: demo_rc_def demo_config_def max_validators_def DEFAULT_MAX_VALIDATORS_def)

theorem no_lists_no_proposer_witness:
  "fst (select_and_store_validators_and_proposer demo_select (vp_tables node_demo) node_demo_ext 1
     block_header_default (demo_selection None)) = Inl Panic"
  using no_lists_no_proposer [OF demo_selected_run demo_selection_caches(1), of None "vp_tables node_demo" node_demo_ext]
  by (simp add: demo_rc_def demo_config_def)

lemma created_demo:
  "\<exists>blk. create_block (vp_store node_demo) id 0 [signed_transfer] 0 L1XTokenBlock node_demo_world = Inr blk \<and>
     blk_transactions blk = [signed_transfer]"
proof -
  have "validate_nonce (se_ext (vp_store node_demo)) id [signed_transfer] (bw_db node_demo_world) = Inr [signed_transfer]"
    by (simp add: validate_nonce_def signed_transfer_def account_address_def node_demo_defs address_of_hash_def
        pg_get_nonce_def pg_is_valid_account_def gets_def op_runs txs_of_key_def)
  then show ?thesis
    using node_demo_head
    by (simp add: create_block_def create_block_internal_def node_demo_def node_demo_ext_def vote_demo_ext_def)
qed

theorem created_block_passes_checks_witness:
  "\<exists>blk. create_block (vp_store node_demo) id 0 [signed_transfer] 0 L1XTokenBlock node_demo_world = Inr blk \<and>
     validate_expected_block_fields (block_header_default\<lparr>bh_block_hash := 7\<rparr>) blk = Inr ()"
proof -
  obtain blk where blk: "create_block (vp_store node_demo) id 0 [signed_transfer] 0 L1XTokenBlock node_demo_world = Inr blk"
    "blk_transactions blk = [signed_transfer]" using created_demo by blast
  with created_block_passes_checks [OF blk(1) node_demo_head] show ?thesis
    by (simp add: block_header_default_def)
qed

theorem created_block_nonces_witness:
  "\<exists>blk a n. create_block (vp_store node_demo) id 0 [signed_transfer] 0 L1XTokenBlock node_demo_world = Inr blk \<and>
     account_address node_demo_ext [] = Inr a \<and> fst (pg_get_nonce a (bw_db node_demo_world)) = Inr n \<and>
     map tx_nonce (blk_transactions blk) = [n + 1]"
proof -
  obtain blk where blk: "create_block (vp_store node_demo) id 0 [signed_transfer] 0 L1XTokenBlock node_demo_world = Inr blk"
    "blk_transactions blk = [signed_transfer]" using created_demo by blast
  with created_block_nonces [OF blk(1), of signed_transfer] show ?thesis
    by (auto simp: Let_def signed_transfer_def node_demo_def)
qed

theorem epochs_are_hundred_blocks_witness: "has_epoch_ended 199 \<and> \<not> has_epoch_ended 200"
  using epochs_are_hundred_blocks [of 199] epochs_are_hundred_blocks [of 200] by simp

end
