(* ===== verification/L1X_Consensus.thy ===== *)
theory L1X_Consensus
  imports L1X_Epoch
begin

text \<open>
  The consensus of a node: the blocks that wait for votes (\<^verbatim>\<open>consensus/src/pending_blocks.rs\<close>), the
  handlers of the messages from the network (\<^verbatim>\<open>consensus/src/consensus.rs\<close>) and the loop that calls
  them one after the other (\<^verbatim>\<open>receive_network\<close> in \<^verbatim>\<open>node/src/node.rs\<close>).

  A handler is an operation on the state of the node. It runs on a pooled connection, not in a
  database transaction: what it has written before an error stays written. Messages to the network and
  to the mempool are collected in lists; their receivers are taken to be alive. The verification of
  the signatures on node information, proposers and health reports, the addresses of peers and the
  signing of blocks are parameters.

  The theory shows what a finalized block has gone through, that executed blocks are final whatever
  messages follow, that the ledger changes only by executing blocks, and which
  messages can stop or bypass the vote.
\<close>

section \<open>State\<close>

record pending_block =
  pb_votes :: "vote list"
  pb_vote_results :: "vote_result list"
  pb_block :: "block_payload option"

definition pending_block_new :: pending_block where
  "pending_block_new = \<lparr>pb_votes = [], pb_vote_results = [], pb_block = None\<rparr>"

record block_proposer_payload =
  bpp_cluster_block_proposers :: "(address \<times> (epoch \<times> address) list) list"
  bpp_signature :: bytes
  bpp_verifying_key :: bytes
  bpp_sender :: address

record query_block_message =
  qb_block_number :: block_number
  qb_cluster_address :: address

datatype l1x_response =
    QueryBlock block_payload bool "vote_result option"
  | QueryBlockError error

datatype broadcast_network =
    BroadcastNodeInfo node_info
  | BroadcastValidateBlock block_payload
  | BroadcastBlockProposer block_proposer_payload
  | BroadcastVote vote
  | BroadcastVoteResult vote_result
  | BroadcastQueryBlockRequest query_block_message bytes
  | BroadcastQueryBlockResponse l1x_response
  | BroadcastSignedNodeHealth "node_health_payload list"
  | BroadcastNodeHealth "node_health list"
  | BroadcastQueryNodeStatusRequest timestamp bytes

text \<open>
  \<open>ci_boot_peer\<close> is the peer of the first boot node in the configuration, or why it has none.
\<close>

record node_identity =
  ci_node_address :: address
  ci_cluster_address :: address
  ci_verifying_key :: bytes
  ci_sign :: signer
  ci_multinode_mode :: bool
  ci_peer_id :: bytes
  ci_joined_epoch :: epoch
  ci_boot_peer :: "(error + bytes) option"

record consensus_params =
  cp_validate :: validate_params
  cp_chain :: chain
  cp_block :: block_params
  cp_order :: "vote list \<Rightarrow> vote list"
  cp_select :: select_ext
  cp_health :: health_ext
  cp_verify_node_info :: "node_info_sign_payload \<Rightarrow> bytes \<Rightarrow> bytes \<Rightarrow> bool"
  cp_verify_proposers :: "(address \<times> (epoch \<times> address) list) list \<Rightarrow> bytes \<Rightarrow> bytes \<Rightarrow> bool"
  cp_verify_health :: "node_health \<Rightarrow> bytes \<Rightarrow> bytes \<Rightarrow> bool"
  cp_sign_json :: "block \<Rightarrow> bytes option"
  cp_sign_health :: "node_health \<Rightarrow> bytes option"
  cp_peer_id :: "bytes \<Rightarrow> bytes option"
  cp_peers :: "bytes set \<Rightarrow> bytes list"
  cp_now :: timestamp

record node_state =
  ns_world :: selection_world
  ns_pending :: "block_number \<rightharpoonup> pending_block"
  ns_reports :: "bytes \<rightharpoonup> node_health list"
  ns_checks :: real_time_checks
  ns_network :: "broadcast_network list"
  ns_mempool :: "transaction list"
  ns_events :: "bytes list"

type_synonym 'a node_op = "(node_state, error, 'a) op"

abbreviation cp_ext :: "consensus_params \<Rightarrow> ext" where
  "cp_ext C \<equiv> vp_ext (cp_validate C)"

abbreviation cp_tables :: "consensus_params \<Rightarrow> table_ext" where
  "cp_tables C \<equiv> vp_tables (cp_validate C)"

abbreviation cp_store :: "consensus_params \<Rightarrow> store_ext" where
  "cp_store C \<equiv> vp_store (cp_validate C)"

definition cp_votes :: "consensus_params \<Rightarrow> vote_ext" where
  "cp_votes C = \<lparr>vx_ext = cp_ext C, vx_order = cp_order C\<rparr>"

text \<open>The parts of the state on which the operations of the other components run.\<close>

definition asks :: "(selection_world \<Rightarrow> error + 'a) \<Rightarrow> 'a node_op" where
  "asks f = (\<lambda>s. (f (ns_world s), s))"

definition on_tables :: "'a tables_op \<Rightarrow> 'a node_op" where
  "on_tables m = (\<lambda>s. case m (sw_tables (ns_world s)) of
     (r, d) \<Rightarrow> (r, s\<lparr>ns_world := ns_world s\<lparr>sw_tables := d\<rparr>\<rparr>))"

definition on_health :: "'a health_op \<Rightarrow> 'a node_op" where
  "on_health m = (\<lambda>s. case m (sw_health (ns_world s)) of
     (r, rows) \<Rightarrow> (r, s\<lparr>ns_world := ns_world s\<lparr>sw_health := rows\<rparr>\<rparr>))"

definition on_chain :: "(block_world, error, 'a) op \<Rightarrow> 'a node_op" where
  "on_chain m = (\<lambda>s. case m (sw_chain (ns_world s)) of
     (r, w) \<Rightarrow> (r, s\<lparr>ns_world := ns_world s\<lparr>sw_chain := w\<rparr>\<rparr>))"

definition on_blocks :: "'a block_op \<Rightarrow> (block_world, error, 'a) op" where
  "on_blocks m = (\<lambda>w. case m (bw_blocks w) of (r, d) \<Rightarrow> (r, w\<lparr>bw_blocks := d\<rparr>))"

definition on_selection :: "(selection_world, error, 'a) op \<Rightarrow> 'a node_op" where
  "on_selection m = (\<lambda>s. case m (ns_world s) of (r, w) \<Rightarrow> (r, s\<lparr>ns_world := w\<rparr>))"

definition send :: "broadcast_network \<Rightarrow> unit node_op" where
  "send msg = modify (\<lambda>s. s\<lparr>ns_network := ns_network s @ [msg]\<rparr>)"

definition send_removals :: "transaction list \<Rightarrow> unit node_op" where
  "send_removals txs = modify (\<lambda>s. s\<lparr>ns_mempool := ns_mempool s @ txs\<rparr>)"

definition broadcast_events :: "bytes list \<Rightarrow> unit node_op" where
  "broadcast_events events = modify (\<lambda>s. s\<lparr>ns_events := ns_events s @ events\<rparr>)"

section \<open>Pending blocks\<close>

text \<open>An entry of the map of pending blocks, made when a vote, a result or a block arrives first.\<close>

definition update_pending ::
  "block_number \<Rightarrow> (pending_block \<Rightarrow> pending_block) \<Rightarrow> node_state \<Rightarrow> node_state" where
  "update_pending n f s =
     s\<lparr>ns_pending := (ns_pending s)(n \<mapsto> f (case ns_pending s n of Some pb \<Rightarrow> pb | None \<Rightarrow> pending_block_new))\<rparr>"

definition add_vote :: "vote \<Rightarrow> unit node_op" where
  "add_vote v = modify (update_pending (vsp_block_number (vote_data v))
     (\<lambda>pb. pb\<lparr>pb_votes := pb_votes pb @ [v]\<rparr>))"

definition add_vote_result :: "vote_result \<Rightarrow> unit node_op" where
  "add_vote_result r = modify (update_pending (vrp_block_number (vr_data r))
     (\<lambda>pb. pb\<lparr>pb_vote_results := pb_vote_results pb @ [r]\<rparr>))"

definition add_block :: "block_payload \<Rightarrow> unit node_op" where
  "add_block p = modify (update_pending (bh_block_number (blk_header (bp_block p)))
     (\<lambda>pb. pb\<lparr>pb_block := Some p\<rparr>))"

definition remove_block :: "block_number \<Rightarrow> unit node_op" where
  "remove_block n = modify (\<lambda>s. s\<lparr>ns_pending := (ns_pending s)(n := None)\<rparr>)"

definition all_votes :: "block_number \<Rightarrow> node_state \<Rightarrow> vote list" where
  "all_votes n s = (case ns_pending s n of Some pb \<Rightarrow> pb_votes pb | None \<Rightarrow> [])"

definition all_votes_hashmap :: "pending_block \<Rightarrow> (address \<rightharpoonup> bool)" where
  "all_votes_hashmap pb = map_of (rev (map (\<lambda>v. (vote_validator_address v, vsp_vote (vote_data v))) (pb_votes pb)))"

definition validate_votes :: "consensus_params \<Rightarrow> pending_block \<Rightarrow> consensus_tables \<Rightarrow> error + unit" where
  "validate_votes C pb t =
     (case pb_block pb of
        None \<Rightarrow> Inl (Failed ''Block is not set'')
      | Some p \<Rightarrow> res_each (\<lambda>v. validate_vote (cp_ext C) v (bp_block p) t) (pb_votes pb))"

definition validate_vote_results :: "consensus_params \<Rightarrow> pending_block \<Rightarrow> consensus_tables \<Rightarrow> error + unit" where
  "validate_vote_results C pb t =
     (case pb_block pb of
        None \<Rightarrow> Inl (Failed ''Block is not set'')
      | Some p \<Rightarrow> res_each (\<lambda>r. validate_vote_result (cp_ext C) r (bp_block p) t) (pb_vote_results pb))"

fun voters :: "ext \<Rightarrow> runtime_config \<Rightarrow> vote list \<Rightarrow> error + address set" where
  "voters X rc [] = Inr {}"
| "voters X rc (v # vs) =
     res_then (account_address X (vote_verifying_key v)) (\<lambda>a.
     res_then (voters X rc vs) (\<lambda>rest. Inr (if a \<in> rc_org_nodes rc then rest else insert a rest)))"

definition get_last_block_votes_validators ::
  "consensus_params \<Rightarrow> address \<Rightarrow> runtime_config \<Rightarrow> selection_world \<Rightarrow> error + address set" where
  "get_last_block_votes_validators C cluster rc w =
     res_then (fst (pg_block_head_header (cp_store C) cluster (bw_blocks (sw_chain w)))) (\<lambda>head.
       case fst (pg_load_vote_result (cp_tables C) (bh_block_hash head) (sw_tables w)) of
         Inl _ \<Rightarrow> Inr {}
       | Inr r \<Rightarrow> voters (cp_ext C) rc (vrp_votes (vr_data r)))"

definition check_proposed_block ::
  "consensus_params \<Rightarrow> address \<Rightarrow> runtime_config \<Rightarrow> block_payload \<Rightarrow> selection_world \<Rightarrow> error + unit" where
  "check_proposed_block C cluster rc p w =
     res_then (get_last_block_votes_validators C cluster rc w) (\<lambda>last_voters.
       validate_proposed_block (cp_validate C) p \<lparr>nw_chain = sw_chain w, nw_tables = sw_tables w\<rparr> cluster last_voters)"

definition pending_try_to_validate_block ::
  "consensus_params \<Rightarrow> node_identity \<Rightarrow> pending_block \<Rightarrow> selection_world \<Rightarrow> error + unit" where
  "pending_try_to_validate_block C I pb w =
     (case pb_block pb of
        None \<Rightarrow> Inl (Failed ''Block is not set'')
      | Some p \<Rightarrow> res_then (fst (config_get (bw_caches (sw_chain w)))) (\<lambda>rc.
          check_proposed_block C (ci_cluster_address I) rc p w))"

definition try_to_validate_block ::
  "consensus_params \<Rightarrow> node_identity \<Rightarrow> block_number \<Rightarrow> unit node_op" where
  "try_to_validate_block C I n = (\<lambda>s.
     case ns_pending s n of
       None \<Rightarrow> (Inl (Failed ''Can't find pending Block''), s)
     | Some pb \<Rightarrow> (pending_try_to_validate_block C I pb (ns_world s), s))"

definition try_to_vote_result ::
  "consensus_params \<Rightarrow> node_identity \<Rightarrow> block_number \<Rightarrow> address \<Rightarrow> validator list \<Rightarrow> vote_result node_op" where
  "try_to_vote_result C I n proposer validators = (\<lambda>s.
     (case ns_pending s n of
        None \<Rightarrow> Inl (Failed ''Can't find pending Block'')
      | Some pb \<Rightarrow>
         (case pb_votes pb of
            [] \<Rightarrow> Inl (Failed ''Can't generate VoteResult'')
          | v # _ \<Rightarrow>
              res_then (try_to_generate_vote_result (cp_votes C) (vsp_block_number (vote_data v))
                (vsp_block_hash (vote_data v)) (vsp_cluster_address (vote_data v)) (pb_votes pb) (ci_sign I)
                (ci_verifying_key I) proposer validators (bw_caches (sw_chain (ns_world s)))) (\<lambda>result.
                case result of
                  None \<Rightarrow> Inl (Failed ''Can't generate VoteResult'')
                | Some r \<Rightarrow> Inr r)), s))"

text \<open>The vote that the node publishes: the one it gave before, or a new one in favour of the block.\<close>

definition publish_vote ::
  "consensus_params \<Rightarrow> node_identity \<Rightarrow> block_number \<Rightarrow> block_header \<Rightarrow> vote list \<Rightarrow> unit node_op" where
  "publish_vote C I n h votes =
     (case find (\<lambda>v. vote_verifying_key v = ci_verifying_key I) votes of
        Some v \<Rightarrow> send (BroadcastVote v)
      | None \<Rightarrow>
         let data = \<lparr>vsp_block_number = bh_block_number h, vsp_epoch = bh_epoch h, vsp_block_hash = bh_block_hash h,
                     vsp_cluster_address = ci_cluster_address I, vsp_vote = True\<rparr> in
         case x_json (cp_ext C) (SignVote data) of
           None \<Rightarrow> fail (Failed ''Unable to sign the vote'')
         | Some j \<Rightarrow>
            let v = \<lparr>vote_data = data, vote_validator_address = ci_node_address I,
                     vote_signature = ci_sign I (x_sha256 (cp_ext C) j), vote_verifying_key = ci_verifying_key I\<rparr> in
            and_then (modify (update_pending n (\<lambda>pb. pb\<lparr>pb_votes := pb_votes pb @ [v]\<rparr>))) (\<lambda>_.
              send (BroadcastVote v)))"

fun first_passed ::
  "vote_ext \<Rightarrow> validator list \<Rightarrow> runtime_caches \<Rightarrow> vote_result list \<Rightarrow> error + vote_result option" where
  "first_passed V validators c [] = Inr None"
| "first_passed V validators c (r # rs) =
     res_then (is_vote_result_passed V r validators c) (\<lambda>passed.
       if passed then Inr (Some r) else first_passed V validators c rs)"

definition epoch_change :: "consensus_params \<Rightarrow> block_header \<Rightarrow> unit node_op" where
  "epoch_change C h =
     (let e = calculate_current_epoch (bh_block_number h + 1) in
      if bh_epoch h < e
      then and_then (asks (\<lambda>w. fst (pg_block_head_header (cp_store C) (bh_cluster_address h) (bw_blocks (sw_chain w)))))
             (\<lambda>head s. case on_selection (select_and_store_validators_and_proposer (cp_select C) (cp_tables C) (cp_ext C)
                               e head) s of
                (Inl err, s') \<Rightarrow>
                  (Inl (FailedWith ''Unable to select new block proposer or validators'' err), s')
              | (Inr _, s') \<Rightarrow> (Inr (), s'))
      else ok ())"

definition execute_stored :: "consensus_params \<Rightarrow> block \<Rightarrow> bytes list node_op" where
  "execute_stored C blk =
     and_then (send_removals (blk_transactions blk)) (\<lambda>_.
     and_then (on_chain (execute_block (cp_chain C) (cp_block C) blk)) (\<lambda>events.
     and_then (broadcast_events events) (\<lambda>_. ok events)))"

definition finalize_block :: "consensus_params \<Rightarrow> block \<Rightarrow> vote_result \<Rightarrow> bytes list node_op" where
  "finalize_block C blk r =
     and_then (epoch_change C (blk_header blk)) (\<lambda>_.
     and_then (on_tables (pg_store_vote_result (cp_tables C) r)) (\<lambda>_.
     and_then (on_chain (on_blocks (pg_store_block (cp_store C) (cp_now C) blk))) (\<lambda>_.
       execute_stored C blk)))"

definition reached_max_height :: "runtime_config \<Rightarrow> block_number \<Rightarrow> bool" where
  "reached_max_height rc n = (case rc_max_block_height rc of None \<Rightarrow> False | Some limit \<Rightarrow> ucast limit \<le> n)"

definition pending_try_to_finalize ::
  "consensus_params \<Rightarrow> node_identity \<Rightarrow> block_number \<Rightarrow> pending_block \<Rightarrow> bytes list node_op" where
  "pending_try_to_finalize C I n pb =
     (case pb_block pb of
        None \<Rightarrow> fail (Failed ''Block is not set'')
      | Some p \<Rightarrow>
         let blk = bp_block p; h = blk_header blk in
         and_then (asks (\<lambda>w. fst (config_get (bw_caches (sw_chain w))))) (\<lambda>rc.
         and_then (require (\<not> reached_max_height rc (bh_block_number h))
           (Failed ''Blockchain has reached the configured stopping block number'')) (\<lambda>_.
         and_then (asks (check_proposed_block C (ci_cluster_address I) rc p)) (\<lambda>_.
         and_then (asks (\<lambda>w. fst (pg_load_all_validators (cp_tables C) (bh_epoch h) (sw_tables w)))) (\<lambda>loaded.
         and_then (ok_or loaded (Failed ''No validators selected for this epoch'')) (\<lambda>validators.
         and_then (asks (\<lambda>_. account_address (cp_ext C) (ci_verifying_key I))) (\<lambda>me.
         and_then (asks (\<lambda>w. fst (pg_is_validator (ci_node_address I) (bh_epoch h) (sw_tables w)))) (\<lambda>validating.
         and_then (asks (\<lambda>w. is_block_proposer \<lparr>bpr_cluster_address = bh_cluster_address h,
           bpr_epoch = bh_epoch h, bpr_address = me\<rparr> (sw_tables w))) (\<lambda>proposing.
         and_then (if validating \<and> \<not> proposing then publish_vote C I n h (pb_votes pb) else ok ()) (\<lambda>_.
         and_then (asks (\<lambda>w. validate_vote_results C pb (sw_tables w))) (\<lambda>_.
         and_then (asks (\<lambda>w. first_passed (cp_votes C) validators (bw_caches (sw_chain w)) (pb_vote_results pb)))
           (\<lambda>passed.
           case passed of
             None \<Rightarrow> fail (Failed ''Noone vote result is passed'')
           | Some r \<Rightarrow> finalize_block C blk r))))))))))))"

definition query_missed_block :: "consensus_params \<Rightarrow> node_identity \<Rightarrow> unit node_op" where
  "query_missed_block C I =
     and_then (asks (\<lambda>w. fst (pg_block_head_header (cp_store C) (ci_cluster_address I) (bw_blocks (sw_chain w))))) (\<lambda>head.
     and_then (ok_or (checked_add (bh_block_number head) 1)
       (Failed ''Arithmetic Overflow | Reached block number limit'')) (\<lambda>n.
     and_then (asks (\<lambda>w. case ci_boot_peer I of
         Some peer \<Rightarrow> peer
       | None \<Rightarrow>
          res_then (fst (pg_load_all_validators (cp_tables C) (calculate_current_epoch n) (sw_tables w))) (\<lambda>loaded.
            case loaded of
              None \<Rightarrow> Inl (Failed ''No validators selected for this epoch'')
            | Some vs \<Rightarrow>
               (case List.map_filter (\<lambda>v. if val_address v = ci_node_address I then None
                        else case fst (pg_load_node_info (val_address v) (sw_tables w)) of
                               Inl _ \<Rightarrow> None | Inr info \<Rightarrow> cp_peer_id C (ni_peer_id info)) vs of
                  [] \<Rightarrow> Inl (Failed ''No valid peer ID found for validators'')
                | peer # _ \<Rightarrow> Inr peer)))) (\<lambda>peer.
       send (BroadcastQueryBlockRequest \<lparr>qb_block_number = n, qb_cluster_address = ci_cluster_address I\<rparr> peer))))"

definition QUERY_BLOCK_THRESHOLD :: nat where
  "QUERY_BLOCK_THRESHOLD = 3"

text \<open>
  A panic unwinds through the context that the callers add to an error. A panic during the execution of
  a block does not: it ends the thread of \<^verbatim>\<open>execute_block\<close>, which rolls the tables back and returns an error
  like any other.
\<close>

fun panics :: "error \<Rightarrow> bool" where
  "panics Panic = True"
| "panics (FailedWith msg e) = (msg \<noteq> ''Execute Block error'' \<and> panics e)"
| "panics _ = False"

text \<open>
  The pending blocks are tried in the order of their numbers, up to the first one that cannot be
  finalized. A panic ends the task.
\<close>

fun finalize_in_order ::
  "consensus_params \<Rightarrow> node_identity \<Rightarrow> block_number list \<Rightarrow> node_state \<Rightarrow> (error + block_number list) \<times> node_state" where
  "finalize_in_order C I [] s = (Inr [], s)"
| "finalize_in_order C I (n # ns) s =
     (if fst (pg_is_block_executed n (ci_cluster_address I) (bw_blocks (sw_chain (ns_world s)))) = Inr True
      then and_then (finalize_in_order C I ns) (\<lambda>rest. ok (n # rest)) s
      else case ns_pending s n of
             None \<Rightarrow> (Inr [], s)
           | Some pb \<Rightarrow>
              (case pending_try_to_finalize C I n pb s of
                 (Inr _, s') \<Rightarrow> and_then (finalize_in_order C I ns) (\<lambda>rest. ok (n # rest)) s'
               | (Inl err, s') \<Rightarrow> (if panics err then Inl Panic else Inr [], s')))"

definition try_to_finalize :: "consensus_params \<Rightarrow> node_identity \<Rightarrow> unit node_op" where
  "try_to_finalize C I = (\<lambda>s.
     if ns_pending s = Map.empty then (Inr (), s)
     else
       and_then (finalize_in_order C I (sorted_list_of_set (dom (ns_pending s)))) (\<lambda>finalized.
       and_then (modify (\<lambda>s. s\<lparr>ns_pending := ns_pending s |` (- set finalized)\<rparr>)) (\<lambda>_ s.
         if QUERY_BLOCK_THRESHOLD < card (dom (ns_pending s)) then query_missed_block C I s else (Inr (), s))) s)"

section \<open>Handlers\<close>

definition receive_node_info :: "consensus_params \<Rightarrow> node_info \<Rightarrow> unit node_op" where
  "receive_node_info C info =
     and_then (require (length (ni_signature info) = 64 \<and> length (ni_verifying_key info) = 33 \<and>
         cp_verify_node_info C (ni_data info) (ni_verifying_key info) (ni_signature info))
       (Failed ''NodeInfo'')) (\<lambda>_.
     and_then (send (BroadcastNodeInfo info)) (\<lambda>_.
       on_tables (pg_upsert_node_info info)))"

definition authorized_proposer :: "address \<Rightarrow> epoch \<Rightarrow> selection_world \<Rightarrow> error + address" where
  "authorized_proposer cluster e w =
     res_then (fst (pg_load_block_proposer cluster e (sw_tables w))) (\<lambda>loaded.
       case loaded of None \<Rightarrow> Inl (Failed ''No authorized proposer for epoch'') | Some p \<Rightarrow> Inr (bpr_address p))"

definition is_executed :: "address \<Rightarrow> block_number \<Rightarrow> selection_world \<Rightarrow> bool" where
  "is_executed cluster n w \<longleftrightarrow> fst (pg_is_block_executed n cluster (bw_blocks (sw_chain w))) = Inr True"

definition receive_validate_block :: "consensus_params \<Rightarrow> node_identity \<Rightarrow> block_payload \<Rightarrow> unit node_op" where
  "receive_validate_block C I p =
     (let h = blk_header (bp_block p) in
      and_then (asks (authorized_proposer (ci_cluster_address I) (bh_epoch h))) (\<lambda>proposer.
      and_then (asks (\<lambda>_. account_address (cp_ext C) (bp_verifying_key p))) (\<lambda>a.
      and_then (require (a = proposer) (Failed ''Block from unauthorized proposer'')) (\<lambda>_ s.
        if is_executed (ci_cluster_address I) (bh_block_number h) (ns_world s)
        then send (BroadcastValidateBlock p) s
        else
          and_then (add_block p) (\<lambda>_.
          and_then (send (BroadcastValidateBlock (p\<lparr>bp_sender := ci_node_address I\<rparr>))) (\<lambda>_.
            try_to_finalize C I)) s))))"

definition block_proposer_payload_valid :: "consensus_params \<Rightarrow> block_proposer_payload \<Rightarrow> bool" where
  "block_proposer_payload_valid C p \<longleftrightarrow>
     length (bpp_signature p) = 64 \<and> length (bpp_verifying_key p) = 32 \<and>
     cp_verify_proposers C (bpp_cluster_block_proposers p) (bpp_verifying_key p) (bpp_signature p)"

definition receive_block_proposer ::
  "consensus_params \<Rightarrow> node_identity \<Rightarrow> block_proposer_payload \<Rightarrow> unit node_op" where
  "receive_block_proposer C I p =
     and_then (require (block_proposer_payload_valid C p) (Failed ''BlockProposerPayload'')) (\<lambda>_.
     and_then (on_tables (pg_store_block_proposers (bpp_cluster_block_proposers p))) (\<lambda>_.
       if ci_multinode_mode I
       then send (BroadcastBlockProposer (p\<lparr>bpp_sender := ci_node_address I\<rparr>)) else ok ()))"

text \<open>The result of the last attempt to finalize is ignored here, unless it panics.\<close>

definition receive_vote :: "consensus_params \<Rightarrow> node_identity \<Rightarrow> vote \<Rightarrow> unit node_op" where
  "receive_vote C I v =
     (let n = vsp_block_number (vote_data v); e = vsp_epoch (vote_data v) in
      and_then (asks (\<lambda>_. account_address (cp_ext C) (ci_verifying_key I))) (\<lambda>me.
      and_then (asks (\<lambda>w. is_block_proposer \<lparr>bpr_cluster_address = vsp_cluster_address (vote_data v),
          bpr_epoch = e, bpr_address = me\<rparr> (sw_tables w))) (\<lambda>proposing s.
        if \<not> proposing \<or> ns_pending s n = None \<and> is_executed (ci_cluster_address I) n (ns_world s)
        then (Inr (), s)
        else
          and_then (add_vote v) (\<lambda>_.
          and_then (asks (\<lambda>w. fst (pg_load_all_validators (cp_tables C) e (sw_tables w)))) (\<lambda>loaded.
          and_then (ok_or loaded (Failed ''No validators selected for this epoch'')) (\<lambda>validators.
          and_then (try_to_vote_result C I n me validators) (\<lambda>r.
          and_then (add_vote_result r) (\<lambda>_.
            if \<not> ci_multinode_mode I then ok ()
            else
              and_then (send (BroadcastVoteResult r)) (\<lambda>_.
              and_then (send (BroadcastVote v)) (\<lambda>_ s.
                case try_to_finalize C I s of
                  (Inl err, s') \<Rightarrow> (if panics err then Inl err else Inr (), s')
                | (Inr _, s') \<Rightarrow> (Inr (), s')))))))) s)))"

definition receive_vote_result :: "consensus_params \<Rightarrow> node_identity \<Rightarrow> vote_result \<Rightarrow> unit node_op" where
  "receive_vote_result C I r =
     and_then (add_vote_result r) (\<lambda>_.
     and_then (try_to_finalize C I) (\<lambda>_.
       if ci_multinode_mode I then send (BroadcastVoteResult r) else ok ()))"

definition receive_block ::
  "consensus_params \<Rightarrow> node_identity \<Rightarrow> block_payload \<Rightarrow> vote_result option \<Rightarrow> unit node_op" where
  "receive_block C I p result =
     (let blk = bp_block p in
      and_then (asks (\<lambda>w. fst (pg_is_block_executed (bh_block_number (blk_header blk)) (ci_cluster_address I)
          (bw_blocks (sw_chain w))))) (\<lambda>executed s.
        if executed then (Inr (), s)
        else case validate_block (cp_validate C) p (sw_chain (ns_world s)) (ci_cluster_address I) (bp_sender p) of
          Inl err \<Rightarrow> (if panics err then Inl err else Inr (), s)
        | Inr _ \<Rightarrow>
            and_then (on_chain (on_blocks (pg_store_block (cp_store C) (cp_now C) blk))) (\<lambda>_.
            and_then (case result of
                None \<Rightarrow> ok ()
              | Some r \<Rightarrow>
                  and_then (asks (\<lambda>w. validate_vote_result (cp_ext C) r blk (sw_tables w))) (\<lambda>_.
                    on_tables (pg_store_vote_result (cp_tables C) r))) (\<lambda>_.
            and_then (execute_stored C blk) (\<lambda>_.
              try_to_finalize C I))) s))"

definition handle_query_block_request ::
  "consensus_params \<Rightarrow> node_identity \<Rightarrow> query_block_message \<Rightarrow> selection_world \<Rightarrow> l1x_response" where
  "handle_query_block_request C I q w =
     (let blocks = bw_blocks (sw_chain w) in
      case fst (pg_load_block (cp_store C) (qb_block_number q) (qb_cluster_address q) blocks) of
        Inl err \<Rightarrow> QueryBlockError err
      | Inr blk \<Rightarrow>
         (case res_then (case cp_sign_json C blk of
                  None \<Rightarrow> Inl (Failed ''serde_json'') | Some sig \<Rightarrow> Inr sig) (\<lambda>sig.
               res_then (fst (pg_is_block_executed (qb_block_number q) (qb_cluster_address q) blocks)) (\<lambda>final.
               res_then (if is_system_block blk then Inr None
                         else res_then (fst (pg_load_vote_result (cp_tables C) (bh_block_hash (blk_header blk))
                                (sw_tables w))) (\<lambda>r. Inr (Some r))) (\<lambda>r.
               res_then (account_address (cp_ext C) (ci_verifying_key I)) (\<lambda>me.
                 Inr (QueryBlock \<lparr>bp_block = blk, bp_signature = sig, bp_verifying_key = ci_verifying_key I,
                                  bp_sender = me\<rparr> final r))))) of
            Inl err \<Rightarrow> QueryBlockError err
          | Inr response \<Rightarrow> response))"

definition add_and_broadcast_block :: "consensus_params \<Rightarrow> node_identity \<Rightarrow> block_payload \<Rightarrow> unit node_op" where
  "add_and_broadcast_block C I p =
     (let h = blk_header (bp_block p); n = bh_block_number h in
      and_then (asks (authorized_proposer (ci_cluster_address I) (bh_epoch h))) (\<lambda>proposer.
      and_then (require (proposer = ci_node_address I) (Failed ''Node is not an authorized block proposer'')) (\<lambda>_.
      and_then (asks (\<lambda>w. fst (pg_is_block_header_stored n (bw_blocks (sw_chain w))))) (\<lambda>stored.
      and_then (require (\<not> stored) (Failed ''Block is already stored'')) (\<lambda>_ s.
        if ns_pending s \<noteq> Map.empty \<and> ns_pending s (n - 1) = None
        then (Inl (Failed ''Cannot add block because previous block is not yet finalized''), s)
        else
          and_then (case ns_pending s n of
              None \<Rightarrow> ok ()
            | Some pb \<Rightarrow>
                and_then (asks (\<lambda>_. account_address (cp_ext C) (bp_verifying_key p))) (\<lambda>a.
                and_then (ok_or (pb_block pb) (Failed ''Failed to get block from the pending block'')) (\<lambda>old.
                and_then (asks (\<lambda>_. account_address (cp_ext C) (bp_verifying_key old))) (\<lambda>b.
                  if a = b
                  then and_then (send (BroadcastValidateBlock old)) (\<lambda>_.
                       and_then (case find (\<lambda>v. vote_verifying_key v = bp_verifying_key p) (pb_votes pb) of
                                   Some v \<Rightarrow> send (BroadcastVote v) | None \<Rightarrow> ok ()) (\<lambda>_.
                         fail (Failed ''Block already present in pending list'')))
                  else if bh_block_hash (blk_header (bp_block old)) \<noteq> bh_block_hash h
                  then and_then (remove_block n) (\<lambda>_. fail (Failed ''Conflicting block hash detected''))
                  else ok ())))) (\<lambda>_.
            let data = \<lparr>vsp_block_number = n, vsp_epoch = bh_epoch h, vsp_block_hash = bh_block_hash h,
                        vsp_cluster_address = ci_cluster_address I, vsp_vote = True\<rparr> in
            case x_json (cp_ext C) (SignVote data) of
              None \<Rightarrow> fail (Failed ''Unable to sign the vote'')
            | Some j \<Rightarrow>
                and_then (send (BroadcastValidateBlock p)) (\<lambda>_.
                and_then (add_vote \<lparr>vote_data = data, vote_validator_address = ci_node_address I,
                    vote_signature = ci_sign I (x_sha256 (cp_ext C) j), vote_verifying_key = ci_verifying_key I\<rparr>) (\<lambda>_.
                  add_block p))) s)))))"

section \<open>Handlers of health messages\<close>

definition receive_node_health :: "consensus_params \<Rightarrow> node_identity \<Rightarrow> node_health list \<Rightarrow> unit node_op" where
  "receive_node_health C I reports =
     and_then (send (BroadcastNodeHealth reports)) (\<lambda>_.
       case reports of
         [] \<Rightarrow> fail (Failed ''No node health data received'')
       | first # _ \<Rightarrow>
          and_then (asks (authorized_proposer (ci_cluster_address I) (nh_epoch first))) (\<lambda>proposer.
            if proposer = ci_node_address I
            then modify (\<lambda>s. s\<lparr>ns_reports := fold (\<lambda>h. map_push (nh_measured_peer_id h) h) reports (ns_reports s)\<rparr>)
            else ok ()))"

definition receive_signed_node_health :: "consensus_params \<Rightarrow> node_health_payload list \<Rightarrow> unit node_op" where
  "receive_signed_node_health C ps =
     and_then (send (BroadcastSignedNodeHealth ps)) (\<lambda>_.
       for_each (\<lambda>p.
         if cp_verify_health C (nhp_node_health p) (nhp_verifying_key p) (nhp_signature p)
         then on_health (pg_create_node_health (nhp_node_health p)) else ok ()) ps)"

definition store_aggregates :: "consensus_params \<Rightarrow> (bytes \<rightharpoonup> node_health) \<Rightarrow> unit node_op" where
  "store_aggregates C m =
     for_each (\<lambda>peer. case m peer of
         None \<Rightarrow> ok ()
       | Some h \<Rightarrow> if cp_sign_health C h = None then fail (Failed ''serde_json'')
                   else on_health (pg_create_node_health h)) (cp_peers C (dom m))"

definition signed_aggregates ::
  "consensus_params \<Rightarrow> node_identity \<Rightarrow> (bytes \<rightharpoonup> node_health) \<Rightarrow> node_health_payload list" where
  "signed_aggregates C I m =
     List.map_filter (\<lambda>peer. Option.bind (m peer) (\<lambda>h. map_option (\<lambda>sig.
         \<lparr>nhp_node_health = h, nhp_signature = sig, nhp_verifying_key = ci_verifying_key I,
          nhp_sender = ci_node_address I\<rparr>) (cp_sign_health C h))) (cp_peers C (dom m))"

definition aggregate_and_broadcast_node_health ::
  "consensus_params \<Rightarrow> node_identity \<Rightarrow> epoch \<Rightarrow> unit node_op" where
  "aggregate_and_broadcast_node_health C I e =
     and_then (asks (authorized_proposer (ci_cluster_address I) e)) (\<lambda>proposer s.
       if proposer \<noteq> ci_node_address I then (Inr (), s)
       else
         let m = aggregate_network_health (cp_health C) (ns_reports s) in
         and_then (store_aggregates C m) (\<lambda>_.
           if ci_multinode_mode I then send (BroadcastSignedNodeHealth (signed_aggregates C I m)) else ok ())
           (s\<lparr>ns_reports := Map.empty\<rparr>))"

definition on_checks :: "(real_time_checks, error, 'a) op \<Rightarrow> 'a node_op" where
  "on_checks m = (\<lambda>s. case m (ns_checks s) of (r, c) \<Rightarrow> (r, s\<lparr>ns_checks := c\<rparr>))"

fun health_reports ::
  "consensus_params \<Rightarrow> node_identity \<Rightarrow> epoch \<Rightarrow> bool \<Rightarrow> bytes list \<Rightarrow> node_health list node_op" where
  "health_reports C I e proposing [] = ok []"
| "health_reports C I e proposing (peer # peers) = (\<lambda>s.
     case on_checks (create_health_report (cp_health C) peer (ci_peer_id I) e (ci_joined_epoch I)) s of
       (Inl _, s') \<Rightarrow> health_reports C I e proposing peers s'
     | (Inr h, s') \<Rightarrow>
         and_then (health_reports C I e proposing peers) (\<lambda>reports. ok (h # reports))
           (if proposing then s'\<lparr>ns_reports := map_push peer h (ns_reports s')\<rparr> else s'))"

definition process_health_update :: "consensus_params \<Rightarrow> node_identity \<Rightarrow> epoch \<Rightarrow> unit node_op" where
  "process_health_update C I e = (\<lambda>s.
     let checks = rtc_online_checks (ns_checks s);
         peers = cp_peers C (dom checks);
         longest = fold max (map (\<lambda>peer. length (the (checks peer))) peers) 0 in
     if longest \<le> 1 then (Inl (Failed ''Insufficient data for processing''), s)
     else
       and_then (modify (\<lambda>s. s\<lparr>ns_checks := ns_checks s\<lparr>rtc_online_checks :=
           (\<lambda>peer. map_option (pad_checks (longest - 1)) (checks peer))\<rparr>\<rparr>)) (\<lambda>_.
       and_then (asks (\<lambda>w. is_block_proposer \<lparr>bpr_cluster_address = ci_cluster_address I, bpr_epoch = e,
           bpr_address = ci_node_address I\<rparr> (sw_tables w))) (\<lambda>proposing.
       and_then (health_reports C I e proposing peers) (\<lambda>reports.
       and_then (send (BroadcastNodeHealth reports)) (\<lambda>_.
         modify (\<lambda>s. s\<lparr>ns_checks := clear_checks (ns_checks s)\<rparr>))))) s)"

definition request_node_status :: "consensus_params \<Rightarrow> unit node_op" where
  "request_node_status C = (\<lambda>s.
     for_each (\<lambda>peer. case cp_peer_id C peer of
         None \<Rightarrow> ok ()
       | Some p \<Rightarrow> send (BroadcastQueryNodeStatusRequest (cp_now C) p)) (snd (rtc_eligible_peers (ns_checks s))) s)"

section \<open>The loop of the node\<close>

datatype network_message =
    ReceiveNodeInfo node_info
  | ReceiveValidateBlock block_payload
  | ReceiveBlockProposer block_proposer_payload
  | ReceiveVote vote
  | ReceiveVoteResult vote_result
  | ReceiveQueryBlockResponse block_payload "vote_result option"
  | ReceiveQueryBlockRequest query_block_message
  | AggregateNodeHealth epoch
  | ProcessNodeHealth epoch
  | ReceiveNodeHealth "node_health list"
  | ReceiveAggregatedNodeHealth "node_health_payload list"
  | PingResult bytes bool "64 word"
  | PingEligiblePeers epoch "bytes list"
  | CheckNodeStatus
  | AddBlock block_payload

fun handle_network_event :: "consensus_params \<Rightarrow> node_identity \<Rightarrow> network_message \<Rightarrow> unit node_op" where
  "handle_network_event C I (ReceiveNodeInfo info) = receive_node_info C info"
| "handle_network_event C I (ReceiveValidateBlock p) = receive_validate_block C I p"
| "handle_network_event C I (ReceiveBlockProposer p) = receive_block_proposer C I p"
| "handle_network_event C I (ReceiveVote v) = receive_vote C I v"
| "handle_network_event C I (ReceiveVoteResult r) = receive_vote_result C I r"
| "handle_network_event C I (ReceiveQueryBlockResponse p r) = receive_block C I p r"
| "handle_network_event C I (ReceiveQueryBlockRequest q) = (\<lambda>s.
     send (BroadcastQueryBlockResponse (handle_query_block_request C I q (ns_world s))) s)"
| "handle_network_event C I (AggregateNodeHealth e) = aggregate_and_broadcast_node_health C I e"
| "handle_network_event C I (ProcessNodeHealth e) = process_health_update C I e"
| "handle_network_event C I (ReceiveNodeHealth reports) = receive_node_health C I reports"
| "handle_network_event C I (ReceiveAggregatedNodeHealth ps) = receive_signed_node_health C ps"
| "handle_network_event C I (PingResult peer success rtt) =
     modify (\<lambda>s. s\<lparr>ns_checks := add_check peer success rtt (ns_checks s)\<rparr>)"
| "handle_network_event C I (PingEligiblePeers e peers) =
     modify (\<lambda>s. s\<lparr>ns_checks := update_eligible_peers e peers (ns_checks s)\<rparr>)"
| "handle_network_event C I CheckNodeStatus = request_node_status C"
| "handle_network_event C I (AddBlock p) = add_and_broadcast_block C I p"

text \<open>An error is logged and the loop goes on; a panic ends it.\<close>

fun receive_network :: "consensus_params \<Rightarrow> node_identity \<Rightarrow> network_message list \<Rightarrow> node_state \<Rightarrow> node_state" where
  "receive_network C I [] s = s"
| "receive_network C I (m # ms) s =
     (case handle_network_event C I m s of
        (Inl err, s') \<Rightarrow> if panics err then s' else receive_network C I ms s'
      | (Inr _, s') \<Rightarrow> receive_network C I ms s')"

section \<open>Messages that leave the blocks alone\<close>

definition quiet :: "node_state \<Rightarrow> node_state \<Rightarrow> bool" where
  "quiet s t \<longleftrightarrow> sw_chain (ns_world t) = sw_chain (ns_world s) \<and> ns_pending t = ns_pending s"

interpretation qt: frame quiet
  by unfold_locales (auto simp: quiet_def)

lemma quiet_leaves:
  "keeps quiet (asks f)" "keeps quiet (on_tables d)" "keeps quiet (on_health m)" "keeps quiet (on_checks c)"
  "keeps quiet (send msg)" "keeps quiet (send_removals txs)" "keeps quiet (broadcast_events es)"
  "keeps quiet (modify (\<lambda>s. s\<lparr>ns_reports := g s\<rparr>))" "keeps quiet (modify (\<lambda>s. s\<lparr>ns_checks := h s\<rparr>))"
  "keeps quiet (on_selection (select_and_store_validators_and_proposer Z E X e head))"
  by (auto simp: keeps_def quiet_def asks_def on_tables_def on_health_def on_checks_def send_def send_removals_def
      broadcast_events_def modify_def on_selection_def select_and_store_validators_and_proposer_def
      split: prod.splits sum.splits)

lemma quiet_messages:
  "keeps quiet (receive_node_info C info)"
  "keeps quiet (receive_block_proposer C I bp)"
  "keeps quiet (receive_signed_node_health C ps)"
  unfolding receive_node_info_def receive_block_proposer_def receive_signed_node_health_def
  by (intro qt.keeps_rules quiet_leaves)+

lemma quiet_node_health: "keeps quiet (receive_node_health C I reports)"
  unfolding receive_node_health_def
  by (cases reports) (simp_all, (intro qt.keeps_rules quiet_leaves)+)

lemma quiet_aggregate: "keeps quiet (aggregate_and_broadcast_node_health C I e)"
proof -
  have stored: "keeps quiet (store_aggregates C m)" for m
    unfolding store_aggregates_def by (intro qt.keeps_rules quiet_leaves)
  have drop: "quiet s (snd (m (s\<lparr>ns_reports := f\<rparr>)))" if "keeps quiet m" for s f and m :: "unit node_op"
    using keeps_snd [OF that, of "s\<lparr>ns_reports := f\<rparr>"] by (simp add: quiet_def)
  have "keeps quiet (\<lambda>s. if proposer \<noteq> ci_node_address I then (Inr (), s)
      else let m = aggregate_network_health (cp_health C) (ns_reports s) in
        and_then (store_aggregates C m) (\<lambda>_. if ci_multinode_mode I
          then send (BroadcastSignedNodeHealth (signed_aggregates C I m)) else ok ())
        (s\<lparr>ns_reports := Map.empty\<rparr>))" for proposer
    unfolding keeps_def Let_def
    by (auto simp only: snd_conv qt.frame_refl split: if_split intro!: drop qt.keeps_rules quiet_leaves stored)
  then show ?thesis
    unfolding aggregate_and_broadcast_node_health_def by (intro qt.keeps_rules quiet_leaves)
qed

lemma quiet_reports: "keeps quiet (health_reports C I e proposing peers)"
proof (rule keepsI)
  show "quiet s t" if "health_reports C I e proposing peers s = (r, t)" for s r t
    using that
    by (induction peers arbitrary: s r t)
      (auto simp: quiet_def ok_def on_checks_def and_then_def split: prod.splits sum.splits if_splits)
qed

lemma quiet_process: "keeps quiet (process_health_update C I e)"
proof -
  have "keeps quiet (and_then (modify (\<lambda>s. s\<lparr>ns_checks := f s\<rparr>)) (\<lambda>_.
      and_then (asks g) (\<lambda>proposing.
      and_then (health_reports C I e proposing peers) (\<lambda>reports.
      and_then (send (BroadcastNodeHealth reports)) (\<lambda>_. modify (\<lambda>s. s\<lparr>ns_checks := clear_checks (ns_checks s)\<rparr>))))))"
    for f g peers
    by (intro qt.keeps_rules quiet_leaves quiet_reports)
  note run = keeps_snd [OF this]
  show ?thesis
    unfolding keeps_def process_health_update_def Let_def
    by (auto simp only: snd_conv qt.frame_refl split: if_split intro!: run)
qed

lemma quiet_status: "keeps quiet (request_node_status C)"
proof -
  have "keeps quiet (for_each (\<lambda>peer. case cp_peer_id C peer of None \<Rightarrow> ok ()
      | Some p \<Rightarrow> send (BroadcastQueryNodeStatusRequest (cp_now C) p)) peers)" for peers
    by (intro qt.keeps_rules quiet_leaves)
  then show ?thesis by (simp add: request_node_status_def keeps_def)
qed

lemma quiet_answer: "keeps quiet (\<lambda>s. send (f s) s)"
  by (simp add: keeps_def quiet_def send_def modify_def)

lemma quiet_query: "keeps quiet (query_missed_block C I)"
  unfolding query_missed_block_def by (intro qt.keeps_rules quiet_leaves)

lemma quiet_epoch_change: "keeps quiet (epoch_change C h)"
proof -
  have "keeps quiet (\<lambda>s. case on_selection (select_and_store_validators_and_proposer Z E X e head) s of
      (Inl err, s') \<Rightarrow> (Inl (g err), s') | (Inr _, s') \<Rightarrow> (Inr (), s'))" for Z E X e head g
    using quiet_leaves(10) [of Z E X e head]
    by (auto simp: keeps_def split: prod.splits sum.splits) (metis snd_conv)+
  then show ?thesis unfolding epoch_change_def Let_def by (intro qt.keeps_rules quiet_leaves)
qed

lemma quiet_vote_result: "keeps quiet (try_to_vote_result C I n me validators)"
  by (simp add: try_to_vote_result_def keeps_def qt.frame_refl)

lemmas quiet_handlers =
  quiet_leaves quiet_messages quiet_node_health quiet_aggregate quiet_process quiet_status quiet_answer
  quiet_query quiet_epoch_change quiet_vote_result

section \<open>What every message keeps of the chain\<close>

definition chain_rel :: "(block_world \<Rightarrow> block_world \<Rightarrow> bool) \<Rightarrow> node_state \<Rightarrow> node_state \<Rightarrow> bool" where
  "chain_rel Q s t \<longleftrightarrow> Q (sw_chain (ns_world s)) (sw_chain (ns_world t))"

text \<open>
  The chain of a node changes only when a block is stored and when a block is executed: a reflexive and
  transitive relation that these two keep is kept by every handler.
\<close>

locale chain_frame =
  fixes C :: consensus_params and Q :: "block_world \<Rightarrow> block_world \<Rightarrow> bool"
  assumes chain_refl: "Q w w"
    and chain_trans: "Q u v \<Longrightarrow> Q v w \<Longrightarrow> Q u w"
    and chain_store: "keeps Q (on_blocks (pg_store_block (cp_store C) (cp_now C) blk))"
    and chain_execute: "keeps Q (execute_block (cp_chain C) (cp_block C) blk)"
begin

lemma rel_frame: "frame (chain_rel Q)"
  by unfold_locales (auto simp: chain_rel_def intro: chain_refl chain_trans)

lemmas rel_rules = frame.keeps_rules [OF rel_frame]

lemma rel_same: "(\<And>s. sw_chain (ns_world (snd (m s))) = sw_chain (ns_world s)) \<Longrightarrow> keeps (chain_rel Q) m"
  by (simp add: keeps_def chain_rel_def chain_refl)

lemma rel_state: "(\<And>t. keeps (chain_rel Q) (\<lambda>s. m t s)) \<Longrightarrow> keeps (chain_rel Q) (\<lambda>s. m s s)"
  by (simp add: keeps_def)

lemma rel_on_chain: "keeps Q m \<Longrightarrow> keeps (chain_rel Q) (on_chain m)"
  by (auto simp: keeps_def chain_rel_def on_chain_def split: prod.splits) (metis snd_conv)

lemma rel_quiet: "keeps quiet m \<Longrightarrow> keeps (chain_rel Q) m"
  by (simp add: keeps_def quiet_def chain_rel_def chain_refl)

lemma rel_pending_changes:
  "keeps (chain_rel Q) (modify (update_pending n g))" "keeps (chain_rel Q) (remove_block n)"
  by (auto intro!: rel_same simp: modify_def update_pending_def remove_block_def)

lemma rel_adds:
  "keeps (chain_rel Q) (add_vote v)" "keeps (chain_rel Q) (add_vote_result r)" "keeps (chain_rel Q) (add_block p)"
  unfolding add_vote_def add_vote_result_def add_block_def by (rule rel_pending_changes)+

lemmas rel_leaves = quiet_handlers [THEN rel_quiet] rel_pending_changes rel_adds

lemma rel_publish_vote: "keeps (chain_rel Q) (publish_vote C I n h votes)"
  unfolding publish_vote_def Let_def by (auto intro!: rel_rules rel_leaves split: option.split)

lemma rel_execute_stored: "keeps (chain_rel Q) (execute_stored C blk)"
  unfolding execute_stored_def by (intro rel_rules rel_leaves rel_on_chain chain_execute)

lemma rel_finalize_block: "keeps (chain_rel Q) (finalize_block C blk r)"
  unfolding finalize_block_def
  by (intro rel_rules rel_leaves rel_execute_stored rel_on_chain chain_store)

lemma rel_pending: "keeps (chain_rel Q) (pending_try_to_finalize C I n pb)"
  unfolding pending_try_to_finalize_def Let_def
  by (intro rel_rules rel_leaves rel_publish_vote rel_finalize_block)

lemma rel_in_order: "keeps (chain_rel Q) (finalize_in_order C I ns)"
proof (induction ns)
  case Nil
  then show ?case by (auto intro: rel_same)
next
  case (Cons n ns)
  have next_: "keeps (chain_rel Q) (and_then (finalize_in_order C I ns) (\<lambda>rest. ok (n # rest)))"
    by (intro rel_rules Cons.IH)
  show ?case
  proof (rule keepsI)
    fix s r t
    assume "finalize_in_order C I (n # ns) s = (r, t)"
    then consider "and_then (finalize_in_order C I ns) (\<lambda>rest. ok (n # rest)) s = (r, t)"
      | "t = s" | pb x u where "pending_try_to_finalize C I n pb s = (x, u)"
          "u = t \<or> and_then (finalize_in_order C I ns) (\<lambda>rest. ok (n # rest)) u = (r, t)"
      by (auto split: if_splits option.splits sum.splits prod.splits)
    then show "chain_rel Q s t"
      using keepsD [OF next_] keepsD [OF rel_pending] frame.frame_refl [OF rel_frame] frame.frame_trans [OF rel_frame]
      by cases blast+
  qed
qed

lemma rel_finalize: "keeps (chain_rel Q) (try_to_finalize C I)"
proof -
  have restrict: "keeps (chain_rel Q) (modify (\<lambda>s. s\<lparr>ns_pending := ns_pending s |` (- A)\<rparr>))" for A
    by (auto intro: rel_same simp: modify_def)
  have query: "keeps (chain_rel Q) (\<lambda>s. if QUERY_BLOCK_THRESHOLD < card (dom (ns_pending s)) then query_missed_block C I s else (Inr (), s))"
    using rel_quiet [OF quiet_query, of C I] frame.frame_refl [OF rel_frame] by (simp add: keeps_def)
  have "keeps (chain_rel Q) (and_then (finalize_in_order C I ns) (\<lambda>finalized.
      and_then (modify (\<lambda>s. s\<lparr>ns_pending := ns_pending s |` (- set finalized)\<rparr>)) (\<lambda>_ s.
        if QUERY_BLOCK_THRESHOLD < card (dom (ns_pending s)) then query_missed_block C I s else (Inr (), s))))" for ns
    by (intro rel_rules rel_in_order restrict query)
  then show ?thesis
    using frame.frame_refl [OF rel_frame] by (simp add: try_to_finalize_def keeps_def)
qed

lemma rel_if_state:
  "keeps (chain_rel Q) m \<Longrightarrow> keeps (chain_rel Q) m' \<Longrightarrow> keeps (chain_rel Q) (\<lambda>s. if P s then m s else m' s)"
  by (simp add: keeps_def)

lemma rel_return: "keeps (chain_rel Q) (\<lambda>s. (r, s))" "keeps (chain_rel Q) (\<lambda>s. (f s, s))"
  by (auto intro: rel_same)

lemma rel_validate_block_handler: "keeps (chain_rel Q) (receive_validate_block C I p)"
  unfolding receive_validate_block_def Let_def
  by (intro rel_rules rel_leaves rel_finalize rel_if_state)

lemma rel_receive_vote: "keeps (chain_rel Q) (receive_vote C I v)"
proof -
  have last_: "keeps (chain_rel Q) (\<lambda>s. case try_to_finalize C I s of
      (Inl err, s') \<Rightarrow> (if panics err then Inl err else Inr (), s') | (Inr _, s') \<Rightarrow> (Inr (), s'))"
    using rel_finalize [of I] by (auto simp: keeps_def split: prod.splits sum.splits) (metis snd_conv)+
  show ?thesis
    unfolding receive_vote_def Let_def
    by (intro rel_rules rel_leaves rel_if_state rel_return last_)
qed

lemma rel_vote_result_handler: "keeps (chain_rel Q) (receive_vote_result C I r)"
  unfolding receive_vote_result_def by (intro rel_rules rel_leaves rel_finalize)

lemma rel_sum_state:
  "keeps (chain_rel Q) m \<Longrightarrow> keeps (chain_rel Q) (\<lambda>s. case f s of Inl err \<Rightarrow> (g err, s) | Inr x \<Rightarrow> m s)"
  by (auto simp: keeps_def frame.frame_refl [OF rel_frame] split: sum.split)

lemma rel_receive_block: "keeps (chain_rel Q) (receive_block C I p result)"
  unfolding receive_block_def Let_def
  by (intro rel_rules rel_leaves rel_if_state rel_return rel_sum_state rel_on_chain chain_store
      rel_execute_stored rel_finalize)

lemma rel_lookup:
  assumes "\<And>pb. keeps (chain_rel Q) (f pb)" and "\<And>x. keeps (chain_rel Q) (k x)"
  shows "keeps (chain_rel Q) (\<lambda>s. and_then (case ns_pending s n of None \<Rightarrow> ok () | Some pb \<Rightarrow> f pb) k s)"
proof -
  have "keeps (chain_rel Q) (and_then (case pb of None \<Rightarrow> ok () | Some pb \<Rightarrow> f pb) k)" for pb
    by (intro rel_rules assms)
  then show ?thesis by (simp add: keeps_def)
qed

lemma rel_add_block: "keeps (chain_rel Q) (add_and_broadcast_block C I p)"
  unfolding add_and_broadcast_block_def Let_def
  by (intro rel_rules rel_leaves rel_if_state rel_return rel_lookup)

lemma rel_event: "keeps (chain_rel Q) (handle_network_event C I msg)"
  by (cases msg)
    (auto intro!: rel_leaves rel_validate_block_handler rel_receive_vote rel_vote_result_handler
      rel_receive_block rel_add_block)

lemma rel_network: "chain_rel Q s (receive_network C I msgs s)"
proof (induction msgs arbitrary: s)
  case Nil
  then show ?case by (simp add: frame.frame_refl [OF rel_frame])
next
  case (Cons msg msgs)
  have "chain_rel Q s (snd (handle_network_event C I msg s))" by (rule keeps_snd [OF rel_event])
  with Cons.IH frame.frame_trans [OF rel_frame] show ?case
    by (auto split: prod.splits sum.splits)
qed

end

section \<open>Finality\<close>

lemma execute_block_failed:
  "execute_block X Y blk w = (Inl e, w') \<Longrightarrow> bw_db w' = bw_db w \<and> bw_blocks w' = bw_blocks w"
  by (auto simp: execute_block_def pg_is_block_executed_def gets_def split: sum.splits prod.splits bool.splits if_splits)

lemma execute_block_tables:
  assumes "execute_block X Y blk w = (r, w')"
  shows "bw_blocks w' = bw_blocks w \<or>
    bw_blocks w' = snd (pg_set_block_executed (bh_block_number (blk_header blk)) (bh_cluster_address (blk_header blk)) (bw_blocks w))"
proof (cases r)
  case (Inl e)
  with assms execute_block_failed show ?thesis by blast
next
  case (Inr events)
  with assms have "execute_block X Y blk w = (Inr events, w')" by simp
  then show ?thesis by (cases rule: execute_block_cases) simp_all
qed

lemma stays_execute_block: "keeps (\<lambda>w w'. stays (bw_blocks w) (bw_blocks w')) (execute_block X Y blk)"
proof (rule keepsI)
  fix w r w'
  assume "execute_block X Y blk w = (r, w')"
  from execute_block_tables [OF this] show "stays (bw_blocks w) (bw_blocks w')"
    using st.frame_refl keeps_snd [OF stays_ops(3)] by metis
qed

interpretation final_blocks: chain_frame C "\<lambda>w w'. stays (bw_blocks w) (bw_blocks w')" for C
proof
  show "stays (bw_blocks w) (bw_blocks w)" for w by (rule st.frame_refl)
  show "stays (bw_blocks u) (bw_blocks w)" if "stays (bw_blocks u) (bw_blocks v)" "stays (bw_blocks v) (bw_blocks w)" for u v w
    using that by (rule st.frame_trans)
  show "keeps (\<lambda>w w'. stays (bw_blocks w) (bw_blocks w')) (on_blocks (pg_store_block (cp_store C) (cp_now C) blk))" for blk
    using stays_store_block by (auto simp: keeps_def on_blocks_def split: prod.splits) (metis snd_conv)
qed (rule stays_execute_block)

text \<open>
  C6: Finality. Whatever messages a node receives, a block it has executed stays executed, and the
  header it has stored under a number stays the header of that number.
\<close>

theorem executed_blocks_are_final:
  "(is_executed c n (ns_world s) \<longrightarrow> is_executed c n (ns_world (receive_network C I msgs s))) \<and>
   (fst (pg_load_block_header S n c (bw_blocks (sw_chain (ns_world s)))) = Inr h \<longrightarrow>
      fst (pg_load_block_header S n c (bw_blocks (sw_chain (ns_world (receive_network C I msgs s))))) = Inr h)"
  using final_blocks.rel_network [of s C I msgs]
  by (auto simp: chain_rel_def stays_def is_executed_def pg_is_block_executed_def gets_def pg_load_block_header_def
      split: option.splits)

section \<open>Only blocks change the ledger\<close>

definition block_run :: "consensus_params \<Rightarrow> database \<Rightarrow> database \<Rightarrow> bool" where
  "block_run C d d' \<longleftrightarrow> (\<exists>blk w events w'. execute_block (cp_chain C) (cp_block C) blk w = (Inr events, w') \<and>
     bw_db w = d \<and> bw_db w' = d')"

interpretation block_runs: chain_frame C "\<lambda>w w'. (block_run C)\<^sup>*\<^sup>* (bw_db w) (bw_db w')" for C
proof
  show "keeps (\<lambda>w w'. (block_run C)\<^sup>*\<^sup>* (bw_db w) (bw_db w')) (on_blocks (pg_store_block (cp_store C) (cp_now C) blk))" for blk
    by (auto simp: keeps_def on_blocks_def split: prod.splits)
  show "keeps (\<lambda>w w'. (block_run C)\<^sup>*\<^sup>* (bw_db w) (bw_db w')) (execute_block (cp_chain C) (cp_block C) blk)" for blk
  proof (rule keepsI)
    fix w r w'
    assume run: "execute_block (cp_chain C) (cp_block C) blk w = (r, w')"
    show "(block_run C)\<^sup>*\<^sup>* (bw_db w) (bw_db w')"
    proof (cases r)
      case (Inl e)
      with execute_block_failed run show ?thesis by auto
    next
      case (Inr events)
      with run have "block_run C (bw_db w) (bw_db w')" unfolding block_run_def by blast
      then show ?thesis by blast
    qed
  qed
qed auto

text \<open>
  C16: Accounts, contracts, their state and stakes change only by executing blocks: whatever messages a
  node receives, its database afterwards is reached from the one before by complete runs of blocks.
\<close>

theorem only_blocks_change_the_ledger:
  "(block_run C)\<^sup>*\<^sup>* (bw_db (sw_chain (ns_world s))) (bw_db (sw_chain (ns_world (receive_network C I msgs s))))"
  using block_runs.rel_network [of C s I msgs] by (simp add: chain_rel_def)

section \<open>What a finalized block has gone through\<close>

lemma and_then_asks:
  "and_then (asks f) k s = (case f (ns_world s) of Inl e \<Rightarrow> (Inl e, s) | Inr x \<Rightarrow> k x s)"
  by (simp add: and_then_def asks_def split: sum.split)

lemma publish_vote_world: "publish_vote C I n h votes s = (r, t) \<Longrightarrow> ns_world t = ns_world s"
  by (auto simp: publish_vote_def Let_def send_def modify_def and_then_def fail_def update_pending_def
      split: option.splits)

lemma first_passed_Some:
  "first_passed V validators c rs = Inr (Some r) \<Longrightarrow> r \<in> set rs \<and> is_vote_result_passed V r validators c = Inr True"
  by (induction rs) (auto split: if_splits)

lemma executed_after_run:
  assumes "execute_block X Y blk w = (Inr events, w')"
    and "t_block_meta_info (bw_blocks w) (bh_cluster_address (blk_header blk), bh_block_number (blk_header blk)) \<noteq> None"
  shows "t_block_meta_info (bw_blocks w') (bh_cluster_address (blk_header blk), bh_block_number (blk_header blk)) =
    Some (Some True)"
  using assms
  by (auto simp: execute_block_def execute_block_inner_def execute_system_block_inner_def commit_block_def
      pg_is_block_executed_def pg_set_block_executed_def gets_def modify_def and_then_def ok_def
      split: sum.splits prod.splits bool.splits if_splits)

lemma store_block_meta:
  assumes "pg_store_block S now blk d = (Inr (), d')"
  shows "t_block_meta_info d' (bh_cluster_address (blk_header blk), bh_block_number (blk_header blk)) \<noteq> None"
proof -
  have "t_block_meta_info (insert_meta k d) k \<noteq> None" for k d by (simp add: insert_meta_def split: option.split)
  moreover obtain d0 where "d' = insert_meta (bh_cluster_address (blk_header blk), bh_block_number (blk_header blk)) d0"
    using assms by (auto simp: pg_store_block_def Let_def op_elims modify_def)
  ultimately show ?thesis by simp
qed

lemma execute_stored_executes:
  assumes "execute_stored C blk s = (Inr events, s')"
    and "t_block_meta_info (bw_blocks (sw_chain (ns_world s))) (bh_cluster_address (blk_header blk), bh_block_number (blk_header blk)) \<noteq> None"
  shows "is_executed (bh_cluster_address (blk_header blk)) (bh_block_number (blk_header blk)) (ns_world s')"
  using assms executed_after_run
  by (auto simp: execute_stored_def send_removals_def broadcast_events_def on_chain_def is_executed_def
      pg_is_block_executed_def gets_def modify_def and_then_def ok_def split: sum.splits prod.splits)

lemma finalize_block_executes:
  assumes "finalize_block C blk r s = (Inr events, s')"
  shows "is_executed (bh_cluster_address (blk_header blk)) (bh_block_number (blk_header blk)) (ns_world s')"
proof -
  from assms obtain t u where "on_chain (on_blocks (pg_store_block (cp_store C) (cp_now C) blk)) t = (Inr (), u)"
    and "execute_stored C blk u = (Inr events, s')"
    by (auto simp: finalize_block_def and_then_def split: sum.splits prod.splits)
  with store_block_meta show ?thesis
    by (intro execute_stored_executes) (auto simp: on_chain_def on_blocks_def split: prod.splits)
qed

text \<open>
  C2: A block that a node finalizes from its pending blocks is below the configured height, signed by
  the proposer the node has on record for its epoch, extends the head of its chain or is that head, and
  one of its vote results passes the vote among the validators of the epoch. After that it is executed.
\<close>

theorem finalized_block_was_voted:
  assumes "pending_try_to_finalize C I n pb s = (Inr events, s')"
  shows "\<exists>p rc a validators r head.
    pb_block pb = Some p \<and> rt_config (bw_caches (sw_chain (ns_world s))) = Some rc \<and>
    \<not> reached_max_height rc (bh_block_number (blk_header (bp_block p))) \<and>
    account_address (cp_ext C) (bp_verifying_key p) = Inr a \<and>
    is_block_proposer \<lparr>bpr_cluster_address = bh_cluster_address (blk_header (bp_block p)),
      bpr_epoch = bh_epoch (blk_header (bp_block p)), bpr_address = a\<rparr> (sw_tables (ns_world s)) = Inr True \<and>
    block_payload_verify_signature (cp_ext C) p = Inr () \<and>
    fst (pg_block_head_header (cp_store C) (ci_cluster_address I) (bw_blocks (sw_chain (ns_world s)))) = Inr head \<and>
    (blk_header (bp_block p) = head \<or> validate_expected_block_fields head (bp_block p) = Inr ()) \<and>
    fst (pg_load_all_validators (cp_tables C) (bh_epoch (blk_header (bp_block p))) (sw_tables (ns_world s))) =
      Inr (Some validators) \<and>
    r \<in> set (pb_vote_results pb) \<and>
    is_vote_result_passed (cp_votes C) r validators (bw_caches (sw_chain (ns_world s))) = Inr True \<and>
    is_executed (bh_cluster_address (blk_header (bp_block p))) (bh_block_number (blk_header (bp_block p))) (ns_world s')"
proof -
  obtain p where p: "pb_block pb = Some p"
    using assms by (auto simp: pending_try_to_finalize_def fail_def split: option.splits)
  let ?h = "blk_header (bp_block p)" and ?w = "ns_world s"
  obtain rc validators me validating proposing t where rc: "fst (config_get (bw_caches (sw_chain ?w))) = Inr rc"
    and height: "\<not> reached_max_height rc (bh_block_number ?h)"
    and check: "check_proposed_block C (ci_cluster_address I) rc p ?w = Inr ()"
    and validators: "fst (pg_load_all_validators (cp_tables C) (bh_epoch ?h) (sw_tables ?w)) = Inr (Some validators)"
    and vote: "(if validating \<and> \<not> proposing then publish_vote C I n ?h (pb_votes pb) else ok ()) s = (Inr (), t)"
    and rest: "and_then (asks (\<lambda>w. validate_vote_results C pb (sw_tables w))) (\<lambda>_.
      and_then (asks (\<lambda>w. first_passed (cp_votes C) validators (bw_caches (sw_chain w)) (pb_vote_results pb)))
        (\<lambda>passed. case passed of None \<Rightarrow> fail (Failed ''Noone vote result is passed'')
          | Some r \<Rightarrow> finalize_block C (bp_block p) r)) t = (Inr events, s')"
    using assms unfolding pending_try_to_finalize_def p option.case Let_def op_elims
    by (auto simp: asks_def require_def ok_or_def ok_def fail_def split: option.splits if_splits)
  have "ns_world t = ?w" using vote publish_vote_world by (auto simp: ok_def split: if_splits)
  with rest obtain r where passed: "first_passed (cp_votes C) validators (bw_caches (sw_chain ?w)) (pb_vote_results pb) = Inr (Some r)"
    and final: "finalize_block C (bp_block p) r t = (Inr events, s')"
    by (auto simp: op_elims asks_def fail_def split: option.splits)
  from check obtain a head where "account_address (cp_ext C) (bp_verifying_key p) = Inr a"
    "is_block_proposer \<lparr>bpr_cluster_address = bh_cluster_address ?h, bpr_epoch = bh_epoch ?h, bpr_address = a\<rparr> (sw_tables ?w) = Inr True"
    "block_payload_verify_signature (cp_ext C) p = Inr ()"
    "fst (pg_block_head_header (cp_store C) (ci_cluster_address I) (bw_blocks (sw_chain ?w))) = Inr head"
    "?h = head \<or> validate_expected_block_fields head (bp_block p) = Inr ()"
    by (auto simp: check_proposed_block_def validate_proposed_block_def Let_def
        validate_block_header_and_transactions_def split: if_splits)
  moreover have "rt_config (bw_caches (sw_chain ?w)) = Some rc"
    using rc by (auto simp: config_get_def split: option.splits)
  ultimately show ?thesis
    using p height validators first_passed_Some [OF passed] finalize_block_executes [OF final] by blast
qed

section \<open>One bad vote result stops the chain\<close>

text \<open>
  \<open>stuck X c n r s\<close>: the vote result \<open>r\<close>, whose signature is bad, waits with the pending block \<open>n\<close>, which
  is not executed; every pending block is filed under its number.
\<close>

definition stuck :: "ext \<Rightarrow> address \<Rightarrow> block_number \<Rightarrow> vote_result \<Rightarrow> node_state \<Rightarrow> bool" where
  "stuck X c n r s \<longleftrightarrow>
     vote_result_verify_signature X r \<noteq> Inr () \<and> \<not> is_executed c n (ns_world s) \<and>
     (\<exists>pb. ns_pending s n = Some pb \<and> r \<in> set (pb_vote_results pb)) \<and>
     (\<forall>m pb p. ns_pending s m = Some pb \<longrightarrow> pb_block pb = Some p \<longrightarrow> bh_block_number (blk_header (bp_block p)) = m)"

lemma stuck_frame: "frame (\<lambda>s t. stuck X c n r s \<longrightarrow> stuck X c n r t)"
  by unfold_locales auto

abbreviation stays_stuck :: "ext \<Rightarrow> address \<Rightarrow> block_number \<Rightarrow> vote_result \<Rightarrow> 'a node_op \<Rightarrow> bool" where
  "stays_stuck X c n r \<equiv> keeps (\<lambda>s t. stuck X c n r s \<longrightarrow> stuck X c n r t)"

lemmas stuck_rules = frame.keeps_rules [OF stuck_frame]

text \<open>Operations that leave the chain alone and only add to the pending blocks.\<close>

lemma stuck_pending:
  assumes "\<And>pb. set (pb_vote_results pb) \<subseteq> set (pb_vote_results (f pb))"
    and "\<And>pb p. pb_block (f pb) = Some p \<Longrightarrow> pb_block pb = Some p \<or> bh_block_number (blk_header (bp_block p)) = m"
  shows "stays_stuck X c n r (modify (update_pending m f))"
  using assms
  by (fastforce simp: keeps_def modify_def stuck_def update_pending_def pending_block_new_def split: option.splits)

lemma stuck_same:
  assumes "\<And>s. is_executed c n (ns_world (snd (op s))) = is_executed c n (ns_world s)"
    and "\<And>s. ns_pending (snd (op s)) = ns_pending s"
  shows "stays_stuck X c n r op"
  using assms by (simp add: keeps_def stuck_def)

lemma stuck_quiet: "keeps quiet m \<Longrightarrow> stays_stuck X c n r m"
  by (simp add: keeps_def quiet_def stuck_def is_executed_def)

lemmas stuck_leaves = quiet_handlers [THEN stuck_quiet]

lemma stuck_adds:
  "stays_stuck X c n r (add_vote v)" "stays_stuck X c n r (add_vote_result q)" "stays_stuck X c n r (add_block p)"
  unfolding add_vote_def add_vote_result_def add_block_def by (intro stuck_pending; auto)+

lemma stuck_publish: "stays_stuck X c n r (publish_vote C I m h votes)"
proof -
  have "stays_stuck X c n r (modify (update_pending m (\<lambda>pb. pb\<lparr>pb_votes := pb_votes pb @ [v]\<rparr>)))" for v
    by (rule stuck_pending) auto
  then show ?thesis
    unfolding publish_vote_def Let_def by (intro stuck_rules stuck_leaves)
qed

text \<open>Storing and executing another block does not execute this one.\<close>

definition same_flags :: "block_tables \<Rightarrow> block_tables \<Rightarrow> bool" where
  "same_flags d d' \<longleftrightarrow> (\<forall>k. t_block_meta_info d' k = Some (Some True) \<longleftrightarrow> t_block_meta_info d k = Some (Some True))"

interpretation flags: frame same_flags
  by unfold_locales (auto simp: same_flags_def)

lemma same_flags_store: "keeps same_flags (pg_store_block S now b)"
proof -
  have inserts: "same_flags d (insert_transaction t d)" "same_flags d (insert_header h d)" "same_flags d (insert_meta k d)" for d t h k
    by (auto simp: same_flags_def insert_transaction_def insert_header_def insert_meta_def split: option.splits)
  have folded: "same_flags d (fold insert_transaction ts d)" for ts d
    by (induction ts arbitrary: d) (auto intro: flags.frame_refl flags.frame_trans inserts)
  have each: "keeps same_flags (store_each S now n h seq txs)" for n h seq txs
    by (simp add: keeps_def store_each_run folded)
  have head: "keeps same_flags (pg_update_block_head c n h)" "keeps same_flags (pg_load_chain_state c)" for c n h
    by (auto simp: keeps_def same_flags_def pg_update_block_head_def pg_is_block_head_def pg_store_block_head_def
        pg_load_chain_state_def op_runs gets_def modify_def split: option.splits)
  show ?thesis
    unfolding pg_store_block_def Let_def pg_store_block_header_def
    by (intro flags.keeps_rules flags.keeps_modify each head inserts)
qed

lemma stuck_store: "stays_stuck X c n r (on_chain (on_blocks (pg_store_block S now blk)))"
proof (rule stuck_same)
  show "is_executed c n (ns_world (snd (on_chain (on_blocks (pg_store_block S now blk)) s))) = is_executed c n (ns_world s)" for s
    using keepsD [OF same_flags_store]
    by (auto simp: same_flags_def on_chain_def on_blocks_def is_executed_def pg_is_block_executed_def gets_def split: prod.splits)
qed (auto simp: on_chain_def split: prod.splits)

lemma stuck_execute:
  assumes "bh_block_number (blk_header blk) \<noteq> n"
  shows "stays_stuck X c n r (on_chain (execute_block K Y blk))"
proof (rule stuck_same)
  fix s :: node_state
  obtain q w where run: "execute_block K Y blk (sw_chain (ns_world s)) = (q, w)" by fastforce
  from execute_block_tables [OF run] assms run
  show "is_executed c n (ns_world (snd (on_chain (execute_block K Y blk) s))) = is_executed c n (ns_world s)"
    by (auto simp: on_chain_def is_executed_def pg_is_block_executed_def pg_set_block_executed_def gets_def modify_def)
qed (auto simp: on_chain_def split: prod.splits)

lemma stuck_finalize_block:
  assumes "bh_block_number (blk_header blk) \<noteq> n"
  shows "stays_stuck X c n r (finalize_block C blk q)"
  unfolding finalize_block_def execute_stored_def
  by (intro stuck_rules stuck_leaves stuck_store stuck_execute assms)

lemma stuck_pending_other:
  assumes "\<And>p. pb_block pb = Some p \<Longrightarrow> bh_block_number (blk_header (bp_block p)) \<noteq> n"
  shows "stays_stuck X c n r (pending_try_to_finalize C I m pb)"
proof (cases "pb_block pb")
  case None
  then show ?thesis by (simp add: pending_try_to_finalize_def stuck_rules)
next
  case (Some p)
  then show ?thesis
    unfolding pending_try_to_finalize_def Some option.case Let_def
    by (intro stuck_rules stuck_leaves stuck_publish stuck_finalize_block assms [OF Some])
qed

text \<open>The check of the vote results fails before anything is stored.\<close>

lemma stuck_pending_self:
  assumes "r \<in> set (pb_vote_results pb)" "vote_result_verify_signature (cp_ext C) r \<noteq> Inr ()"
  shows "isl (fst (pending_try_to_finalize C I m pb s))"
    and "stays_stuck X c n q (pending_try_to_finalize C I m pb)"
proof -
  have bad: "isl (validate_vote_results C pb t)" for t
  proof (cases "validate_vote_results C pb t")
    case (Inr u)
    then obtain p where "pb_block pb = Some p"
      "list_all (\<lambda>r. validate_vote_result (cp_ext C) r (bp_block p) t = Inr ()) (pb_vote_results pb)"
      by (auto simp: validate_vote_results_def res_each_Inr split: option.splits)
    with assms show ?thesis by (auto simp: list_all_iff validate_vote_result_def)
  qed simp
  have cut: "and_then (asks (\<lambda>w. validate_vote_results C pb (sw_tables w))) k =
      (\<lambda>s. (Inl (projl (validate_vote_results C pb (sw_tables (ns_world s)))), s))" for k :: "unit \<Rightarrow> bytes list node_op"
  proof
    fix s
    show "and_then (asks (\<lambda>w. validate_vote_results C pb (sw_tables w))) k s =
        (Inl (projl (validate_vote_results C pb (sw_tables (ns_world s)))), s)"
      using bad [of "sw_tables (ns_world s)"]
      by (cases "validate_vote_results C pb (sw_tables (ns_world s))") (auto simp: and_then_asks)
  qed
  show "isl (fst (pending_try_to_finalize C I m pb s))"
    unfolding pending_try_to_finalize_def Let_def cut
    by (auto simp: and_then_def fail_def split: option.splits prod.splits sum.splits)
  have "stays_stuck X c n q (\<lambda>s. (f s, s))" for f :: "node_state \<Rightarrow> error + bytes list"
    by (auto intro: stuck_same)
  then show "stays_stuck X c n q (pending_try_to_finalize C I m pb)"
    unfolding pending_try_to_finalize_def Let_def cut
    by (cases "pb_block pb") (simp_all, (intro stuck_rules stuck_leaves stuck_publish)+)
qed

lemma stuck_in_order:
  assumes "stuck (cp_ext C) (ci_cluster_address I) n r s" and "finalize_in_order C I ns s = (q, t)"
  shows "stuck (cp_ext C) (ci_cluster_address I) n r t \<and> (\<forall>finalized. q = Inr finalized \<longrightarrow> n \<notin> set finalized)"
  using assms
proof (induction ns arbitrary: s q t)
  case (Cons m ns)
  let ?stuck = "stuck (cp_ext C) (ci_cluster_address I) n r"
  have continue_: "?stuck t \<and> (\<forall>finalized. q = Inr finalized \<longrightarrow> n \<notin> set finalized)"
    if "?stuck u" "and_then (finalize_in_order C I ns) (\<lambda>rest. ok (m # rest)) u = (q, t)" "m \<noteq> n" for u
    using that Cons.IH [OF that(1)] by (cases q) (auto simp: op_elims ok_def)
  show ?case
  proof (cases "fst (pg_is_block_executed m (ci_cluster_address I) (bw_blocks (sw_chain (ns_world s)))) = Inr True")
    case True
    then have "m \<noteq> n" using Cons.prems(1) by (auto simp: stuck_def is_executed_def)
    with True continue_ [OF Cons.prems(1)] Cons.prems(2) show ?thesis by simp
  next
    case False
    show ?thesis
    proof (cases "ns_pending s m")
      case None
      with False Cons.prems show ?thesis by auto
    next
      case (Some pb)
      obtain x u where run: "pending_try_to_finalize C I m pb s = (x, u)" by fastforce
      show ?thesis
      proof (cases "m = n")
        case True
        then have bad: "r \<in> set (pb_vote_results pb)" "vote_result_verify_signature (cp_ext C) r \<noteq> Inr ()"
          using Some Cons.prems(1) by (auto simp: stuck_def)
        have "?stuck u" using keepsD [OF stuck_pending_self(2) [OF bad] run] Cons.prems(1) by blast
        moreover have "isl x" using stuck_pending_self(1) [OF bad, of I m s] run by simp
        ultimately show ?thesis using False Some run Cons.prems(2) by (cases x) (auto split: if_splits)
      next
        case other: False
        then have "\<And>p. pb_block pb = Some p \<Longrightarrow> bh_block_number (blk_header (bp_block p)) \<noteq> n"
          using Some Cons.prems(1) by (auto simp: stuck_def)
        then have "?stuck u" using keepsD [OF stuck_pending_other run] Cons.prems(1) by blast
        with continue_ [of u] other False Some run Cons.prems(2) show ?thesis by (cases x) (auto split: if_splits)
      qed
    qed
  qed
qed auto

lemma stuck_finalize: "stays_stuck (cp_ext C) (ci_cluster_address I) n r (try_to_finalize C I)"
proof (rule keepsI, rule impI)
  fix s q t
  let ?stuck = "stuck (cp_ext C) (ci_cluster_address I) n r"
  assume run: "try_to_finalize C I s = (q, t)" and s: "?stuck s"
  then have "ns_pending s \<noteq> Map.empty" by (auto simp: stuck_def)
  then obtain x u where order: "finalize_in_order C I (sorted_list_of_set (dom (ns_pending s))) s = (x, u)" by fastforce
  note u = stuck_in_order [OF s order]
  show "?stuck t"
  proof (cases x)
    case (Inl e)
    with run order \<open>ns_pending s \<noteq> Map.empty\<close> u show ?thesis by (simp add: try_to_finalize_def and_then_def)
  next
    case (Inr finalized)
    then have v: "?stuck (u\<lparr>ns_pending := ns_pending u |` (- set finalized)\<rparr>)"
      using u by (auto simp: stuck_def restrict_map_def split: if_splits)
    from run order Inr \<open>ns_pending s \<noteq> Map.empty\<close> show ?thesis
      using v keepsD [OF stuck_quiet [OF quiet_query]] by (auto simp: try_to_finalize_def and_then_def modify_def split: if_splits)
  qed
qed

text \<open>The messages that neither deliver a finalized block nor propose one at this node.\<close>

fun no_rescue :: "network_message \<Rightarrow> bool" where
  "no_rescue (ReceiveQueryBlockResponse _ _) = False"
| "no_rescue (AddBlock _) = False"
| "no_rescue _ = True"

lemma stuck_if_state:
  "stays_stuck X c n r m \<Longrightarrow> stays_stuck X c n r m' \<Longrightarrow> stays_stuck X c n r (\<lambda>s. if P s then m s else m' s)"
  by (simp add: keeps_def)

lemma stuck_return: "stays_stuck X c n r (\<lambda>s. (q, s))" "stays_stuck X c n r (\<lambda>s. (f s, s))"
  by (auto intro: stuck_same)

lemma stuck_vote_handlers:
  "stays_stuck (cp_ext C) (ci_cluster_address I) n r (receive_validate_block C I p)"
  "stays_stuck (cp_ext C) (ci_cluster_address I) n r (receive_vote_result C I q)"
  unfolding receive_validate_block_def receive_vote_result_def Let_def
  by (intro stuck_rules stuck_leaves stuck_adds stuck_finalize stuck_if_state)+

lemma stuck_receive_vote: "stays_stuck (cp_ext C) (ci_cluster_address I) n r (receive_vote C I v)"
proof -
  have last_: "stays_stuck (cp_ext C) (ci_cluster_address I) n r (\<lambda>s. case try_to_finalize C I s of
      (Inl err, s') \<Rightarrow> (if panics err then Inl err else Inr (), s') | (Inr _, s') \<Rightarrow> (Inr (), s'))"
    using stuck_finalize [of C I n r] by (auto simp: keeps_def split: prod.splits sum.splits)
  show ?thesis
    unfolding receive_vote_def Let_def
    by (intro stuck_rules stuck_leaves stuck_adds stuck_if_state stuck_return last_)
qed

lemma stuck_event:
  "no_rescue msg \<Longrightarrow> stays_stuck (cp_ext C) (ci_cluster_address I) n r (handle_network_event C I msg)"
  by (cases msg) (auto intro!: stuck_leaves stuck_vote_handlers stuck_receive_vote)

lemma stuck_network:
  assumes "stuck (cp_ext C) (ci_cluster_address I) n r s" and "list_all no_rescue msgs"
  shows "stuck (cp_ext C) (ci_cluster_address I) n r (receive_network C I msgs s)"
  using assms
proof (induction msgs arbitrary: s)
  case (Cons msg msgs)
  obtain x t where run: "handle_network_event C I msg s = (x, t)" by fastforce
  have "stuck (cp_ext C) (ci_cluster_address I) n r t"
    using keepsD [OF stuck_event run] Cons.prems by auto
  with Cons run show ?case by (auto split: sum.splits)
qed simp

text \<open>
  C17: Anyone can stop the chain of a node with one message. A vote result with a bad signature is filed
  with the pending block of its number without a check, and then every attempt to finalize that block
  fails on it: whatever votes, vote results, blocks to validate and other messages follow, the block is
  not executed, unless a finalized block is delivered or the node proposes one itself.
\<close>

theorem bad_vote_result_stops_the_chain:
  assumes "vote_result_verify_signature (cp_ext C) r \<noteq> Inr ()" and "vrp_block_number (vr_data r) = n"
    and "\<not> is_executed (ci_cluster_address I) n (ns_world s)"
    and "\<And>m pb p. ns_pending s m = Some pb \<Longrightarrow> pb_block pb = Some p \<Longrightarrow> bh_block_number (blk_header (bp_block p)) = m"
    and "list_all no_rescue msgs"
  shows "\<not> is_executed (ci_cluster_address I) n (ns_world (receive_network C I (ReceiveVoteResult r # msgs) s))"
proof -
  let ?stuck = "stuck (cp_ext C) (ci_cluster_address I) n r"
  obtain x t where run: "receive_vote_result C I r s = (x, t)" by fastforce
  have "?stuck (snd (add_vote_result r s))"
    using assms by (auto simp: stuck_def add_vote_result_def modify_def update_pending_def pending_block_new_def split: option.splits)
  moreover have "stays_stuck (cp_ext C) (ci_cluster_address I) n r (and_then (try_to_finalize C I)
      (\<lambda>_. if ci_multinode_mode I then send (BroadcastVoteResult r) else ok ()))"
    by (intro stuck_rules stuck_finalize stuck_leaves)
  ultimately have "?stuck t"
    using run by (auto simp: receive_vote_result_def add_vote_result_def op_runs modify_def dest: keepsD)
  with stuck_network [OF this assms(5)] run show ?thesis
    by (auto simp: stuck_def split: sum.splits)
qed

section \<open>A block without votes\<close>

text \<open>
  C39: The handler of delivered blocks asks for no votes and for no authorized proposer. A block that
  extends the chain and is signed by the key of whoever is named as its sender is stored and executed,
  whether or not a vote result comes with it.
\<close>

theorem unvoted_block_is_executed:
  assumes "fst (pg_is_block_executed (bh_block_number (blk_header (bp_block p))) (ci_cluster_address I)
      (bw_blocks (sw_chain (ns_world s)))) = Inr False"
    and "validate_block (cp_validate C) p (sw_chain (ns_world s)) (ci_cluster_address I) (bp_sender p) = Inr ()"
    and "pg_store_block (cp_store C) (cp_now C) (bp_block p) (bw_blocks (sw_chain (ns_world s))) = (Inr (), d)"
    and "execute_block (cp_chain C) (cp_block C) (bp_block p) ((sw_chain (ns_world s))\<lparr>bw_blocks := d\<rparr>) = (Inr events, w)"
  shows "is_executed (bh_cluster_address (blk_header (bp_block p))) (bh_block_number (blk_header (bp_block p)))
    (ns_world (snd (receive_block C I p None s)))"
proof -
  let ?blk = "bp_block p"
  let ?s = "s\<lparr>ns_world := (ns_world s)\<lparr>sw_chain := (sw_chain (ns_world s))\<lparr>bw_blocks := d\<rparr>\<rparr>\<rparr>"
  obtain t where run: "execute_stored C ?blk ?s = (Inr events, t)"
    using assms(4) by (simp add: execute_stored_def send_removals_def broadcast_events_def on_chain_def op_runs
        modify_def and_then_def ok_def)
  have "is_executed (bh_cluster_address (blk_header ?blk)) (bh_block_number (blk_header ?blk)) (ns_world t)"
    using execute_stored_executes [OF run] store_block_meta [OF assms(3)] by simp
  moreover have "chain_rel (\<lambda>w w'. stays (bw_blocks w) (bw_blocks w')) t (snd (try_to_finalize C I t))"
    by (rule keeps_snd [OF final_blocks.rel_finalize])
  moreover have "receive_block C I p None s = try_to_finalize C I t"
    using assms(1-3) run
    by (simp add: receive_block_def Let_def asks_def on_chain_def on_blocks_def and_then_def ok_def)
  ultimately show ?thesis
    by (auto simp: chain_rel_def stays_def is_executed_def pg_is_block_executed_def gets_def)
qed

section \<open>A concrete node and an empty block\<close>

definition empty_params :: block_params where
  "empty_params = poor_params\<lparr>bx_order := (\<lambda>_. demo_order\<lparr>o_accounts := []\<rparr>)\<rparr>"

lemma empty_block_run:
  assumes "blk_transactions blk = []" and "\<not> is_system_block blk"
    and "t_block_meta_info (bw_blocks w) (bh_cluster_address (blk_header blk), bh_block_number (blk_header blk)) \<noteq> Some (Some True)"
  shows "execute_block X empty_params blk w = (Inr [], w\<lparr>bw_blocks :=
    snd (pg_set_block_executed (bh_block_number (blk_header blk)) (bh_cluster_address (blk_header blk)) (bw_blocks w))\<rparr>)"
proof -
  have "commit (bx_order empty_params (updated_state_new c)) (bx_now empty_params) (updated_state_new c) d = (Inr (), d)" for c d
    by (simp add: commit_def empty_params_def poor_params_def demo_order_def updated_state_new_def op_simps and_then_def)
  moreover have "apply_system_contracts_changes X Z (updated_state_new c) h k = (Inr (), k)" for Z c h k
    by (simp add: apply_system_contracts_changes_def is_contract_state_updated_def updated_state_new_def
        and_then_def ok_def)
  ultimately show ?thesis
    using assms
    by (cases w) (simp add: execute_block_def execute_block_inner_def pg_is_block_executed_def gets_def sorted_transactions_def
        commit_block_def and_then_def ok_def pg_set_block_executed_def modify_def cong: if_cong)
qed

definition demo_identity :: node_identity where
  "demo_identity = \<lparr>ci_node_address = 9, ci_cluster_address = 0, ci_verifying_key = replicate 33 3,
     ci_sign = (\<lambda>_. replicate 64 0), ci_multinode_mode = True, ci_peer_id = [], ci_joined_epoch = 0,
     ci_boot_peer = None\<rparr>"

definition demo_consensus :: consensus_params where
  "demo_consensus = \<lparr>cp_validate = node_demo, cp_chain = block_chain, cp_block = empty_params, cp_order = rev,
     cp_select = demo_select,
     cp_health = \<lparr>hx_percent = (\<lambda>_ _. 0), hx_mean = (\<lambda>a _. a), hx_sort = id, hx_anomaly_score = 0\<rparr>,
     cp_verify_node_info = (\<lambda>_ _ _. True), cp_verify_proposers = (\<lambda>_ _ _. True), cp_verify_health = (\<lambda>_ _ _. True),
     cp_sign_json = (\<lambda>_. None), cp_sign_health = (\<lambda>_. None), cp_peer_id = Some, cp_peers = (\<lambda>_. []), cp_now = 0\<rparr>"

definition empty_block :: block_payload where
  "empty_block = \<lparr>bp_block = \<lparr>blk_header = block_header_default\<lparr>bh_block_number := 1, bh_parent_hash := 7\<rparr>, blk_transactions = []\<rparr>,
     bp_signature = replicate 64 0, bp_verifying_key = replicate 33 3, bp_sender = 9\<rparr>"

definition demo_node :: node_state where
  "demo_node = \<lparr>ns_world = \<lparr>sw_chain = node_demo_world,
       sw_tables = \<lparr>t_validator = map (validator_row_of (vp_tables node_demo)) demo_validators,
         t_block_proposer = [\<lparr>prow_address = 9, prow_cluster_address = 0, prow_epoch = 0, prow_selected_next = Some False\<rparr>],
         t_vote = [], t_vote_result = [], t_node_info = []\<rparr>,
       sw_health = []\<rparr>,
     ns_pending = Map.empty, ns_reports = Map.empty, ns_checks = real_time_checks_new,
     ns_network = [], ns_mempool = [], ns_events = []\<rparr>"

lemma empty_block_checked:
  "validate_block_header_and_transactions node_demo empty_block node_demo_world 0 e = Inr ()" if "e = None \<or> e = Some {}"
proof -
  have "validate_expected_block_fields (block_header_default\<lparr>bh_block_hash := 7\<rparr>) (bp_block empty_block) = Inr ()"
    "validate_expected_block_hash (vp_ext node_demo) empty_block = Inr ()"
    by (simp_all add: validate_expected_block_fields_def validate_expected_block_hash_def checked_add_def Let_def
        validate_compute_block_hash_def empty_block_def block_header_default_def node_demo_defs usize_len_def)
  moreover have "rt_config (bw_caches node_demo_world) = Some (demo_config\<lparr>rc_validated_block_reward := 5\<rparr>)"
    "rt_staking (bw_caches node_demo_world) = Some \<lparr>si_nodes = Map.empty, si_reward_node_map = [12 \<mapsto> 2]\<rparr>"
    "blk_transactions (bp_block empty_block) = []"
    by (simp_all add: node_demo_world_def node_demo_caches_def empty_block_def)
  ultimately show ?thesis
    using that node_demo_head
    by (auto simp: validate_block_header_and_transactions_def staking_get_def config_get_def)
qed

lemma empty_block_signed:
  "block_payload_verify_signature node_demo_ext empty_block = Inr ()"
  "account_address node_demo_ext (replicate 33 3) = Inr 9"
proof -
  have "replicate 32 (3 :: 8 word) \<noteq> [1]" by (rule notI, drule arg_cong [of _ _ length]) simp
  then show "block_payload_verify_signature node_demo_ext empty_block = Inr ()"
    "account_address node_demo_ext (replicate 33 3) = Inr 9"
    by (simp_all add: block_payload_verify_signature_def verify_sized_def empty_block_def node_demo_ext_def
        vote_demo_ext_def verify_with_ecdsa_def account_address_def address_of_hash_def)
qed

lemma empty_block_stored:
  "\<exists>d. pg_store_block (vp_store node_demo) 0 (bp_block empty_block) (bw_blocks node_demo_world) = (Inr (), d) \<and>
     t_block_meta_info d (0, 1) = Some (Some False)"
  by (simp add: pg_store_block_def Let_def empty_block_def block_header_default_def store_each_run pg_store_block_header_def
      node_demo_world_def no_blocks_def pg_load_chain_state_def pg_update_block_head_def pg_is_block_head_def
      pg_store_block_head_def insert_header_def insert_new_def header_row_def insert_meta_def and_then_def modify_def gets_def ok_def)

theorem unvoted_block_is_executed_witness:
  "is_executed 0 1 (ns_world (snd (receive_block demo_consensus demo_identity empty_block None demo_node)))"
proof -
  obtain d where d: "pg_store_block (vp_store node_demo) 0 (bp_block empty_block) (bw_blocks node_demo_world) = (Inr (), d)"
    "t_block_meta_info d (0, 1) = Some (Some False)"
    using empty_block_stored by blast
  have blk: "blk_transactions (bp_block empty_block) = []" "\<not> is_system_block (bp_block empty_block)"
    "bh_cluster_address (blk_header (bp_block empty_block)) = 0" "bh_block_number (blk_header (bp_block empty_block)) = 1"
    by (simp_all add: empty_block_def block_header_default_def is_system_block_def)
  have "validate_block node_demo empty_block node_demo_world 0 9 = Inr ()"
    using empty_block_signed empty_block_checked [of None] node_demo_head
    by (simp add: validate_block_def node_demo_def empty_block_def)
  moreover have "fst (pg_is_block_executed 1 0 (bw_blocks node_demo_world)) = Inr False"
    by (simp add: pg_is_block_executed_def gets_def node_demo_world_def no_blocks_def)
  ultimately show ?thesis
    using unvoted_block_is_executed [where C = demo_consensus and I = demo_identity and p = empty_block and s = demo_node and d = d]
      empty_block_run [OF blk(1,2), of "node_demo_world\<lparr>bw_blocks := d\<rparr>"] d blk
    by (simp add: demo_consensus_def demo_identity_def demo_node_def empty_block_def)
qed

definition executed_node :: node_state where
  "executed_node = demo_node\<lparr>ns_world := (ns_world demo_node)\<lparr>sw_chain := node_demo_world\<lparr>bw_blocks :=
     (bw_blocks node_demo_world)\<lparr>t_block_meta_info := [(0, 0) \<mapsto> Some True]\<rparr>\<rparr>\<rparr>\<rparr>"

theorem executed_blocks_are_final_witness:
  "is_executed 0 0 (ns_world (receive_network demo_consensus demo_identity
     [ReceiveValidateBlock empty_block, ReceiveVoteResult demo_result] executed_node))"
proof -
  have "is_executed 0 0 (ns_world executed_node)"
    by (simp add: is_executed_def executed_node_def pg_is_block_executed_def gets_def)
  with executed_blocks_are_final show ?thesis by blast
qed

definition bad_result :: vote_result where
  "bad_result = demo_result\<lparr>vr_data := (vr_data demo_result)\<lparr>vrp_block_number := 1\<rparr>, vr_signature := []\<rparr>"

theorem bad_vote_result_stops_the_chain_witness:
  "\<not> is_executed 0 1 (ns_world (receive_network demo_consensus demo_identity
     [ReceiveVoteResult bad_result, ReceiveValidateBlock empty_block] demo_node))"
proof -
  have "vote_result_verify_signature (cp_ext demo_consensus) bad_result \<noteq> Inr ()"
    by (simp add: vote_result_verify_signature_def verify_sized_def bad_result_def)
  moreover have "\<not> is_executed (ci_cluster_address demo_identity) 1 (ns_world demo_node)"
    by (simp add: is_executed_def demo_node_def node_demo_world_def no_blocks_def pg_is_block_executed_def gets_def)
  ultimately show ?thesis
    using bad_vote_result_stops_the_chain [of demo_consensus bad_result 1 demo_identity demo_node "[ReceiveValidateBlock empty_block]"]
    by (simp add: demo_identity_def demo_node_def bad_result_def)
qed

definition passed_result :: vote_result where
  "passed_result = \<lparr>vr_data = \<lparr>vrp_block_number = 1, vrp_block_hash = 0, vrp_cluster_address = 0, vrp_vote_passed = True,
      vrp_votes = [vote_manager_vote 1 0 0 1 [] (replicate 33 3) True 0, vote_manager_vote 1 0 0 2 [] (replicate 33 4) True 0]\<rparr>,
     vr_validator_address = 1, vr_signature = replicate 64 0, vr_verifying_key = replicate 33 3\<rparr>"

definition voted_block :: pending_block where
  "voted_block = \<lparr>pb_votes = [], pb_vote_results = [passed_result], pb_block = Some empty_block\<rparr>"

lemma passed_result_passes:
  "is_vote_result_passed (cp_votes demo_consensus) passed_result demo_validators node_demo_caches = Inr True"
proof -
  have "min_passed_votes (length demo_validators) = 1"
    using vote_thresholds(2) [of "length demo_validators"] by (simp add: demo_validators_def)
  then show ?thesis
    unfolding is_vote_result_passed_def
    by (simp add: vote_demo_defs passed_result_def node_demo_caches_def cp_votes_def demo_consensus_def)
qed

lemma demo_validators_loaded:
  "fst (pg_load_all_validators (vp_tables node_demo) 0 (sw_tables (ns_world demo_node))) = Inr (Some demo_validators)"
  by (simp add: pg_load_all_validators_def demo_node_def demo_validators_def org_validator_def validator_row_of_def
      validator_of_row_def node_demo_def)

lemma passed_result_valid:
  "validate_vote_results demo_consensus voted_block (sw_tables (ns_world demo_node)) = Inr ()"
proof -
  have keys: "replicate 32 (3 :: 8 word) \<noteq> [1]" "replicate 32 (4 :: 8 word) \<noteq> [1]"
    by (rule notI, drule arg_cong [of _ _ length], simp)+
  then have "account_address node_demo_ext (replicate 33 3) = Inr 9" "account_address node_demo_ext (replicate 33 4) = Inr 9"
    by (simp_all add: account_address_def node_demo_ext_def vote_demo_ext_def address_of_hash_def)
  then show ?thesis
    by (simp add: validate_vote_results_def voted_block_def passed_result_def empty_block_def block_header_default_def
        validate_vote_result_def vote_result_verify_signature_def verify_sized_def demo_consensus_def node_demo_def
        node_demo_ext_def vote_demo_ext_def verify_with_ecdsa_def vote_manager_vote_def validate_vote_def
        pg_is_validator_def gets_def demo_node_def demo_validators_def org_validator_def validator_row_of_def
        validator_key_def)
qed

lemma demo_proposed:
  "check_proposed_block demo_consensus 0 rc empty_block (ns_world demo_node) = Inr ()"
proof -
  have "get_last_block_votes_validators demo_consensus 0 rc (ns_world demo_node) = Inr {}"
    using node_demo_head
    by (simp add: get_last_block_votes_validators_def demo_consensus_def demo_node_def pg_load_vote_result_def)
  moreover have "is_block_proposer \<lparr>bpr_cluster_address = 0, bpr_epoch = 0, bpr_address = 9\<rparr> (sw_tables (ns_world demo_node)) = Inr True"
    by (simp add: is_block_proposer_def pg_load_block_proposer_def demo_node_def)
  moreover have "bp_verifying_key empty_block = replicate 33 3" "\<not> is_system_block (bp_block empty_block)"
    "bh_cluster_address (blk_header (bp_block empty_block)) = 0" "bh_epoch (blk_header (bp_block empty_block)) = 0"
    "sw_chain (ns_world demo_node) = node_demo_world" "cp_validate demo_consensus = node_demo" "vp_ext node_demo = node_demo_ext"
    by (simp_all add: empty_block_def block_header_default_def is_system_block_def demo_node_def demo_consensus_def node_demo_def)
  ultimately show ?thesis
    using empty_block_signed empty_block_checked [of "Some {}"]
    by (simp add: check_proposed_block_def validate_proposed_block_def Let_def get_eligible_validators_for_reward_def)
qed

lemma voted_block_finalized:
  "\<exists>s'. pending_try_to_finalize demo_consensus demo_identity 1 voted_block demo_node = (Inr [], s')"
proof -
  obtain d where d: "pg_store_block (vp_store node_demo) 0 (bp_block empty_block) (bw_blocks node_demo_world) = (Inr (), d)"
    "t_block_meta_info d (0, 1) = Some (Some False)"
    using empty_block_stored by blast
  have blk: "blk_transactions (bp_block empty_block) = []" "\<not> is_system_block (bp_block empty_block)"
    "bh_cluster_address (blk_header (bp_block empty_block)) = 0" "bh_block_number (blk_header (bp_block empty_block)) = 1"
    "bh_epoch (blk_header (bp_block empty_block)) = 0"
    by (simp_all add: empty_block_def block_header_default_def is_system_block_def)
  have params: "cp_validate demo_consensus = node_demo" "cp_block demo_consensus = empty_params" "cp_now demo_consensus = 0"
    "ci_cluster_address demo_identity = 0" "ci_verifying_key demo_identity = replicate 33 3" "ci_node_address demo_identity = 9"
    "vp_ext node_demo = node_demo_ext" "sw_chain (ns_world demo_node) = node_demo_world"
    "bw_caches node_demo_world = node_demo_caches"
    by (simp_all add: demo_consensus_def demo_identity_def node_demo_def demo_node_def node_demo_world_def)
  have row: "\<exists>row. vote_result_row_of (vp_tables node_demo) passed_result = Inr row"
    by (simp add: vote_result_row_of_def node_demo_def passed_result_def)
  then obtain row where row: "vote_result_row_of (vp_tables node_demo) passed_result = Inr row" ..
  have config: "fst (config_get node_demo_caches) = Inr (demo_config\<lparr>rc_validated_block_reward := 5\<rparr>)"
    "\<not> reached_max_height (demo_config\<lparr>rc_validated_block_reward := 5\<rparr>) 1"
    by (simp_all add: config_get_def node_demo_caches_def reached_max_height_def demo_config_def)
  have "\<exists>s'. finalize_block demo_consensus (bp_block empty_block) passed_result demo_node = (Inr [], s')"
    using d row empty_block_run [OF blk(1,2), of "node_demo_world\<lparr>bw_blocks := d\<rparr>"]
    by (simp add: finalize_block_def epoch_change_def Let_def blk params calculate_current_epoch_def SLOTS_PER_EPOCH_def
        on_tables_def pg_store_vote_result_def on_chain_def on_blocks_def execute_stored_def send_removals_def
        broadcast_events_def and_then_def modify_def ok_def)
  moreover have "is_block_proposer \<lparr>bpr_cluster_address = 0, bpr_epoch = 0, bpr_address = 9\<rparr> (sw_tables (ns_world demo_node)) = Inr True"
    by (simp add: is_block_proposer_def pg_load_block_proposer_def demo_node_def)
  moreover have "\<exists>b. fst (pg_is_validator 9 0 (sw_tables (ns_world demo_node))) = Inr b"
    by (simp add: pg_is_validator_def gets_def)
  ultimately show ?thesis
    using config demo_proposed demo_validators_loaded passed_result_valid passed_result_passes empty_block_signed
    by (auto simp: pending_try_to_finalize_def voted_block_def Let_def and_then_asks blk params require_def ok_or_def
        op_runs obs_simps)
qed

theorem finalized_block_was_voted_witness:
  "\<exists>s' r. pending_try_to_finalize demo_consensus demo_identity 1 voted_block demo_node = (Inr [], s') \<and>
     r \<in> set (pb_vote_results voted_block) \<and> is_executed 0 1 (ns_world s')"
proof -
  obtain s' where run: "pending_try_to_finalize demo_consensus demo_identity 1 voted_block demo_node = (Inr [], s')"
    using voted_block_finalized by blast
  from finalized_block_was_voted [OF run] run show ?thesis
    by (auto simp: voted_block_def empty_block_def block_header_default_def)
qed

end
