(* ===== verification/L1X_Evm_Core.thy ===== *)
theory L1X_Evm_Core
  imports L1X_Prelude "HOL-Library.Signed_Division"
begin

unbundle bit_operations_syntax

text \<open>
  The core of the EVM library of \<^verbatim>\<open>evm_interpreter/src\<close>: signed 256-bit numbers (\<^verbatim>\<open>utils.rs\<close>), the
  arithmetic and bitwise operations (\<^verbatim>\<open>eval/arithmetic.rs\<close>, \<^verbatim>\<open>eval/bitwise.rs\<close>), the map of jump
  destinations (\<^verbatim>\<open>valids.rs\<close>, \<^verbatim>\<open>opcode.rs\<close>) and the memory (\<^verbatim>\<open>memory.rs\<close>).

  A \<^verbatim>\<open>U256\<close> is a 256-bit word. Offsets and lengths of vectors are natural numbers, bounded by
  \<^verbatim>\<open>usize::MAX\<close> where the code compares them with it. Running out of memory is not modelled.

  The theory shows that the operations compute the signed and modular arithmetic they stand for, that
  the optimised routines agree with their definitions, which positions a program can jump to, and that
  what is written to memory is read back.
\<close>

type_synonym u256 = "256 word"

section \<open>Signed numbers\<close>

datatype sign = Plus | Minus | Zero

datatype i256 = I256 sign u256

definition SIGN_BIT_MASK :: u256 where
  "SIGN_BIT_MASK = 0x7fffffffffffffffffffffffffffffffffffffffffffffffffffffffffffffff"

definition i256_min_value :: i256 where
  "i256_min_value = I256 Minus ((- 1 AND SIGN_BIT_MASK) + 1)"

definition i256_from :: "u256 \<Rightarrow> i256" where
  "i256_from v =
     (if v = 0 then I256 Zero 0
      else if v AND SIGN_BIT_MASK = v then I256 Plus v
      else I256 Minus (NOT v + 1))"

fun i256_into :: "i256 \<Rightarrow> u256" where
  "i256_into (I256 Zero v) = 0"
| "i256_into (I256 Plus v) = v"
| "i256_into (I256 Minus v) = NOT v + 1"

fun i256_less :: "i256 \<Rightarrow> i256 \<Rightarrow> bool" where
  "i256_less (I256 Zero _) (I256 Zero _) = False"
| "i256_less (I256 Zero _) (I256 Plus _) = True"
| "i256_less (I256 Zero _) (I256 Minus _) = False"
| "i256_less (I256 Minus _) (I256 Zero _) = True"
| "i256_less (I256 Minus _) (I256 Plus _) = True"
| "i256_less (I256 Minus a) (I256 Minus b) = (b < a)"
| "i256_less (I256 Plus _) (I256 Minus _) = False"
| "i256_less (I256 Plus _) (I256 Zero _) = False"
| "i256_less (I256 Plus a) (I256 Plus b) = (a < b)"

fun i256_div :: "i256 \<Rightarrow> i256 \<Rightarrow> i256" where
  "i256_div (I256 s a) (I256 t b) =
     (if I256 t b = I256 Zero 0 then I256 Zero 0
      else if I256 s a = i256_min_value \<and> b = 1 then i256_min_value
      else
        let d = (a div b) AND SIGN_BIT_MASK in
        if d = 0 then I256 Zero 0
        else if (s, t) \<in> {(Zero, Plus), (Plus, Zero), (Zero, Zero), (Plus, Plus), (Minus, Minus)}
        then I256 Plus d
        else I256 Minus d)"

fun i256_rem :: "i256 \<Rightarrow> i256 \<Rightarrow> i256" where
  "i256_rem (I256 s a) (I256 t b) =
     (let r = (a mod b) AND SIGN_BIT_MASK in if r = 0 then I256 Zero 0 else I256 s r)"

section \<open>Arithmetic\<close>

definition evm_div :: "u256 \<Rightarrow> u256 \<Rightarrow> u256" where
  "evm_div a b = (if b = 0 then 0 else a div b)"

definition evm_sdiv :: "u256 \<Rightarrow> u256 \<Rightarrow> u256" where
  "evm_sdiv a b = i256_into (i256_div (i256_from a) (i256_from b))"

definition evm_rem :: "u256 \<Rightarrow> u256 \<Rightarrow> u256" where
  "evm_rem a b = (if b = 0 then 0 else a mod b)"

definition evm_srem :: "u256 \<Rightarrow> u256 \<Rightarrow> u256" where
  "evm_srem a b = (if b = 0 then 0 else i256_into (i256_rem (i256_from a) (i256_from b)))"

definition evm_addmod :: "u256 \<Rightarrow> u256 \<Rightarrow> u256 \<Rightarrow> u256" where
  "evm_addmod a b m =
     (if m = 0 then 0 else ucast ((ucast a + ucast b) mod (ucast m :: 512 word)))"

definition evm_mulmod :: "u256 \<Rightarrow> u256 \<Rightarrow> u256 \<Rightarrow> u256" where
  "evm_mulmod a b m =
     (if m = 0 then 0 else ucast ((ucast a * ucast b) mod (ucast m :: 512 word)))"

function exp_loop :: "u256 \<Rightarrow> u256 \<Rightarrow> u256 \<Rightarrow> u256" where
  "exp_loop a e r =
     (if e = 0 then r
      else exp_loop (a * a) (drop_bit 1 e) (if e AND 1 \<noteq> 0 then r * a else r))"
  by auto
termination
proof (relation "measure (\<lambda>(a, e, r). unat e)")
  fix a e r :: u256 assume "e \<noteq> 0"
  then have "0 < unat e" by (simp add: unat_gt_0)
  then show "((a * a, drop_bit 1 e, if e AND 1 \<noteq> 0 then r * a else r), a, e, r) \<in> measure (\<lambda>(a, e, r). unat e)"
    by (simp add: drop_bit_eq_div unat_div)
qed simp

declare exp_loop.simps [simp del]

definition evm_exp :: "u256 \<Rightarrow> u256 \<Rightarrow> u256" where
  "evm_exp a e = exp_loop a e 1"

definition evm_signextend :: "u256 \<Rightarrow> u256 \<Rightarrow> u256" where
  "evm_signextend x y =
     (if x < 32 then
        let bit_index = unat (8 * (ucast x :: 32 word) + 7);
            mask = push_bit bit_index 1 - 1 in
        if bit y bit_index then y OR NOT mask else y AND mask
      else y)"

section \<open>Comparison and bitwise operations\<close>

definition truth :: "bool \<Rightarrow> u256" where
  "truth b = (if b then 1 else 0)"

definition evm_slt :: "u256 \<Rightarrow> u256 \<Rightarrow> u256" where
  "evm_slt a b = truth (i256_less (i256_from a) (i256_from b))"

definition evm_sgt :: "u256 \<Rightarrow> u256 \<Rightarrow> u256" where
  "evm_sgt a b = truth (i256_less (i256_from b) (i256_from a))"

definition evm_iszero :: "u256 \<Rightarrow> u256" where
  "evm_iszero a = truth (a = 0)"

text \<open>The loop of \<^verbatim>\<open>byte\<close> does nothing from its eighth round on.\<close>

definition byte_round :: "u256 \<Rightarrow> u256 \<Rightarrow> nat \<Rightarrow> u256 \<Rightarrow> u256" where
  "byte_round x y i acc =
     (if i < 8 \<and> x < 32 then
        let t = 255 - (7 - i + 8 * unat x);
            v = drop_bit t (y AND push_bit t 1) in
        acc + push_bit i v
      else acc)"

definition evm_byte :: "u256 \<Rightarrow> u256 \<Rightarrow> u256" where
  "evm_byte x y = fold (byte_round x y) [0..<256] 0"

definition evm_shl :: "u256 \<Rightarrow> u256 \<Rightarrow> u256" where
  "evm_shl s v = (if v = 0 \<or> s \<ge> 256 then 0 else push_bit (unat s) v)"

definition evm_shr :: "u256 \<Rightarrow> u256 \<Rightarrow> u256" where
  "evm_shr s v = (if v = 0 \<or> s \<ge> 256 then 0 else drop_bit (unat s) v)"

definition evm_sar :: "u256 \<Rightarrow> u256 \<Rightarrow> u256" where
  "evm_sar s v =
     (case i256_from v of I256 sg a \<Rightarrow>
        if I256 sg a = I256 Zero 0 \<or> s \<ge> 256
        then (case sg of Minus \<Rightarrow> i256_into (I256 Minus 1) | _ \<Rightarrow> 0)
        else (case sg of
                Minus \<Rightarrow> i256_into (I256 Minus (drop_bit (unat s) (a - 1) + 1))
              | _ \<Rightarrow> drop_bit (unat s) a))"

section \<open>Jump destinations\<close>

definition JUMPDEST :: byte where
  "JUMPDEST = 0x5b"

definition is_push :: "byte \<Rightarrow> byte option" where
  "is_push v = (if 0x60 \<le> v \<and> v \<le> 0x7f then Some (v - 0x60 + 1) else None)"

function valids_loop :: "bytes \<Rightarrow> nat \<Rightarrow> bool list \<Rightarrow> bool list" where
  "valids_loop code i valids =
     (if i < length code then
        if code ! i = JUMPDEST then valids_loop code (i + 1) (valids[i := True])
        else (case is_push (code ! i) of
                Some v \<Rightarrow> valids_loop code (i + unat v + 1) valids
              | None \<Rightarrow> valids_loop code (i + 1) valids)
      else valids)"
  by auto
termination
  by (relation "measure (\<lambda>(code, i, _). length code - i)") auto

declare valids_loop.simps [simp del]

definition valids_new :: "bytes \<Rightarrow> bool list" where
  "valids_new code = valids_loop code 0 (replicate (length code) False)"

definition is_valid_jump :: "bool list \<Rightarrow> nat \<Rightarrow> bool" where
  "is_valid_jump valids p \<longleftrightarrow> p < length valids \<and> valids ! p"

section \<open>Memory\<close>

datatype exit_exception =
    StackUnderflow | StackOverflow | InvalidJump | InvalidRange | DesignatedInvalid | CallTooDeep
  | CreateCollision | CreateContractLimit | InvalidOpcode byte | OutOfOffset | OutOfGas | OutOfFund
  | PCUnderflow | CreateEmpty | MaxNonce | OtherException string

datatype exit_fatal =
    NotSupported | UnhandledInterrupt | ExceptionAsFatal exit_exception | AlreadyExited | Unfinished
  | OtherFatal string

record evm_memory =
  em_data :: bytes
  em_effective_len :: u256
  em_limit :: nat

abbreviation usize_max :: nat where
  "usize_max \<equiv> 2 ^ 64 - 1"

definition evm_memory_new :: "nat \<Rightarrow> evm_memory" where
  "evm_memory_new limit = \<lparr>em_data = [], em_effective_len = 0, em_limit = limit\<rparr>"

definition next_multiple_of_32 :: "u256 \<Rightarrow> u256 option" where
  "next_multiple_of_32 x =
     (let r = (NOT ((ucast x :: 32 word) AND 31) + 1) AND 31 in checked_add x (ucast r))"

definition resize_end :: "u256 \<Rightarrow> (evm_memory, exit_exception, unit) op" where
  "resize_end e =
     and_then (gets em_effective_len) (\<lambda>len.
       if e > len
       then and_then (ok_or (next_multiple_of_32 e) InvalidRange) (\<lambda>new_end.
              modify (\<lambda>m. m\<lparr>em_effective_len := new_end\<rparr>))
       else ok ())"

definition resize_offset :: "u256 \<Rightarrow> u256 \<Rightarrow> (evm_memory, exit_exception, unit) op" where
  "resize_offset offset len =
     (if len = 0 then ok ()
      else (case checked_add offset len of
              Some e \<Rightarrow> resize_end e
            | None \<Rightarrow> fail InvalidRange))"

text \<open>\<open>evm_memory_get\<close> copies what lies inside the memory; the rest of the result stays 0.\<close>

definition evm_memory_get :: "evm_memory \<Rightarrow> nat \<Rightarrow> nat \<Rightarrow> bytes" where
  "evm_memory_get m offset n =
     (let found = take n (drop offset (em_data m)) in found @ replicate (n - length found) 0)"

definition extend :: "nat \<Rightarrow> bytes \<Rightarrow> bytes" where
  "extend n xs = xs @ replicate (n - length xs) 0"

definition evm_memory_set :: "nat \<Rightarrow> bytes \<Rightarrow> nat option \<Rightarrow> (evm_memory, exit_fatal, unit) op" where
  "evm_memory_set offset v target =
     (let n = (case target of Some k \<Rightarrow> k | None \<Rightarrow> length v) in
      if n = 0 then ok ()
      else and_then (gets em_limit) (\<lambda>limit.
        if usize_max < offset + n \<or> limit < offset + n then fail NotSupported
        else modify (\<lambda>m.
          let d = extend (offset + n) (em_data m);
              bytes = (if length v < n then v @ replicate (n - length v) 0 else take n v) in
          m\<lparr>em_data := take offset d @ bytes @ drop (offset + n) d\<rparr>)))"

definition copy_large :: "u256 \<Rightarrow> u256 \<Rightarrow> u256 \<Rightarrow> bytes \<Rightarrow> (evm_memory, exit_fatal, unit) op" where
  "copy_large memory_offset data_offset len src =
     (if len = 0 then ok ()
      else if usize_max < unat memory_offset \<or> usize_max < unat len then fail NotSupported
      else
        let found = (case checked_add data_offset len of
              None \<Rightarrow> []
            | Some e \<Rightarrow>
                if usize_max < unat e \<or> length src < unat data_offset then []
                else take (min (unat e) (length src) - unat data_offset) (drop (unat data_offset) src)) in
        evm_memory_set (unat memory_offset) found (Some (unat len)))"

section \<open>What the operations compute\<close>

fun i256_value :: "i256 \<Rightarrow> int" where
  "i256_value (I256 Zero v) = 0"
| "i256_value (I256 Plus v) = uint v"
| "i256_value (I256 Minus v) = - uint v"

lemma and_sign_mask: "v AND SIGN_BIT_MASK = take_bit 255 v"
  by (simp add: SIGN_BIT_MASK_def take_bit_eq_mask mask_eq_decr_exp)

lemma uint_range: "0 \<le> uint (v :: u256)" "uint (v :: u256) < 2 ^ 256"
  using uint_lt2p [of v] by simp_all

lemma uint_drop: "uint (drop_bit n (w :: u256)) = uint w div 2 ^ n"
proof -
  have "take_bit 256 (uint w) = uint w" using uint_range [of w] by (simp add: take_bit_int_eq_self_iff)
  then show ?thesis by (subst unsigned_drop_bit_eq) (simp add: drop_bit_eq_div)
qed

lemma take_bit_255: "take_bit 255 (v :: u256) = v \<longleftrightarrow> uint v < 2 ^ 255"
proof -
  have "take_bit 255 v = v \<longleftrightarrow> uint (take_bit 255 v) = uint v"
    by (simp add: word_uint_eq_iff)
  also have "\<dots> \<longleftrightarrow> take_bit 255 (uint v) = uint v"
    by (simp add: unsigned_take_bit_eq)
  also have "\<dots> \<longleftrightarrow> uint v < 2 ^ 255"
    by (simp add: take_bit_int_eq_self_iff)
  finally show ?thesis .
qed

lemma sint_cases:
  fixes v :: u256
  shows "sint v = (if uint v < 2 ^ 255 then uint v else uint v - 2 ^ 256)"
proof -
  have self: "take_bit (Suc 255) (uint v) = uint v"
    using uint_range [of v] by (simp add: take_bit_int_eq_self_iff)
  obtain r where r: "take_bit 255 (uint v) = r" "0 \<le> r" "r < 2 ^ 255"
    using take_bit_nonnegative take_bit_int_less_exp by blast
  have "uint v = 2 ^ 255 * of_bool (bit (uint v) 255) + r"
    using take_bit_Suc_from_most [of 255 "uint v"] self r(1) by simp
  with r have "bit (uint v) 255 \<longleftrightarrow> \<not> uint v < 2 ^ 255"
    by (cases "bit (uint v) 255") auto
  then show ?thesis
    by (simp add: sint_uint signed_take_bit_eq_take_bit_minus self [simplified])
qed

lemma not_plus_one: "NOT v + 1 = - (v :: u256)"
  by (simp add: minus_eq_not_plus_1)

lemma i256_from_value: "i256_value (i256_from v) = sint v"
proof -
  consider "v = 0" | "v \<noteq> 0" "uint v < 2 ^ 255" | "\<not> uint v < 2 ^ 255" by blast
  then show ?thesis
  proof cases
    case 3
    then have "v \<noteq> 0" by auto
    with 3 have "i256_from v = I256 Minus (- v)"
      by (simp add: i256_from_def and_sign_mask take_bit_255 not_plus_one)
    moreover have "uint (- v) = 2 ^ 256 - uint v"
      using \<open>v \<noteq> 0\<close> uint_range [of v] by (simp add: uint_word_ariths zmod_zminus1_eq_if uint_0_iff)
    ultimately show ?thesis using 3 by (simp add: sint_cases)
  qed (simp_all add: i256_from_def and_sign_mask take_bit_255 sint_cases)
qed

lemma i256_into_value: "i256_into x = word_of_int (i256_value x)"
  by (cases x rule: i256_into.cases) (simp_all add: not_plus_one)

lemma i256_sint: "i256_from v = I256 s a \<Longrightarrow> sint v = i256_value (I256 s a)"
  using i256_from_value [of v] by simp

lemma sint_lower: "- (2 ^ 255) \<le> sint (v :: u256)"
  using sint_ge [of v] by simp

lemma i256_from_sign:
  assumes "i256_from v = I256 s a"
  shows "s = Zero \<longleftrightarrow> v = 0" and "s = Zero \<longleftrightarrow> a = 0" and "s = Plus \<Longrightarrow> uint a < 2 ^ 255"
  using assms by (auto simp: i256_from_def and_sign_mask take_bit_255 not_plus_one split: if_splits)

lemma i256_from_bound:
  assumes "i256_from v = I256 s a"
  shows "uint a \<le> 2 ^ 255"
proof (cases s)
  case Minus
  then show ?thesis using i256_sint [OF assms] sint_lower [of v] by simp
qed (use i256_from_sign [OF assms] in auto)

lemma i256_abs: "i256_from v = I256 s a \<Longrightarrow> \<bar>sint v\<bar> = uint a"
  using i256_sint [of v s a] i256_from_sign(2) [of v s a] by (cases s) auto

lemma i256_sgn:
  assumes "i256_from v = I256 s a"
  shows "sgn (sint v) = (case s of Zero \<Rightarrow> 0 | Plus \<Rightarrow> 1 | Minus \<Rightarrow> - 1)"
  using i256_sint [OF assms] i256_from_sign(2) [OF assms] by (cases s) auto

lemma signed_value:
  "sgn k = (case s of Zero \<Rightarrow> 0 | Plus \<Rightarrow> 1 | Minus \<Rightarrow> - 1) \<Longrightarrow> i256_value (I256 s r) = sgn k * uint r"
  by (cases s) simp_all

text \<open>The signed quotient is the quotient rounded towards zero, and -2^255 divided by -1 wraps around.\<close>

lemma evm_sdiv_exact: "evm_sdiv a b = word_of_int (sint a sdiv sint b)"
proof -
  obtain s m where a: "i256_from a = I256 s m" by (cases "i256_from a")
  obtain t n where b: "i256_from b = I256 t n" by (cases "i256_from b")
  have sdiv: "sint a sdiv sint b = sgn (sint a) * sgn (sint b) * (uint m div uint n)"
    by (simp add: signed_divide_int_def i256_abs [OF a] i256_abs [OF b])
  consider "t = Zero" | "I256 s m = i256_min_value" "n = 1" "t \<noteq> Zero"
    | "t \<noteq> Zero" "\<not> (I256 s m = i256_min_value \<and> n = 1)" by blast
  then show ?thesis
  proof cases
    case 1
    then have "b = 0" "n = 0" using i256_from_sign [OF b] by simp_all
    then show ?thesis by (simp add: evm_sdiv_def a i256_from_def)
  next
    case 2
    have min: "uint m = 2 ^ 255" "s = Minus"
      using 2(1) by (simp_all add: i256_min_value_def SIGN_BIT_MASK_def)
    have "i256_div (I256 s m) (I256 t n) = i256_min_value"
      using 2 by (subst i256_div.simps) auto
    then have "evm_sdiv a b = word_of_int (- (2 ^ 255))"
      by (simp add: evm_sdiv_def a b i256_min_value_def SIGN_BIT_MASK_def)
    moreover have "sint a sdiv sint b = (case t of Minus \<Rightarrow> 2 ^ 255 | _ \<Rightarrow> - (2 ^ 255))"
      using 2 min unfolding sdiv i256_sgn [OF a] i256_sgn [OF b] by (cases t) simp_all
    ultimately show ?thesis using 2(3) by (cases t) simp_all
  next
    case 3
    then have n: "0 < uint n"
      using i256_from_sign [OF b] uint_range(1) [of n] by (simp add: order.strict_iff_order uint_0_iff)
    have "uint m div uint n < 2 ^ 255"
    proof (cases "uint m < 2 ^ 255")
      case True
      then show ?thesis using n zdiv_mono2 [of "uint m" 1 "uint n"] by simp
    next
      case False
      have "s = Minus" using False i256_from_sign(2,3) [OF a] by (cases s) simp_all
      with False have m: "uint m = 2 ^ 255" "s = Minus" using i256_from_bound [OF a] by simp_all
      then have "m = 2 ^ 255" by (simp add: word_uint_eq_iff)
      with m 3(2) have "n \<noteq> 1" by (simp add: i256_min_value_def SIGN_BIT_MASK_def)
      then have "1 < uint n" using n by (simp add: word_uint_eq_iff)
      then show ?thesis using m(1) int_div_less_self [of "uint m" "uint n"] by simp
    qed
    then have d: "(m div n) AND SIGN_BIT_MASK = m div n"
      by (simp add: and_sign_mask take_bit_255 uint_div)
    have "i256_value (i256_div (I256 s m) (I256 t n)) = sgn (sint a) * sgn (sint b) * (uint m div uint n)"
      using 3 i256_from_sign [OF a] unfolding i256_sgn [OF a] i256_sgn [OF b]
      by (cases s; cases t) (auto simp: d Let_def simp flip: uint_div)
    then show ?thesis by (simp add: evm_sdiv_def a b i256_into_value sdiv del: i256_div.simps)
  qed
qed

lemma evm_srem_exact: "evm_srem a b = word_of_int (if b = 0 then 0 else sint a smod sint b)"
proof (cases "b = 0")
  case False
  obtain s m where a: "i256_from a = I256 s m" by (cases "i256_from a")
  obtain t n where b: "i256_from b = I256 t n" by (cases "i256_from b")
  have "0 < uint n" using False i256_from_sign [OF b] uint_range(1) [of n] by (simp add: order.strict_iff_order uint_0_iff)
  then have "uint m mod uint n < uint n" by simp
  then have "uint (m mod n) < 2 ^ 255"
    unfolding uint_mod using i256_from_bound [OF b] by linarith
  then have r: "(m mod n) AND SIGN_BIT_MASK = m mod n"
    by (simp add: and_sign_mask take_bit_255)
  have "i256_value (i256_rem (I256 s m) (I256 t n)) = sgn (sint a) * (uint m mod uint n)"
    using signed_value [OF i256_sgn [OF a], of "m mod n"] by (auto simp: r Let_def uint_0_iff simp flip: uint_mod)
  then show ?thesis
    using False by (simp add: evm_srem_def a b i256_into_value signed_modulo_int_def i256_abs [OF a] i256_abs [OF b])
qed (simp add: evm_srem_def)

lemma i256_less_exact: "i256_less (i256_from a) (i256_from b) \<longleftrightarrow> sint a < sint b"
proof -
  obtain s m where a: "i256_from a = I256 s m" by (cases "i256_from a")
  obtain t n where b: "i256_from b = I256 t n" by (cases "i256_from b")
  have "s \<noteq> Zero \<Longrightarrow> 0 < uint m" "t \<noteq> Zero \<Longrightarrow> 0 < uint n"
    using i256_from_sign(2) [OF a] i256_from_sign(2) [OF b] uint_range(1) [of m] uint_range(1) [of n]
    by (simp_all add: order.strict_iff_order uint_0_iff)
  then show ?thesis
    unfolding a b i256_sint [OF a] i256_sint [OF b] by (cases s; cases t) (auto simp: word_less_def)
qed

lemma neg_div_pow: "- (m :: int) div 2 ^ k = - ((m - 1) div 2 ^ k + 1)"
proof -
  obtain r where r: "(m - 1) mod 2 ^ k = r" "0 \<le> r" "r < 2 ^ k" by simp
  then have "- m = 2 ^ k * - ((m - 1) div 2 ^ k + 1) + (2 ^ k - 1 - r)"
    using mult_div_mod_eq [of "2 ^ k" "m - 1"] by (simp add: algebra_simps)
  then show ?thesis using r by (intro int_div_pos_eq [where r = "2 ^ k - 1 - r"]) simp_all
qed

lemma sint_div_large: "256 \<le> k \<Longrightarrow> sint (v :: u256) div 2 ^ k = (if sint v < 0 then - 1 else 0)"
proof -
  assume "256 \<le> k"
  then have "(2 :: int) ^ 256 \<le> 2 ^ k" by (rule power_increasing) simp
  moreover have "- (2 ^ 255) \<le> sint v" "sint v < 2 ^ 255" using sint_ge [of v] sint_lt [of v] by simp_all
  ultimately show ?thesis
    using int_div_pos_eq [of "sint v" "2 ^ k" "- 1" "sint v + 2 ^ k"] by (auto simp: div_pos_pos_trivial)
qed

lemma evm_sar_exact: "evm_sar s v = word_of_int (sint v div 2 ^ unat s)"
proof -
  obtain sg a where v: "i256_from v = I256 sg a" by (cases "i256_from v")
  have k: "256 \<le> s \<longleftrightarrow> 256 \<le> unat s" by (simp add: word_le_nat_alt)
  show ?thesis
  proof (cases sg)
    case Minus
    then have "0 < uint a"
      using i256_from_sign [OF v] uint_range(1) [of a] by (simp add: order.strict_iff_order uint_0_iff)
    then have a1: "uint (a - 1) = uint a - 1" using uint_range [of a] by (simp add: uint_word_ariths)
    have v': "sint v = - uint a" using i256_sint [OF v] Minus by simp
    show ?thesis
    proof (cases "256 \<le> s")
      case True
      then show ?thesis using Minus v v' \<open>0 < uint a\<close> k sint_div_large [of "unat s" v] by (simp add: evm_sar_def)
    next
      case False
      then have "evm_sar s v = i256_into (I256 Minus (drop_bit (unat s) (a - 1) + 1))"
        using Minus v by (simp add: evm_sar_def)
      also have "\<dots> = - (drop_bit (unat s) (a - 1) + 1)" by (simp add: not_plus_one)
      also have "\<dots> = word_of_int (- (uint (drop_bit (unat s) (a - 1)) + 1))" by simp
      also have "uint (drop_bit (unat s) (a - 1)) = (uint a - 1) div 2 ^ unat s"
        by (simp only: uint_drop a1)
      finally show ?thesis by (simp only: v' neg_div_pow)
    qed
  next
    case Plus
    then have v': "sint v = uint a" "0 \<le> sint v" using i256_sint [OF v] by simp_all
    have d: "drop_bit (unat s) a = word_of_int (uint a div 2 ^ unat s)"
      by (simp flip: uint_drop)
    show ?thesis
      using Plus v v' k d sint_div_large [of "unat s" v] i256_from_sign(2) [OF v] by (auto simp: evm_sar_def)
  next
    case Zero
    then show ?thesis using v i256_from_sign [OF v] by (simp add: evm_sar_def)
  qed
qed

lemma evm_signextend_exact: "evm_signextend x y = (if x < 32 then signed_take_bit (8 * unat x + 7) y else y)"
proof (cases "x < 32")
  case True
  then have x: "unat x < 32" by (simp add: word_less_nat_alt)
  define k where "k = 8 * unat x + 7"
  have "unat (8 * (ucast x :: 32 word) + 7) = k"
    unfolding k_def using x by (simp add: unat_word_ariths unsigned_ucast_eq take_bit_eq_mod)
  moreover have "push_bit k 1 - 1 = (mask k :: u256)" by (simp add: mask_eq_exp_minus_1 push_bit_eq_mult)
  ultimately have "evm_signextend x y = (if bit y k then y OR NOT (mask k) else y AND mask k)"
    using True by (simp only: evm_signextend_def Let_def if_True)
  also have "\<dots> = signed_take_bit k y"
    using x by (intro bit_word_eqI) (auto simp: bit_simps min_def k_def not_less le_less)
  finally show ?thesis using True by (simp add: k_def)
qed (simp add: evm_signextend_def)

lemma take_bit_next: "take_bit i w + push_bit i (of_bool (bit w i)) = take_bit (Suc i) (w :: u256)"
proof (subst disjunctive_add)
  show "\<not> bit (take_bit i w) n \<or> \<not> bit (push_bit i (of_bool (bit w i)) :: u256) n" for n
    by (auto simp: bit_simps)
  show "take_bit i w OR push_bit i (of_bool (bit w i)) = take_bit (Suc i) w"
    by (rule bit_word_eqI) (auto simp: bit_simps less_Suc_eq le_less)
qed

lemma byte_round_bits:
  assumes "unat x < 32" and "i < 8"
  shows "byte_round x y i (take_bit i (drop_bit (8 * (31 - unat x)) y)) =
    take_bit (Suc i) (drop_bit (8 * (31 - unat x)) y)"
proof -
  define t where "t = 255 - (7 - i + 8 * unat x)"
  have t: "t = 8 * (31 - unat x) + i" using assms by (simp add: t_def)
  define w where "w = drop_bit (8 * (31 - unat x)) y"
  have w: "bit w i = bit y t" by (simp add: w_def t bit_simps)
  have "drop_bit t (y AND push_bit t 1) = of_bool (bit y t)"
    using assms t by (intro bit_word_eqI) (auto simp: bit_simps)
  moreover have "x < 32" using assms by (simp add: word_less_nat_alt)
  ultimately have "byte_round x y i (take_bit i w) = take_bit i w + push_bit i (of_bool (bit y t))"
    by (simp only: byte_round_def Let_def t_def [symmetric] assms simp_thms if_True)
  also have "\<dots> = take_bit (Suc i) w"
    unfolding w [symmetric] by (rule take_bit_next)
  finally show ?thesis by (simp only: w_def)
qed

lemma upt_split: "m \<le> n \<Longrightarrow> [0..<n] = [0..<m] @ [m..<n]"
  using upt_add_eq_append [of 0 m "n - m"] by simp

lemma evm_byte_exact: "evm_byte x y = (if x < 32 then ucast (be_bytes 32 y ! unat x) else 0)"
proof -
  have idle: "fold (byte_round x y) is acc = acc" if "\<forall>i\<in>set is. \<not> (i < 8 \<and> x < 32)" for "is" acc
    using that by (induction "is" arbitrary: acc) (auto simp: byte_round_def)
  show ?thesis
  proof (cases "x < 32")
    case True
    then have x: "unat x < 32" by (simp add: word_less_nat_alt)
    have bits: "fold (byte_round x y) [0..<n] 0 = take_bit n (drop_bit (8 * (31 - unat x)) y)" if "n \<le> 8" for n
      using that by (induction n) (simp_all add: byte_round_bits [OF x])
    have upt: "[0..<256] = [0..<8] @ [8..<256]" by (rule upt_split) simp
    have "evm_byte x y = fold (byte_round x y) [8..<256] (fold (byte_round x y) [0..<8] 0)"
      unfolding evm_byte_def upt by (simp only: fold_append comp_def)
    also have "\<dots> = fold (byte_round x y) [0..<8] 0" by (rule idle) (unfold set_upt, simp)
    also have "\<dots> = take_bit 8 (drop_bit (8 * (31 - unat x)) y)" by (rule bits) simp
    also have "\<dots> = ucast (be_bytes 32 y ! unat x)"
    proof (rule bit_word_eqI)
      fix j
      show "bit (take_bit 8 (drop_bit (8 * (31 - unat x)) y)) j = bit (ucast (be_bytes 32 y ! unat x) :: u256) j"
        using x be_bytes_nth_bit [of "31 - unat x" 32 j y] 
        by (cases "j < 8") (auto simp: bit_simps dest: bit_imp_le_length)
    qed
    finally show ?thesis using True by simp
  next
    case False
    then have "evm_byte x y = 0" unfolding evm_byte_def by (intro idle) blast
    with False show ?thesis by simp
  qed
qed

lemma wide_mod:
  fixes m :: u256 and k :: "512 word"
  assumes "0 < uint m"
  shows "(ucast (k mod ucast m) :: u256) = word_of_int (uint k mod uint m)"
proof -
  have "uint (k mod ucast m) = uint k mod uint m" by (simp add: uint_mod uint_up_ucast is_up)
  then show ?thesis by (simp only: ucast_eq)
qed

lemma evm_modular_exact:
  assumes "m \<noteq> 0"
  shows "evm_addmod a b m = word_of_int ((uint a + uint b) mod uint m)"
    and "evm_mulmod a b m = word_of_int ((uint a * uint b) mod uint m)"
proof -
  have m: "0 < uint m" using assms uint_range(1) [of m] by (simp add: order.strict_iff_order uint_0_iff)
  have wide: "uint (ucast a :: 512 word) = uint a" "uint (ucast b :: 512 word) = uint b"
    by (simp_all add: uint_up_ucast is_up)
  have "uint a + uint b < 2 ^ 512" using uint_range(2) [of a] uint_range(2) [of b] by simp
  then have "uint (ucast a + ucast b :: 512 word) = uint a + uint b"
    by (simp add: uint_word_ariths wide)
  then show "evm_addmod a b m = word_of_int ((uint a + uint b) mod uint m)"
    using assms by (simp add: evm_addmod_def wide_mod [OF m])
  have "uint a * uint b < 2 ^ 256 * 2 ^ 256"
    using uint_range [of a] uint_range [of b] by (intro mult_strict_mono) simp_all
  then have "uint (ucast a * ucast b :: 512 word) = uint a * uint b"
    by (simp add: uint_word_ariths wide)
  then show "evm_mulmod a b m = word_of_int ((uint a * uint b) mod uint m)"
    using assms by (simp add: evm_mulmod_def wide_mod [OF m])
qed

lemma parity_split:
  "(e :: u256) mod 2 = 1 \<Longrightarrow> unat e = Suc (2 * (unat e div 2))"
  "(e :: u256) mod 2 = 0 \<Longrightarrow> unat e = 2 * (unat e div 2)"
proof -
  have "unat (e mod 2) = unat e mod 2" by (simp add: unat_mod)
  then show "e mod 2 = 1 \<Longrightarrow> unat e = Suc (2 * (unat e div 2))"
    "e mod 2 = 0 \<Longrightarrow> unat e = 2 * (unat e div 2)" by simp_all presburger+
qed

lemma exp_loop_power: "exp_loop a e r = r * a ^ unat e"
proof (induction a e r rule: exp_loop.induct)
  case (1 a e r)
  show ?case
  proof (cases "e = 0")
    case False
    have split: "unat e = 2 * unat (drop_bit 1 e) + (if e AND 1 \<noteq> 0 then 1 else 0)"
      by (simp add: drop_bit_eq_div unat_div and_one_eq) (metis parity_split)
    show ?thesis
      using 1 False split by (subst exp_loop.simps) (simp add: power_add power_mult power2_eq_square ac_simps)
  qed (subst exp_loop.simps, simp)
qed

lemma evm_shift_exact:
  "evm_shl s v = (if unat s < 256 then push_bit (unat s) v else 0)"
  "evm_shr s v = word_of_int (uint v div 2 ^ unat s)"
proof -
  have k: "256 \<le> s \<longleftrightarrow> 256 \<le> unat s" by (simp add: word_le_nat_alt)
  show "evm_shl s v = (if unat s < 256 then push_bit (unat s) v else 0)"
    by (simp add: evm_shl_def k not_less)
  show "evm_shr s v = word_of_int (uint v div 2 ^ unat s)"
  proof (cases "unat s < 256")
    case True
    then show ?thesis using uint_drop [of "unat s" v] by (auto simp: evm_shr_def k simp flip: uint_drop)
  next
    case False
    then have "(2 :: int) ^ 256 \<le> 2 ^ unat s" by (intro power_increasing) simp_all
    then have "uint v div 2 ^ unat s = 0" using uint_range [of v] by (intro div_pos_pos_trivial) linarith+
    with False show ?thesis by (simp add: evm_shr_def k)
  qed
qed

section \<open>What jumps and memory accesses do\<close>

text \<open>
  The instructions of the EVM: \<^verbatim>\<open>PUSH1\<close> to \<^verbatim>\<open>PUSH32\<close> are the bytes \<open>0x60\<close> to \<open>0x7f\<close>, with 1 to 32 bytes
  of data behind them, and every other instruction is a single byte. An instruction of the code
  starts at 0 and behind every instruction.
\<close>

definition instr_length :: "byte \<Rightarrow> nat" where
  "instr_length b = (if 0x60 \<le> unat b \<and> unat b \<le> 0x7f then unat b - 0x5e else 1)"

definition next_instr :: "bytes \<Rightarrow> nat \<Rightarrow> nat" where
  "next_instr code i = i + instr_length (code ! i)"

inductive instr_start :: "bytes \<Rightarrow> nat \<Rightarrow> bool" for code where
  first: "instr_start code 0"
| later: "instr_start code i \<Longrightarrow> i < length code \<Longrightarrow>
    instr_start code (next_instr code i)"

text \<open>The bytes of the memory, which is zero beyond what has been written.\<close>

definition cell :: "evm_memory \<Rightarrow> nat \<Rightarrow> byte" where
  "cell m i = (if i < length (em_data m) then em_data m ! i else 0)"

lemma memory_get_cells: "evm_memory_get m offset n = map (\<lambda>i. cell m (offset + i)) [0..<n]"
  by (rule nth_equalityI) (auto simp: evm_memory_get_def cell_def Let_def nth_append)

lemma cell_after_set:
  assumes "evm_memory_set offset v t m = (Inr (), m')"
  shows "cell m' i = (let n = (case t of Some k \<Rightarrow> k | None \<Rightarrow> length v) in
    if offset \<le> i \<and> i < offset + n
    then if i - offset < length v then v ! (i - offset) else 0 else cell m i)"
proof -
  define n where "n = (case t of Some k \<Rightarrow> k | None \<Rightarrow> length v)"
  show ?thesis
  proof (cases "n = 0")
    case True
    then show ?thesis using assms by (auto simp: evm_memory_set_def n_def [symmetric] ok_def)
  next
    case False
    define d where "d = extend (offset + n) (em_data m)"
    define w where "w = (if length v < n then v @ replicate (n - length v) 0 else take n v)"
    have m': "em_data m' = take offset d @ w @ drop (offset + n) d"
      using assms False
      by (auto simp: evm_memory_set_def n_def [symmetric] Let_def op_runs d_def w_def modify_def fail_def
          split: if_splits)
    have len: "offset + n \<le> length d" "length w = n" "length (em_data m) \<le> length d"
      by (auto simp: d_def extend_def w_def)
    have d: "i < length d \<Longrightarrow> d ! i = cell m i" for i
      by (auto simp: d_def extend_def cell_def nth_append)
    have out: "cell m i = 0" if "length d \<le> i" using that len(3) by (simp add: cell_def)
    consider "i < offset" | "offset \<le> i" "i < offset + n" | "offset + n \<le> i" by linarith
    then show ?thesis
    proof cases
      case 1
      then show ?thesis using len d by (simp add: cell_def [of m'] m' n_def [symmetric] nth_append)
    next
      case 2
      then have "i - offset < n" by linarith
      with 2 have "cell m' i = w ! (i - offset)" using len by (simp add: cell_def m' nth_append)
      then show ?thesis using 2 by (auto simp: n_def [symmetric] w_def nth_append)
    next
      case 3
      then show ?thesis using len d out by (auto simp: cell_def [of m'] m' n_def [symmetric] nth_append)
    qed
  qed
qed

lemma valids_loop_length: "length (valids_loop code i valids) = length valids"
  by (induction code i valids rule: valids_loop.induct) (subst valids_loop.simps, auto split: option.splits)

inductive starts_from :: "bytes \<Rightarrow> nat \<Rightarrow> nat \<Rightarrow> bool" for code where
  here: "starts_from code i i"
| on: "i < length code \<Longrightarrow>
    starts_from code (next_instr code i) p \<Longrightarrow> starts_from code i p"

lemma instr_length_push: "instr_length b = Suc (case is_push b of Some v \<Rightarrow> unat v | None \<Rightarrow> 0)"
proof (cases "0x60 \<le> unat b \<and> unat b \<le> 0x7f")
  case True
  then have "unat (b - 0x60) = unat b - 0x60" by (simp add: unat_sub word_le_nat_alt)
  then have "unat (b - 0x60 + 1) = unat b - 0x60 + 1"
    using True by (subst unat_add_lem [THEN iffD1]) auto
  with True have "is_push b = Some (b - 0x60 + 1)" "unat (b - 0x60 + 1) + 1 = instr_length b"
    by (auto simp: is_push_def word_le_nat_alt instr_length_def)
  then show ?thesis by simp
qed (auto simp: instr_length_def is_push_def word_le_nat_alt)

lemma starts_from_ge: "starts_from code i p \<Longrightarrow> i \<le> p"
  by (induction rule: starts_from.induct) (auto simp: next_instr_def)

lemma valids_loop_marks:
  assumes "length valids = length code"
  shows "p < length code \<Longrightarrow>
    valids_loop code i valids ! p \<longleftrightarrow> valids ! p \<or> code ! p = JUMPDEST \<and> starts_from code i p"
  using assms
proof (induction code i valids rule: valids_loop.induct)
  case (1 code i valids)
  have dest: "is_push JUMPDEST = None" by (simp add: is_push_def JUMPDEST_def)
  show ?case
  proof (cases "i < length code")
    case True
    have starts: "starts_from code i p \<longleftrightarrow> i = p \<or>
        starts_from code (next_instr code i) p"
      using True by (auto elim: starts_from.cases intro: starts_from.intros)
    show ?thesis
      using 1 True dest starts starts_from_ge [of code "Suc i" i]
      by (subst valids_loop.simps) (auto simp: nth_list_update next_instr_def instr_length_push split: option.splits)
  next
    case False
    then have "\<not> starts_from code i p" using 1(4) starts_from_ge by fastforce
    then show ?thesis using False by (subst valids_loop.simps) simp
  qed
qed

lemma starts_from_instr: "starts_from code i p \<Longrightarrow> instr_start code i \<Longrightarrow> instr_start code p"
  by (induction rule: starts_from.induct) (auto dest: later)

lemma starts_from_step:
  "starts_from code i p \<Longrightarrow> p < length code \<Longrightarrow>
   starts_from code i (next_instr code p)"
  by (induction rule: starts_from.induct) (auto intro: starts_from.intros)

lemma instr_starts_from: "instr_start code p \<Longrightarrow> starts_from code 0 p"
  by (induction rule: instr_start.induct) (auto intro: starts_from.here starts_from_step)

lemma round_up_32: "a + (32 - a mod 32) mod 32 = 32 * ((a + 31) div 32)" for a :: nat
proof -
  obtain q r where a: "a = 32 * q + r" "r < 32"
    using that [of "a div 32" "a mod 32"] by simp
  show ?thesis
  proof (cases "r = 0")
    case False
    then have "a + 31 = 32 * (q + 1) + (r - 1)" using a by simp
    then have "(a + 31) div 32 = q + 1" using a(2) by simp
    then show ?thesis using a False by simp
  qed (use a in simp)
qed

lemma next_multiple_of_32_exact:
  "next_multiple_of_32 x = Some y \<longleftrightarrow> unat y = 32 * ((unat x + 31) div 32)"
proof -
  define w where "w = (ucast x :: 32 word) AND 31"
  have and31: "k AND 31 = k mod 32" for k :: "32 word"
    using take_bit_eq_mask [of 5 k] take_bit_eq_mod [of 5 k] by (simp add: mask_eq_exp_minus_1)
  have "unat w = unat (ucast x :: 32 word) mod 32"
    by (simp add: w_def and31 unat_mod)
  also have "\<dots> = unat x mod 32"
    by (simp add: unsigned_ucast_eq take_bit_eq_mod mod_mod_cancel)
  finally have w: "unat w = unat x mod 32" .
  have neg: "unat (- w) = (if w = 0 then 0 else 2 ^ 32 - unat w)"
    using unat_sub_if' [of 0 w] by (simp add: unat_eq_zero)
  have "unat ((NOT w + 1) AND 31) = unat (- w) mod 32"
    by (simp add: and31 unat_mod flip: minus_eq_not_plus_1)
  also have "\<dots> = (32 - unat x mod 32) mod 32"
  proof (cases "w = 0")
    case False
    then have "0 < unat w" by (simp add: unat_gt_0)
    moreover have "unat w < 32" using w by simp
    ultimately have "0 < unat w" "unat w < 32" by blast+
    then have "2 ^ 32 - unat w = (32 - unat w) + 32 * (2 ^ 27 - 1)" by simp
    then have "(2 ^ 32 - unat w) mod 32 = (32 - unat w) mod 32" by (simp only: mod_mult_self2)
    then show ?thesis using neg False by (simp only: w if_False)
  qed (use neg w in simp)
  finally have "unat ((NOT ((ucast x :: 32 word) AND 31) + 1) AND 31) = (32 - unat x mod 32) mod 32"
    by (simp only: w_def)
  moreover have "unat (ucast k :: u256) = unat k" for k :: "32 word"
  proof -
    have "uint (ucast k :: u256) = uint k" by (simp add: uint_up_ucast is_up)
    then show ?thesis by (simp only: unat_eq_nat_uint)
  qed
  ultimately have r: "unat (ucast ((NOT ((ucast x :: 32 word) AND 31) + 1) AND 31) :: u256) = (32 - unat x mod 32) mod 32"
    by (simp only:)
  show ?thesis
    unfolding next_multiple_of_32_def Let_def checked_add_Some r round_up_32 by (rule refl)
qed

section \<open>Properties\<close>

text \<open>
  C32: The sign-and-magnitude arithmetic of the interpreter is two's complement arithmetic. Quotient and
  remainder are those that round towards zero, with 0 for a divisor 0 and with the quotient of the
  smallest number by -1 wrapping around; the comparison is that of the signed values; and the
  arithmetic shift rounds towards minus infinity for every shift.
\<close>

theorem signed_arithmetic_exact:
  "evm_sdiv a b = word_of_int (sint a sdiv sint b) \<and>
   evm_srem a b = word_of_int (if b = 0 then 0 else sint a smod sint b) \<and>
   evm_slt a b = truth (sint a < sint b) \<and> evm_sgt a b = truth (sint b < sint a) \<and>
   evm_sar b a = word_of_int (sint a div 2 ^ unat b)"
  unfolding evm_slt_def evm_sgt_def i256_less_exact
  by (intro conjI evm_sdiv_exact evm_srem_exact evm_sar_exact refl)

text \<open>
  C33: The routines that work on bits agree with their definitions: the exponentiation by squaring ends
  and is the power modulo \<open>2\<^sup>2\<^sup>5\<^sup>6\<close>, the masked sign extension copies the sign bit of byte \<open>x\<close> into all
  higher bits, and the loop over single bits gives byte \<open>x\<close> of the number, counted from the most
  significant one.
\<close>

theorem bit_routines_exact:
  "evm_exp a e = a ^ unat e \<and>
   evm_signextend x y = (if x < 32 then signed_take_bit (8 * unat x + 7) y else y) \<and>
   evm_byte x y = (if x < 32 then ucast (be_bytes 32 y ! unat x) else 0)"
  unfolding evm_exp_def exp_loop_power mult_1 by (intro conjI refl evm_signextend_exact evm_byte_exact)

text \<open>
  C40: A jump is taken exactly to a \<^verbatim>\<open>JUMPDEST\<close>, the byte \<open>0x5b\<close>, that is an instruction of its own: the
  map of destinations marks no byte that belongs to the data of a push, and misses no destination.
\<close>

theorem valid_jumps_exact:
  "is_valid_jump (valids_new code) p \<longleftrightarrow> p < length code \<and> code ! p = 0x5b \<and> instr_start code p"
proof -
  have "starts_from code 0 p \<longleftrightarrow> instr_start code p"
    using starts_from_instr instr_starts_from instr_start.first by blast
  then show ?thesis
    by (auto simp: is_valid_jump_def valids_new_def valids_loop_length valids_loop_marks JUMPDEST_def)
qed

text \<open>
  What is written to memory is read back, cut or filled with zeros to the size of the target, and
  every byte outside the target keeps its value, also beyond the end of what was written before.
\<close>

theorem memory_write_then_read:
  assumes "evm_memory_set offset v target m = (Inr (), m')"
    and "n = (case target of Some k \<Rightarrow> k | None \<Rightarrow> length v)"
  shows "evm_memory_get m' offset n = take n (v @ replicate n 0) \<and>
    (\<forall>from k. from + k \<le> offset \<or> offset + n \<le> from \<longrightarrow> evm_memory_get m' from k = evm_memory_get m from k)"
proof -
  have cells: "cell m' i = (if offset \<le> i \<and> i < offset + n
      then if i - offset < length v then v ! (i - offset) else 0 else cell m i)" for i
    using cell_after_set [OF assms(1), of i] by (simp add: assms(2) Let_def)
  have "evm_memory_get m' offset n = take n (v @ replicate n 0)"
    by (rule nth_equalityI) (auto simp: memory_get_cells cells nth_append)
  moreover have "evm_memory_get m' from k = evm_memory_get m from k"
    if "from + k \<le> offset \<or> offset + n \<le> from" for "from" k
    using that by (auto simp: memory_get_cells cells)
  ultimately show ?thesis by blast
qed

theorem memory_write_then_read_witness:
  "evm_memory_get (snd (evm_memory_set 2 [7, 8, 9] (Some 2) (evm_memory_new 64))) 2 2 = [7, 8]"
proof -
  have "evm_memory_set 2 [7, 8, 9] (Some 2) (evm_memory_new 64) =
      (Inr (), snd (evm_memory_set 2 [7, 8, 9] (Some 2) (evm_memory_new 64)))"
    by (simp add: evm_memory_set_def evm_memory_new_def op_runs modify_def)
  from memory_write_then_read [OF this refl] show ?thesis by simp
qed

end
