(* ===== verification/Spec2Isabelle.thy ===== *)
theory Spec2Isabelle
  imports L1X_Commit_Order L1X_Consensus L1X_Evm_Core
begin

text \<open>
  A verification development for the L1X node (\<^verbatim>\<open>l1x-core\<close>), a blockchain node with two virtual machines.
  Accounts hold balances; transactions transfer them, stake them in pools, and deploy and call contracts
  that run in an eBPF machine or in the Ethereum machine. Blocks collect transactions; validators, which
  are selected for an epoch of 100 blocks, vote on a proposed block, and a node executes it when a vote
  result passes.

  \<^bold>\<open>Conventions.\<close> Integers keep their machine width and wrap as in a release build; checked and
  saturating operations are those of \<open>L1X_Prelude\<close>. A method that changes its object and may fail is an
  operation from a state to a result and a state, and what it wrote before an error stays written. A
  panic is an error of its own. Third-party code (hashing, secp256k1, serialization, base64, TOML, the
  calendar, IEEE arithmetic, the random generator, the EVM runtime, the ELF loader) and the order in which
  hash maps are enumerated are fields of parameter records, and theorems name what they assume of them.
  Database tables are maps or lists of rows with the rules of their keys.

  \<^bold>\<open>Data and state.\<close> \<open>L1X_System\<close> models \<^verbatim>\<open>system/src\<close>, \<^verbatim>\<open>compile_time_config\<close>, \<^verbatim>\<open>mint\<close> and the
  verification of \<^verbatim>\<open>l1x-vrf\<close>. \<open>L1X_State\<close> is \<^verbatim>\<open>UpdatedState\<close> of \<^verbatim>\<open>state/src/updated_state.rs\<close>, the
  copy-on-write state of an execution. \<open>L1X_Ledger\<close> gives its abstract specification: operations on what a
  reader observes, and that the code refines them whatever is cached; a transfer keeps the sum of all
  balances. \<open>L1X_Staking\<close> does the same for staking, and shows that staking and withdrawing keep a pool
  solvent: its stakes sum to at most the balance of its account. \<open>L1X_Storage\<close> is the PostgreSQL backend (\<^verbatim>\<open>account\<close>, \<^verbatim>\<open>contract\<close>,
  \<^verbatim>\<open>contract_instance\<close>, \<^verbatim>\<open>event\<close>, \<^verbatim>\<open>staking\<close>) with \<^verbatim>\<open>commit\<close>: what is committed is read back.
  \<open>L1X_Commit_Order\<close> shows that the order in which the maps are enumerated does not matter.

  \<^bold>\<open>Execution.\<close> \<open>L1X_Fee\<close> models \<^verbatim>\<open>fee/src\<close> and \<^verbatim>\<open>execute_fee.rs\<close>. \<open>L1X_VM\<close> is the host of the eBPF
  machine (\<^verbatim>\<open>vm/l1x-ebpf-runtime\<close>) and \<open>L1X_Ebpf\<close> its instructions, verifier and interpreter
  (\<^verbatim>\<open>vm/l1x-rbpf\<close>): an accepted program keeps its registers and its place in the code, the loop ends with
  the gas, and it is shown exactly when an instruction of an accepted program panics the interpreter, which ends
  the execution of its block. \<open>L1X_Contracts\<close> models the executors of
  \<^verbatim>\<open>execute/src/execute_contract_*.rs\<close> and \<^verbatim>\<open>contract_instance_manager\<close>, with calls between both machines:
  no contract changes the total supply. \<open>L1X_Transaction\<close> (\<^verbatim>\<open>execute_transaction.rs\<close>, \<^verbatim>\<open>execute_token.rs\<close>,
  \<^verbatim>\<open>execute_staking.rs\<close>) bounds the fee by its limit, relates it to the
  estimate, and shows that merging the state of an executed transaction back loses nothing. \<open>L1X_Evm_Core\<close> is
  the arithmetic, the jump destinations and the memory of \<^verbatim>\<open>evm_interpreter/src\<close>, shown equal to their
  definitions on two's complement numbers.

  \<^bold>\<open>Blocks and consensus.\<close> \<open>L1X_Block_Store\<close> is the table of blocks (\<^verbatim>\<open>block/src/state_pg.rs\<close>),
  \<open>L1X_Runtime_Config\<close> the caches of \<^verbatim>\<open>runtime_config/src\<close>. \<open>L1X_Block\<close> (\<^verbatim>\<open>execute_block.rs\<close>) shows that a block
  never decreases the supply, keeps it unless the mint master sent a transaction, and runs once, and that a block
  without contracts keeps solvent every pool that sends none of its transactions.
  \<open>L1X_Consensus_Store\<close> holds the tables of validators, proposers, votes, vote results and nodes.
  \<open>L1X_Vote\<close> (\<^verbatim>\<open>vote_result_manager.rs\<close>, \<^verbatim>\<open>validate_vote*.rs\<close>) shows what a passed vote result means and that a
  generated one passes. \<open>L1X_Validate\<close> models the checks of \<^verbatim>\<open>validate/src\<close>. \<open>L1X_Node_Health\<close> models the health
  reports of \<^verbatim>\<open>system\<close>, \<^verbatim>\<open>l1x_htm\<close> and \<^verbatim>\<open>l1x_node_health\<close>. \<open>L1X_Epoch\<close> models the creation of blocks and the
  selection of validators and proposers. \<open>L1X_Consensus\<close> is the node as a state machine: every handler of
  \<^verbatim>\<open>consensus/src\<close> and the message loop of \<^verbatim>\<open>node/src/node.rs\<close>. For every sequence of messages executed blocks
  are final and the ledger changes only by executing blocks; a finalized block was proposed by the
  proposer on record and voted for. Two theorems show the gaps: one unverified vote result stops the
  finalization of its block, and the handler of delivered blocks asks for no vote.

  \<^bold>\<open>Interfaces.\<close> The locale \<open>frame\<close> of the prelude is the contract of a relation that operations
  keep; \<open>updatable\<close>, \<open>state_frame\<close>, \<open>tx_frame\<close>, the frames of blocks and of the virtual machine and
  \<open>chain_frame\<close> build on it. Each is interpreted on the definitions of its component; the invariants of a
  whole transaction, block or run of the node are instances of one induction over the code.

  \<^bold>\<open>Bounds.\<close> Calls between contracts recurse on a level that starts at 17, enough for the call depths 0
  to 16 that the code can reach, and it is proved that the levels are never used up. The eBPF loop has the gas limit
  plus one as its fuel, which is proved to be enough because every instruction costs gas. The thresholds of
  a vote are computed in double precision and are exact up to \<open>2\<^sup>3\<^sup>2\<close> validators. An epoch has 100 blocks
  as in the default, mainnet and testnet configurations. An EVM program is the finite tree of its calls of
  the host, because its runtime is third-party code: that it ends is an assumption. The gas charged per EVM
  instruction is 0 in the code, so nothing in the node enforces it.

  \<^bold>\<open>Not modelled.\<close> The RocksDB and Cassandra backends and the wrappers that select a backend; the mempool,
  the synchronisation of a node, genesis and the RPC server, which are driven from outside the modelled
  state; the anomaly detector of \<^verbatim>\<open>l1x_htm\<close> and the scores of \<^verbatim>\<open>xscore\<close>, which are floating-point computations;
  the stack, the table of operations and the gasometer of \<^verbatim>\<open>evm_interpreter\<close> and the precompiled contracts;
  the JIT compiler, assembler and disassembler of \<^verbatim>\<open>l1x-rbpf\<close>; networking, command line and clients, which
  are input and output. Connection errors of the database and exhausted memory are not modelled either.
\<close>

end
